(* ===== verification/Prelude.thy ===== *)
theory Prelude
  imports
    Main
    "HOL-Library.Word"
    "HOL-Library.Multiset"
    "HOL-Library.List_Lexorder"
    "HOL-Library.Char_ord"
    "HOL-Library.Product_Lexorder"
begin

text \<open>
  Shared vocabulary of the development: the model's names for Go's basic types, the
  collections of facts the component proofs use, and Go's \<open>sort.Slice\<close> with the contract its
  callers rely on.

  A Go \<open>string\<close> and a Go \<open>[]byte\<close> are both a sequence of bytes, here a HOL \<open>string\<close> (a HOL
  \<open>char\<close> is a byte). Go compares strings bytewise and lexicographically, which is the order
  of the library theories \<open>Char_ord\<close> and \<open>List_Lexorder\<close>. Fixed-width unsigned integers
  are words. A fallible Go function returns \<open>'e + 'a\<close>, \<open>Inl\<close> carrying the error;
  a function whose only result is an \<open>error\<close> returns \<open>'e option\<close>, \<open>None\<close> for \<open>nil\<close>.
\<close>

type_synonym bytes = string
type_synonym uint16 = "16 word"
type_synonym uint32 = "32 word"
type_synonym uint64 = "64 word"

named_theorems result_splits "case splits for the early returns of fallible functions"

declare if_splits [result_splits] sum.splits [result_splits] option.splits [result_splits]

subsection \<open>Words\<close>

lemma unat_Suc_word:
  fixes x :: "'a::len word"
  assumes "x \<noteq> - 1"
  shows "unat (x + 1) = Suc (unat x)"
proof -
  have "x + 1 \<noteq> 0" using assms by (metis add_eq_0_iff2)
  then show ?thesis by (simp add: add.commute unatSuc)
qed

lemma word_pos_iff: "(0 :: 'a::len word) < x \<longleftrightarrow> x \<noteq> 0"
  by (simp add: word_gt_0)

subsection \<open>Options and sums as Go results\<close>

definition ok :: "'e + 'a \<Rightarrow> bool" where
  "ok r \<longleftrightarrow> (case r of Inl _ \<Rightarrow> False | Inr _ \<Rightarrow> True)"

lemma ok_simps [simp]: "ok (Inr x)" "\<not> ok (Inl e)"
  by (simp_all add: ok_def)

lemma ok_iff: "ok r \<longleftrightarrow> (\<exists>x. r = Inr x)"
  by (cases r) simp_all

lemma inj_on_distinct_map: "distinct (map f xs) \<Longrightarrow> inj_on f (set xs)"
  by (simp add: distinct_map)

subsection \<open>Sorting a slice\<close>

text \<open>
  Go's \<open>sort.Slice\<close>. The comparison is an argument, as in the source, and the
  result is built by insertion. Go promises a sorted permutation and nothing about the order
  of equal elements; the locale below shows that, where the keys are distinct, there is only
  one sorted permutation, so any algorithm returns this list.
\<close>

fun insert_by :: "('a \<Rightarrow> 'a \<Rightarrow> bool) \<Rightarrow> 'a \<Rightarrow> 'a list \<Rightarrow> 'a list" where
  "insert_by lt x [] = [x]"
| "insert_by lt x (y # ys) = (if lt y x then y # insert_by lt x ys else x # y # ys)"

definition sort_slice :: "('a \<Rightarrow> 'a \<Rightarrow> bool) \<Rightarrow> 'a list \<Rightarrow> 'a list" where
  "sort_slice lt xs = foldr (insert_by lt) xs []"

lemma mset_insert_by [simp]: "mset (insert_by lt x xs) = add_mset x (mset xs)"
  by (induction xs) simp_all

lemma mset_sort_slice [simp]: "mset (sort_slice lt xs) = mset xs"
  by (induction xs) (simp_all add: sort_slice_def)

lemma set_sort_slice [simp]: "set (sort_slice lt xs) = set xs"
  by (rule mset_eq_setD) simp

lemma length_sort_slice [simp]: "length (sort_slice lt xs) = length xs"
  by (rule mset_eq_length) simp

lemma sort_slice_Nil_iff [simp]: "sort_slice lt xs = [] \<longleftrightarrow> xs = []"
  by (metis length_0_conv length_sort_slice)

lemma distinct_map_sort_slice [simp]:
  "distinct (map f (sort_slice lt xs)) \<longleftrightarrow> distinct (map f xs)"
  by (rule mset_eq_imp_distinct_iff) simp

locale slice_order =
  fixes lt :: "'a \<Rightarrow> 'a \<Rightarrow> bool"
    and key :: "'a \<Rightarrow> 'k::linorder"
  assumes lt_key: "lt a b \<longleftrightarrow> key a < key b"
begin

lemma insert_by_insort: "insert_by lt x xs = insort_key key x xs"
  by (induction xs) (auto simp: lt_key)

lemma sort_slice_key: "sort_slice lt xs = sort_key key xs"
  by (induction xs) (simp_all add: sort_slice_def insert_by_insort)

lemma sorted_sort_slice: "sorted (map key (sort_slice lt xs))"
  by (simp add: sort_slice_key)

lemma sorted_wrt_sort_slice: "sorted_wrt (\<lambda>a b. \<not> lt b a) (sort_slice lt xs)"
  using sorted_sort_slice [of xs] by (simp add: sorted_map lt_key not_less)

lemma sorted_perm_unique:
  assumes "mset ys = mset xs" and "sorted (map key ys)" and "distinct (map key xs)"
  shows "ys = sort_slice lt xs"
proof -
  have inj: "inj_on key (set ys)"
    using assms(1,3) by (metis inj_on_distinct_map mset_eq_setD)
  have "mset (map key ys) = mset (map key (sort_slice lt xs))" using assms(1) by simp
  then have "map key ys = map key (sort_slice lt xs)"
    by (metis assms(2) properties_for_sort sorted_sort_slice)
  then show ?thesis
    using inj assms(1) by (metis map_inj_on mset_eq_setD set_sort_slice Un_absorb)
qed

lemma sort_slice_perm:
  assumes "mset xs = mset ys" and "distinct (map key xs)"
  shows "sort_slice lt xs = sort_slice lt ys"
  by (metis assms mset_eq_imp_distinct_iff mset_map mset_sort_slice sorted_perm_unique
      sorted_sort_slice)

lemma sort_slice_idem: "sort_slice lt (sort_slice lt xs) = sort_slice lt xs"
  by (simp add: sort_slice_key sort_key_id_if_sorted)

end

subsection \<open>Ratchets\<close>

text \<open>
  A state that only moves forward. \<open>step\<close> consumes one input, \<open>le\<close> orders the states and
  \<open>inv\<close> is the invariant under which a step is known to move forward; the lemmas lift both
  to whole runs. The anti-rollback states of the client and of the issuer are instances.
\<close>

locale ratchet =
  fixes step :: "'s \<Rightarrow> 'i \<Rightarrow> 's"
    and le :: "'s \<Rightarrow> 's \<Rightarrow> bool"
    and inv :: "'s \<Rightarrow> bool"
  assumes le_refl: "le s s"
    and le_trans: "le s t \<Longrightarrow> le t u \<Longrightarrow> le s u"
    and step_inv: "inv s \<Longrightarrow> inv (step s i)"
    and step_le: "inv s \<Longrightarrow> le s (step s i)"
begin

lemma run_inv: "inv s \<Longrightarrow> inv (foldl step s is)"
  by (induction "is" arbitrary: s) (simp_all add: step_inv)

lemma run_le: "inv s \<Longrightarrow> le s (foldl step s is)"
proof (induction "is" arbitrary: s)
  case (Cons i js)
  then show ?case using le_trans step_inv step_le by fastforce
qed (simp add: le_refl)

lemma run_prefix_le: "inv s \<Longrightarrow> le (foldl step s is) (foldl step s (is @ js))"
  by (simp add: run_le run_inv)

end

end
