(* ===== verification/GoText.thy ===== *)
theory GoText
  imports Prelude
begin

text \<open>
  What the sources use of Go's \<open>unicode/utf8\<close>, \<open>regexp\<close>, \<open>strconv\<close> and \<open>strings\<close>:
  decoding a string into runes, matching an anchored pattern, \<open>Atoi\<close>, and the searches
  \<open>HasPrefix\<close>, \<open>HasSuffix\<close>, \<open>Contains\<close>, \<open>Cut\<close> and \<open>LastIndex\<close>. The lemmas give each
  pattern shape of the sources a closed form.
\<close>

abbreviation byte :: "char \<Rightarrow> nat" where
  "byte c \<equiv> of_char c"

lemma byte_bound [simp]: "byte c < 256"
  by simp

subsection \<open>UTF-8\<close>

text \<open>
  \<open>decode_rune\<close> is \<open>utf8.DecodeRuneInString\<close>: the first rune and its width, with
  \<open>0xFFFD\<close> and width 1 for an invalid sequence (overlong forms, surrogates, values past
  \<open>0x10FFFF\<close> and truncated sequences included).
\<close>

definition cont :: "char \<Rightarrow> bool" where
  "cont c \<longleftrightarrow> 0x80 \<le> byte c \<and> byte c \<le> 0xBF"

definition rune_error :: "nat \<times> nat" where
  "rune_error = (0xFFFD, 1)"

fun decode_rune :: "string \<Rightarrow> nat \<times> nat" where
  "decode_rune [] = (0xFFFD, 0)"
| "decode_rune (a # s) =
    (if byte a < 0x80 then (byte a, 1)
     else if byte a < 0xC2 \<or> 0xF4 < byte a then rune_error
     else if byte a < 0xE0 then
       (case s of
          b # _ \<Rightarrow> if cont b then ((byte a - 0xC0) * 0x40 + (byte b - 0x80), 2) else rune_error
        | _ \<Rightarrow> rune_error)
     else if byte a < 0xF0 then
       (case s of
          b # c # _ \<Rightarrow>
            if cont b \<and> cont c \<and> (byte a = 0xE0 \<longrightarrow> 0xA0 \<le> byte b) \<and> (byte a = 0xED \<longrightarrow> byte b \<le> 0x9F)
            then ((byte a - 0xE0) * 0x1000 + (byte b - 0x80) * 0x40 + (byte c - 0x80), 3)
            else rune_error
        | _ \<Rightarrow> rune_error)
     else
       (case s of
          b # c # d # _ \<Rightarrow>
            if cont b \<and> cont c \<and> cont d \<and> (byte a = 0xF0 \<longrightarrow> 0x90 \<le> byte b) \<and>
               (byte a = 0xF4 \<longrightarrow> byte b \<le> 0x8F)
            then ((byte a - 0xF0) * 0x40000 + (byte b - 0x80) * 0x1000 +
                  (byte c - 0x80) * 0x40 + (byte d - 0x80), 4)
            else rune_error
        | _ \<Rightarrow> rune_error))"

fun runes :: "string \<Rightarrow> nat list" where
  "runes [] = []"
| "runes (a # s) =
    (let (r, w) = decode_rune (a # s) in r # runes (drop (w - 1) s))"

lemma decode_rune_ascii: "byte a < 0x80 \<Longrightarrow> decode_rune (a # s) = (byte a, 1)"
  by simp

lemma decode_rune_small:
  assumes "fst (decode_rune (a # s)) < 0x80"
  shows "byte a < 0x80"
proof (rule ccontr)
  assume "\<not> byte a < 0x80"
  then have "0x80 \<le> fst (decode_rune (a # s))"
    by (auto simp: rune_error_def cont_def split: list.split)
  with assms show False by simp
qed

lemma runes_ascii: "\<forall>c \<in> set s. byte c < 0x80 \<Longrightarrow> runes s = map of_char s"
  by (induction s) (simp_all add: Let_def del: decode_rune.simps add: decode_rune_ascii)

lemma runes_small: "\<forall>r \<in> set (runes s). r < 0x80 \<Longrightarrow> \<forall>c \<in> set s. byte c < 0x80"
proof (induction s rule: runes.induct)
  case 1
  then show ?case by simp
next
  case (2 a s)
  obtain r w where rw: "decode_rune (a # s) = (r, w)" by force
  have a: "byte a < 0x80"
    using 2(2) rw decode_rune_small [of a s] by (simp del: decode_rune.simps)
  then have "w = 1" using rw by simp
  then show ?case
    using 2 rw a by (simp del: decode_rune.simps)
qed

lemma runes_length_le: "length (runes s) \<le> length s"
proof (induction s rule: runes.induct)
  case (2 a s)
  obtain r w where rw: "decode_rune (a # s) = (r, w)" by force
  then have "length (runes (drop (w - 1) s)) \<le> length s - (w - 1)"
    using 2 by (simp del: decode_rune.simps)
  then show ?case by (simp add: rw del: decode_rune.simps)
qed simp

subsection \<open>Anchored regular expressions\<close>

text \<open>
  Every pattern of the sources is anchored with \<open>^\<close> and \<open>$\<close> (Go's \<open>$\<close> without the
  \<open>m\<close> flag is the end of the text) and is matched against the runes of the string.
  \<open>Cls\<close> is a character class given by its ranges, \<open>Upto r n\<close> is \<open>r{0,n}\<close>, and
  \<open>rx_rest r xs\<close> lists what is left of \<open>xs\<close> after each prefix that \<open>r\<close> matches. A useful
  round of \<open>r*\<close> consumes a rune, so \<open>length xs\<close> rounds are enough.
\<close>

datatype rx =
    Cls "(nat \<times> nat) list"
  | Eps
  | Seq rx rx
  | Alt rx rx
  | Upto rx nat
  | Star rx

abbreviation Opt :: "rx \<Rightarrow> rx" where
  "Opt r \<equiv> Upto r 1"

primrec Times :: "rx \<Rightarrow> nat \<Rightarrow> rx" where
  "Times r 0 = Eps"
| "Times r (Suc n) = Seq r (Times r n)"

definition in_cls :: "(nat \<times> nat) list \<Rightarrow> nat \<Rightarrow> bool" where
  "in_cls rs x \<longleftrightarrow> list_ex (\<lambda>(lo, hi). lo \<le> x \<and> x \<le> hi) rs"

fun upto_rest :: "(nat list \<Rightarrow> nat list list) \<Rightarrow> nat \<Rightarrow> nat list \<Rightarrow> nat list list" where
  "upto_rest f 0 xs = [xs]"
| "upto_rest f (Suc n) xs = xs # concat (map (upto_rest f n) (f xs))"

primrec rx_rest :: "rx \<Rightarrow> nat list \<Rightarrow> nat list list" where
  "rx_rest (Cls rs) xs = (case xs of [] \<Rightarrow> [] | y # ys \<Rightarrow> if in_cls rs y then [ys] else [])"
| "rx_rest Eps xs = [xs]"
| "rx_rest (Seq r s) xs = concat (map (rx_rest s) (rx_rest r xs))"
| "rx_rest (Alt r s) xs = rx_rest r xs @ rx_rest s xs"
| "rx_rest (Upto r n) xs = upto_rest (rx_rest r) n xs"
| "rx_rest (Star r) xs = upto_rest (rx_rest r) (length xs) xs"

definition match_string :: "rx \<Rightarrow> string \<Rightarrow> bool" where
  "match_string r s \<longleftrightarrow> list_ex (\<lambda>rest. rest = []) (rx_rest r (runes s))"

lemma upto_rest_cls:
  "[] \<in> set (upto_rest (rx_rest (Cls rs)) n xs) \<longleftrightarrow> length xs \<le> n \<and> list_all (in_cls rs) xs"
proof (induction n arbitrary: xs)
  case (Suc n)
  then show ?case by (cases xs) auto
qed auto

lemma match_head_upto:
  "match_string (Seq (Cls rs) (Upto (Cls qs) n)) s \<longleftrightarrow>
     (\<exists>x xs. runes s = x # xs \<and> in_cls rs x \<and> length xs \<le> n \<and> list_all (in_cls qs) xs)"
  by (cases "runes s") (auto simp: match_string_def list_ex_iff upto_rest_cls)

lemma rest_times_cls:
  "set (rx_rest (Times (Cls rs) n) xs) =
     (if n \<le> length xs \<and> list_all (in_cls rs) (take n xs) then {drop n xs} else {})"
proof (induction n arbitrary: xs)
  case (Suc n)
  then show ?case by (cases xs) auto
qed simp

lemma match_times_cls:
  "match_string (Times (Cls rs) n) s \<longleftrightarrow> length (runes s) = n \<and> list_all (in_cls rs) (runes s)"
  by (auto simp: match_string_def list_ex_iff rest_times_cls)

text \<open>Every rune of a matched string lies in one of the pattern's classes.\<close>

primrec rx_classes :: "rx \<Rightarrow> (nat \<times> nat) list" where
  "rx_classes (Cls rs) = rs"
| "rx_classes Eps = []"
| "rx_classes (Seq r s) = rx_classes r @ rx_classes s"
| "rx_classes (Alt r s) = rx_classes r @ rx_classes s"
| "rx_classes (Upto r n) = rx_classes r"
| "rx_classes (Star r) = rx_classes r"

lemma in_cls_append [simp]: "in_cls (rs @ qs) x \<longleftrightarrow> in_cls rs x \<or> in_cls qs x"
  by (simp add: in_cls_def)

lemma upto_rest_suffix:
  assumes "\<And>xs ys. ys \<in> set (f xs) \<Longrightarrow> \<exists>zs. xs = zs @ ys \<and> list_all P zs"
    and "ys \<in> set (upto_rest f n xs)"
  shows "\<exists>zs. xs = zs @ ys \<and> list_all P zs"
  using assms(2)
proof (induction n arbitrary: xs)
  case (Suc n)
  then consider "ys = xs" | us where "us \<in> set (f xs)" "ys \<in> set (upto_rest f n us)"
    by auto
  then show ?case
  proof cases
    case 1
    then show ?thesis by simp
  next
    case (2 us)
    then obtain zs vs where "xs = zs @ us" "list_all P zs" "us = vs @ ys" "list_all P vs"
      using assms(1) Suc.IH by blast
    then show ?thesis by (intro exI [of _ "zs @ vs"]) simp
  qed
qed simp

lemma rx_rest_suffix:
  "ys \<in> set (rx_rest r xs) \<Longrightarrow> \<exists>zs. xs = zs @ ys \<and> list_all (in_cls (rx_classes r)) zs"
proof (induction r arbitrary: xs ys)
  case (Cls rs)
  then show ?case by (cases xs) (auto split: if_splits)
next
  case (Seq r s)
  then obtain us where "us \<in> set (rx_rest r xs)" "ys \<in> set (rx_rest s us)" by auto
  with Seq.IH obtain zs vs where "xs = zs @ us" "list_all (in_cls (rx_classes r)) zs"
    "us = vs @ ys" "list_all (in_cls (rx_classes s)) vs" by blast
  then show ?case by (intro exI [of _ "zs @ vs"]) (auto simp: list_all_iff)
next
  case (Alt r s)
  then show ?case by (fastforce simp: list_all_iff)
next
  case (Upto r n)
  show ?case
    using upto_rest_suffix [of "rx_rest r" "in_cls (rx_classes r)", OF Upto.IH] Upto.prems by simp
next
  case (Star r)
  show ?case
    using upto_rest_suffix [of "rx_rest r" "in_cls (rx_classes r)", OF Star.IH] Star.prems by simp
qed simp

lemma match_string_classes: "match_string r s \<Longrightarrow> list_all (in_cls (rx_classes r)) (runes s)"
  unfolding match_string_def list_ex_iff by (fastforce dest: rx_rest_suffix)

subsection \<open>Searching strings\<close>

definition has_prefix :: "string \<Rightarrow> string \<Rightarrow> bool" where
  "has_prefix s p \<longleftrightarrow> take (length p) s = p"

definition has_suffix :: "string \<Rightarrow> string \<Rightarrow> bool" where
  "has_suffix s p \<longleftrightarrow> length p \<le> length s \<and> drop (length s - length p) s = p"

fun contains :: "string \<Rightarrow> string \<Rightarrow> bool" where
  "contains [] p = (p = [])"
| "contains (c # s) p = (has_prefix (c # s) p \<or> contains s p)"

text \<open>\<open>index_byte\<close> and \<open>last_index\<close> return \<open>None\<close> where Go returns \<open>-1\<close>.\<close>

fun index_byte :: "string \<Rightarrow> char \<Rightarrow> nat option" where
  "index_byte [] c = None"
| "index_byte (x # s) c = (if x = c then Some 0 else map_option Suc (index_byte s c))"

fun last_index :: "string \<Rightarrow> char \<Rightarrow> nat option" where
  "last_index [] c = None"
| "last_index (x # s) c =
    (case last_index s c of
       Some i \<Rightarrow> Some (Suc i)
     | None \<Rightarrow> if x = c then Some 0 else None)"

text \<open>\<open>strings.Cut(s, sep)\<close> for a one-byte separator: before, after, found.\<close>

definition cut :: "string \<Rightarrow> char \<Rightarrow> string \<times> string \<times> bool" where
  "cut s c = (case index_byte s c of
      None \<Rightarrow> (s, [], False)
    | Some i \<Rightarrow> (take i s, drop (Suc i) s, True))"

subsection \<open>Decimal integers\<close>

definition is_digit :: "char \<Rightarrow> bool" where
  "is_digit c \<longleftrightarrow> 0x30 \<le> byte c \<and> byte c \<le> 0x39"

definition digits_value :: "string \<Rightarrow> int" where
  "digits_value s = foldl (\<lambda>n c. 10 * n + (int (byte c) - 0x30)) 0 s"

text \<open>
  \<open>strconv.Atoi\<close>: an optional sign, at least one digit, digits only, and a value that fits
  a 64-bit \<open>int\<close>; \<open>None\<close> stands for the error.
\<close>

definition atoi :: "string \<Rightarrow> int option" where
  "atoi s =
    (let neg = has_prefix s ''-'';
         ds = (if has_prefix s ''-'' \<or> has_prefix s ''+'' then tl s else s);
         v = (if neg then - digits_value ds else digits_value ds)
     in if ds = [] \<or> \<not> list_all is_digit ds then None
        else if v < - (2 ^ 63) \<or> 2 ^ 63 \<le> v then None
        else Some v)"

end
