(* ===== verification/GoTime.thy ===== *)
theory GoTime
  imports GoText
begin

text \<open>
  Go's \<open>time\<close> as the sources use it. A \<open>time.Time\<close> is its instant, in nanoseconds relative
  to the Unix epoch; every comparison of the sources (\<open>Before\<close>, \<open>After\<close>, \<open>Equal\<close>,
  \<open>IsZero\<close>) looks at the instant only, so a location is not part of the model and \<open>UTC\<close> is
  the identity. A \<open>time.Duration\<close> counts nanoseconds; \<open>Sub\<close> saturates at the ends of
  \<open>int64\<close>. The second half is the RFC 3339 text of a time as \<open>encoding/json\<close> writes and
  reads it, with the round trip between the two.
\<close>

type_synonym time = int
type_synonym duration = int

definition second :: duration where "second = 1000000000"
definition minute :: duration where "minute = 60 * second"
definition hour :: duration where "hour = 60 * minute"

lemmas duration_defs = second_def minute_def hour_def

text \<open>The zero \<open>time.Time\<close>: midnight, 1 January of year 1.\<close>

definition zero_time :: time where
  "zero_time = - 62135596800 * 1000000000"

definition is_zero :: "time \<Rightarrow> bool" where
  "is_zero t \<longleftrightarrow> t = zero_time"

definition truncate_second :: "time \<Rightarrow> time" where
  "truncate_second t = t - t mod 1000000000"

definition time_sub :: "time \<Rightarrow> time \<Rightarrow> duration" where
  "time_sub t u = max (- (2 ^ 63)) (min (2 ^ 63 - 1) (t - u))"

lemma truncate_second_le: "truncate_second t \<le> t"
  by (simp add: truncate_second_def)

lemma truncate_second_mod [simp]: "truncate_second t mod 1000000000 = 0"
  by (simp add: truncate_second_def)

lemma truncate_second_mono: "t \<le> u \<Longrightarrow> truncate_second t \<le> truncate_second u"
proof -
  assume "t \<le> u"
  then have "t div 1000000000 * 1000000000 \<le> u div 1000000000 * 1000000000"
    by (simp add: zdiv_mono1)
  then show ?thesis by (simp add: truncate_second_def minus_mod_eq_div_mult)
qed

lemma truncate_second_idem [simp]: "truncate_second (truncate_second t) = truncate_second t"
  by (simp add: truncate_second_def)

lemma time_sub_le_iff: "d < 2 ^ 63 - 1 \<Longrightarrow> - (2 ^ 63) \<le> d \<Longrightarrow> time_sub t u \<le> d \<longleftrightarrow> t - u \<le> d"
  by (auto simp: time_sub_def)

subsection \<open>Calendar dates\<close>

text \<open>
  Days are counted from 1 January of year 1. \<open>civil_of_days\<close> peels off 400-year, 100-year,
  4-year and 1-year cycles and \<open>days_before_year\<close> puts them together again.
\<close>

definition leap :: "int \<Rightarrow> bool" where
  "leap y \<longleftrightarrow> y mod 4 = 0 \<and> (y mod 100 \<noteq> 0 \<or> y mod 400 = 0)"

definition days_before_year :: "int \<Rightarrow> int" where
  "days_before_year y = 365 * (y - 1) + (y - 1) div 4 - (y - 1) div 100 + (y - 1) div 400"

definition year_of_days :: "int \<Rightarrow> int \<times> int" where
  "year_of_days d =
    (let n400 = d div 146097; r400 = d mod 146097;
         n100 = min 3 (r400 div 36524); r100 = r400 - n100 * 36524;
         n4 = r100 div 1461; r4 = r100 mod 1461;
         n1 = min 3 (r4 div 365); yday = r4 - n1 * 365
     in (400 * n400 + 100 * n100 + 4 * n4 + n1 + 1, yday))"

definition month_lengths :: "int \<Rightarrow> int list" where
  "month_lengths y = [31, if leap y then 29 else 28, 31, 30, 31, 30, 31, 31, 30, 31, 30, 31]"

fun split_month :: "int list \<Rightarrow> int \<Rightarrow> int \<Rightarrow> int \<times> int" where
  "split_month [] m d = (m, d + 1)"
| "split_month (l # ls) m d = (if d < l then (m, d + 1) else split_month ls (m + 1) (d - l))"

definition civil_of_days :: "int \<Rightarrow> int \<times> int \<times> int" where
  "civil_of_days d = (let (y, yday) = year_of_days d in (y, split_month (month_lengths y) 1 yday))"

definition days_of_civil :: "int \<Rightarrow> int \<Rightarrow> int \<Rightarrow> int" where
  "days_of_civil y m d = days_before_year y + sum_list (take (nat (m - 1)) (month_lengths y)) + (d - 1)"

lemma year_cycles:
  assumes "0 \<le> b" "b \<le> 3" "0 \<le> c" "c \<le> 24" "0 \<le> e" "e \<le> (3::int)"
  shows "days_before_year (400 * a + 100 * b + 4 * c + e + 1) = 146097 * a + 36524 * b + 1461 * c + 365 * e"
proof -
  let ?p = "400 * a + 100 * b + 4 * c + e"
  have "?p div 4 = 100 * a + 25 * b + c" "?p div 100 = 4 * a + b" "?p div 400 = a"
    using assms by linarith+
  then show ?thesis by (simp add: days_before_year_def)
qed

lemma div_bounds:
  fixes n k :: int
  assumes "0 < k"
  shows "k * (n div k) \<le> n \<and> n < k * (n div k) + k"
  using pos_mod_bound [OF assms, of n] pos_mod_sign [OF assms, of n] mult_div_mod_eq [of k n]
  by linarith

lemma capped_digit:
  fixes n k :: int
  assumes "0 < k" and "0 \<le> n" and "n < 4 * k + j" and "j \<le> k"
  defines "q \<equiv> min 3 (n div k)"
  shows "0 \<le> q \<and> q \<le> 3 \<and> k * q \<le> n \<and> n < k * q + k + (if q = 3 then max 0 j else 0)"
proof -
  have "0 \<le> n div k" using assms(1,2) by (simp add: pos_imp_zdiv_nonneg_iff)
  moreover have "3 \<le> n div k \<Longrightarrow> 3 * k \<le> n"
    using div_bounds [OF assms(1), of n] assms(1) mult_left_mono [of 3 "n div k" k] by linarith
  ultimately show ?thesis
    using div_bounds [OF assms(1), of n] assms(3) by (auto simp: q_def min_def)
qed

lemma year_of_days_cycles:
  obtains a b c e where "0 \<le> b" "b \<le> 3" "0 \<le> c" "c \<le> 24" "0 \<le> e" "e \<le> (3::int)"
    "0 \<le> snd (year_of_days d)"
    "snd (year_of_days d) < 365 + (if e = 3 \<and> (c \<noteq> 24 \<or> b = 3) then 1 else 0)"
    "fst (year_of_days d) = 400 * a + 100 * b + 4 * c + e + 1"
    "d = 146097 * a + 36524 * b + 1461 * c + 365 * e + snd (year_of_days d)"
proof -
  define a r400 where "a = d div 146097" and "r400 = d mod 146097"
  define b where "b = min 3 (r400 div 36524)"
  define r100 where "r100 = r400 - b * 36524"
  define c r4 where "c = r100 div 1461" and "r4 = r100 mod 1461"
  define e where "e = min 3 (r4 div 365)"
  have d: "d = 146097 * a + r400" by (simp add: a_def r400_def)
  have "0 \<le> r400" "r400 < 146097" by (simp_all add: r400_def)
  then have b: "0 \<le> b" "b \<le> 3" and r100: "0 \<le> r100" "r100 < 36524 + (if b = 3 then 1 else 0)"
    using capped_digit [of 36524 r400 1] by (auto simp: b_def r100_def)
  have r100c: "r100 = 1461 * c + r4" by (simp add: c_def r4_def)
  have r4: "0 \<le> r4" "r4 < 1461" by (simp_all add: r4_def)
  have c: "0 \<le> c" "c \<le> 24" using r100c r100 r4 by (auto split: if_splits)
  have e: "0 \<le> e" "e \<le> 3" and yd: "0 \<le> r4 - e * 365" "r4 - e * 365 < 365 + (if e = 3 then 1 else 0)"
    using capped_digit [of 365 r4 1] r4 by (auto simp: e_def)
  have y: "year_of_days d = (400 * a + 100 * b + 4 * c + e + 1, r4 - e * 365)"
    unfolding year_of_days_def Let_def a_def r400_def b_def r100_def c_def r4_def e_def ..
  have hi: "r4 - e * 365 < 365 + (if e = 3 \<and> (c \<noteq> 24 \<or> b = 3) then 1 else 0)"
    using yd(2) r100 r100c by (auto split: if_splits)
  show ?thesis
    by (rule that [OF b c e, of a]) (use y d yd(1) hi r100c r100_def in simp_all)
qed

lemma leap_cycles:
  assumes "0 \<le> b" "b \<le> 3" "0 \<le> c" "c \<le> 24" "0 \<le> e" "e \<le> (3::int)"
  shows "leap (400 * a + 100 * b + 4 * c + e + 1) \<longleftrightarrow> e = 3 \<and> (c \<noteq> 24 \<or> b = 3)"
proof -
  let ?y = "400 * a + 100 * b + 4 * c + e + 1"
  have y: "?y = 4 * (100 * a + 25 * b + c) + (e + 1)" "?y = 100 * (4 * a + b) + (4 * c + e + 1)"
    "?y = 400 * a + (100 * b + 4 * c + e + 1)" by simp_all
  have "?y mod 4 = (e + 1) mod 4" by (simp only: y(1) mod_mult_self4)
  also have "\<dots> = (if e = 3 then 0 else e + 1)" using assms by (simp add: mod_pos_pos_trivial)
  finally have m4: "?y mod 4 = (if e = 3 then 0 else e + 1)" .
  have "?y mod 100 = (4 * c + e + 1) mod 100" by (simp only: y(2) mod_mult_self4)
  also have "\<dots> = (if c = 24 \<and> e = 3 then 0 else 4 * c + e + 1)"
    using assms by (auto intro: mod_pos_pos_trivial)
  finally have m100: "?y mod 100 = (if c = 24 \<and> e = 3 then 0 else 4 * c + e + 1)" .
  have "?y mod 400 = (100 * b + 4 * c + e + 1) mod 400" by (simp only: y(3) mod_mult_self4)
  also have "\<dots> = (if b = 3 \<and> c = 24 \<and> e = 3 then 0 else 100 * b + 4 * c + e + 1)"
    using assms by (auto intro: mod_pos_pos_trivial)
  finally have m400: "?y mod 400 = (if b = 3 \<and> c = 24 \<and> e = 3 then 0 else 100 * b + 4 * c + e + 1)" .
  show ?thesis using assms by (auto simp: leap_def m4 m100 m400 split: if_splits)
qed

lemma sum_month_lengths: "sum_list (month_lengths y) = 365 + (if leap y then 1 else 0)"
  by (simp add: month_lengths_def)

lemma year_of_days_correct:
  assumes "year_of_days d = (y, yday)"
  shows "days_before_year y + yday = d" and "0 \<le> yday" and "yday < sum_list (month_lengths y)"
proof -
  obtain a b c e where *: "0 \<le> b" "b \<le> 3" "0 \<le> c" "c \<le> 24" "0 \<le> e" "e \<le> (3::int)"
    and lo: "0 \<le> yday" and hi: "yday < 365 + (if e = 3 \<and> (c \<noteq> 24 \<or> b = 3) then 1 else 0)"
    and y: "y = 400 * a + 100 * b + 4 * c + e + 1"
    and d: "d = 146097 * a + 36524 * b + 1461 * c + 365 * e + yday"
    using year_of_days_cycles [of d] assms by (metis fst_conv snd_conv)
  show "days_before_year y + yday = d" unfolding y d using year_cycles [OF *] by simp
  show "0 \<le> yday" by (rule lo)
  show "yday < sum_list (month_lengths y)"
    using hi leap_cycles [OF *] by (simp add: sum_month_lengths y)
qed

lemma split_month_correct:
  assumes "split_month ls m d = (m', d')" and "0 \<le> d" and "d < sum_list ls"
  shows "m \<le> m' \<and> m' < m + int (length ls) \<and> 1 \<le> d' \<and> d' \<le> ls ! nat (m' - m) \<and>
    sum_list (take (nat (m' - m)) ls) + (d' - 1) = d"
  using assms
proof (induction ls arbitrary: m d)
  case (Cons l ls)
  show ?case
  proof (cases "d < l")
    case False
    with Cons have "m + 1 \<le> m'" "m' < m + 1 + int (length ls)" "1 \<le> d'"
      "d' \<le> ls ! nat (m' - (m + 1))" "sum_list (take (nat (m' - (m + 1))) ls) + (d' - 1) = d - l"
      by (auto dest: Cons.IH)
    moreover have "nat (m' - m) = Suc (nat (m' - (m + 1)))" using \<open>m + 1 \<le> m'\<close> by simp
    ultimately show ?thesis by simp
  qed (use Cons.prems in auto)
qed simp

lemma civil_of_days_correct:
  assumes "civil_of_days n = (y, m, d)"
  shows "days_of_civil y m d = n" and "1 \<le> m" "m \<le> 12" and "1 \<le> d" "d \<le> month_lengths y ! nat (m - 1)"
proof -
  obtain yday where y: "year_of_days n = (y, yday)" and sm: "split_month (month_lengths y) 1 yday = (m, d)"
    using assms by (auto simp: civil_of_days_def split: prod.splits)
  note yc = year_of_days_correct [OF y]
  note mc = split_month_correct [OF sm yc(2,3)]
  show "days_of_civil y m d = n" using mc yc(1) by (simp add: days_of_civil_def)
  show "1 \<le> m" "m \<le> 12" "1 \<le> d" "d \<le> month_lengths y ! nat (m - 1)"
    using mc by (auto simp: month_lengths_def)
qed

subsection \<open>RFC 3339 text\<close>

text \<open>
  \<open>time_text\<close> is the layout \<open>2006-01-02T15:04:05.999999999Z07:00\<close> of a UTC time: the
  fraction is dropped when it is zero and loses its trailing zeros otherwise.
  \<open>marshal_time\<close> adds the check of \<open>Time.MarshalJSON\<close> on the year. \<open>parse_time\<close>
  reads the RFC 3339 grammar: fixed-width fields in range, an optional fraction after a dot
  (digits past the ninth are dropped), and \<open>Z\<close> or a numeric offset.
\<close>

definition digit_char :: "int \<Rightarrow> char" where
  "digit_char n = char_of (nat (n + 48))"

primrec pad :: "nat \<Rightarrow> int \<Rightarrow> string" where
  "pad 0 n = []"
| "pad (Suc k) n = pad k (n div 10) @ [digit_char (n mod 10)]"

definition day_ns :: int where "day_ns = 86400 * 1000000000"

definition frac_text :: "int \<Rightarrow> string" where
  "frac_text n = (if n = 0 then [] else CHR ''.'' # rev (dropWhile (\<lambda>c. c = CHR ''0'') (rev (pad 9 n))))"

definition time_text :: "time \<Rightarrow> string" where
  "time_text t =
    (let (y, m, d) = civil_of_days ((t - zero_time) div day_ns);
         ns = (t - zero_time) mod day_ns; s = ns div 1000000000
     in pad 4 y @ ''-'' @ pad 2 m @ ''-'' @ pad 2 d @ ''T'' @ pad 2 (s div 3600) @ '':'' @
        pad 2 (s mod 3600 div 60) @ '':'' @ pad 2 (s mod 60) @ frac_text (ns mod 1000000000) @ ''Z'')"

definition year_of :: "time \<Rightarrow> int" where
  "year_of t = fst (civil_of_days ((t - zero_time) div day_ns))"

definition marshal_time :: "time \<Rightarrow> string option" where
  "marshal_time t = (if 0 \<le> year_of t \<and> year_of t \<le> 9999 then Some (time_text t) else None)"

definition zone_offset :: "string \<Rightarrow> int option" where
  "zone_offset z =
    (if z = ''Z'' then Some 0
     else if length z = 6 \<and> (z ! 0 = CHR ''+'' \<or> z ! 0 = CHR ''-'') \<and> z ! 3 = CHR '':'' \<and>
       list_all is_digit (take 2 (drop 1 z)) \<and> list_all is_digit (drop 4 z) \<and>
       digits_value (take 2 (drop 1 z)) \<le> 23 \<and> digits_value (drop 4 z) \<le> 59
     then Some ((if z ! 0 = CHR ''-'' then - 1 else 1) *
       (digits_value (take 2 (drop 1 z)) * 3600 + digits_value (drop 4 z) * 60))
     else None)"

definition split_frac :: "string \<Rightarrow> (int \<times> string) option" where
  "split_frac r =
    (if has_prefix r ''.'' then
       (let ds = takeWhile is_digit (tl r) in
        if ds = [] then None
        else Some (digits_value (take 9 (ds @ replicate 9 (CHR ''0''))), dropWhile is_digit (tl r)))
     else Some (0, r))"

definition parse_time :: "string \<Rightarrow> time option" where
  "parse_time z =
    (let field = (\<lambda>i n. take n (drop i z));
         y = digits_value (field 0 4); m = digits_value (field 5 2); d = digits_value (field 8 2);
         h = digits_value (field 11 2); mi = digits_value (field 14 2); s = digits_value (field 17 2)
     in if length z < 20 \<or> field 4 1 \<noteq> ''-'' \<or> field 7 1 \<noteq> ''-'' \<or> field 10 1 \<noteq> ''T'' \<or>
          field 13 1 \<noteq> '':'' \<or> field 16 1 \<noteq> '':'' then None
        else if \<not> list_all is_digit (field 0 4 @ field 5 2 @ field 8 2 @ field 11 2 @ field 14 2 @ field 17 2)
        then None
        else if m < 1 \<or> 12 < m \<or> d < 1 \<or> month_lengths y ! nat (m - 1) < d \<or> 23 < h \<or> 59 < mi \<or> 59 < s
        then None
        else case split_frac (drop 19 z) of
            None \<Rightarrow> None
          | Some (n, r) \<Rightarrow>
              map_option (\<lambda>off. zero_time + n +
                (days_of_civil y m d * 86400 + h * 3600 + mi * 60 + s - off) * 1000000000)
                (zone_offset r))"

subsubsection \<open>Decimal fields\<close>

lemma length_pad [simp]: "length (pad k n) = k"
  by (induction k arbitrary: n) simp_all

lemma byte_digit_char: "0 \<le> n \<Longrightarrow> n < 10 \<Longrightarrow> byte (digit_char n) = nat n + 48"
  by (simp add: digit_char_def of_char_of nat_add_distrib)

lemma is_digit_digit_char [simp]: "is_digit (digit_char (n mod 10))"
  by (simp add: is_digit_def byte_digit_char)

lemma all_digits_pad [simp]: "list_all is_digit (pad k n)"
  by (induction k arbitrary: n) simp_all

lemma digits_value_snoc: "digits_value (ds @ [c]) = 10 * digits_value ds + (int (byte c) - 48)"
  by (simp add: digits_value_def)

lemma digits_value_pad: "0 \<le> n \<Longrightarrow> n < 10 ^ k \<Longrightarrow> digits_value (pad k n) = n"
proof (induction k arbitrary: n)
  case 0
  then show ?case by (simp add: digits_value_def)
next
  case (Suc k)
  then have "n div 10 < 10 ^ k" using div_bounds [of 10 n] by simp
  with Suc have "digits_value (pad k (n div 10)) = n div 10"
    by (simp add: pos_imp_zdiv_nonneg_iff)
  then show ?case by (simp add: digits_value_snoc byte_digit_char)
qed

lemma digits_value_pad_small:
  "0 \<le> n \<Longrightarrow> n < 100 \<Longrightarrow> digits_value (pad 2 n) = n"
  "0 \<le> n \<Longrightarrow> n < 10000 \<Longrightarrow> digits_value (pad 4 n) = n"
  "0 \<le> n \<Longrightarrow> n < 1000000000 \<Longrightarrow> digits_value (pad 9 n) = n"
  by (simp_all add: digits_value_pad)

lemma digits_value_zeros: "digits_value (replicate k (CHR ''0'')) = 0"
proof (induction k)
  case (Suc k)
  then show ?case
    using digits_value_snoc [of "replicate k (CHR ''0'')" "CHR ''0''"]
    by (simp add: replicate_append_same)
qed (simp add: digits_value_def)

lemma trim_zeros:
  "rev (dropWhile (\<lambda>c. c = z) (rev xs)) @
     replicate (length xs - length (dropWhile (\<lambda>c. c = z) (rev xs))) z = xs"
proof -
  have "length xs = length (takeWhile (\<lambda>c. c = z) (rev xs)) + length (dropWhile (\<lambda>c. c = z) (rev xs))"
    by (metis length_append length_rev takeWhile_dropWhile_id)
  then have "takeWhile (\<lambda>c. c = z) (rev xs) =
      replicate (length xs - length (dropWhile (\<lambda>c. c = z) (rev xs))) z"
    by (intro replicate_eqI) (auto dest: set_takeWhileD)
  then show ?thesis
    by (metis rev_append rev_replicate rev_rev_ident takeWhile_dropWhile_id)
qed

lemma split_frac_text:
  assumes "0 \<le> n" and "n < 1000000000"
  shows "split_frac (frac_text n @ ''Z'') = Some (n, ''Z'')"
proof (cases "n = 0")
  case True
  then show ?thesis by (simp add: split_frac_def frac_text_def has_prefix_def)
next
  case False
  define ds where "ds = rev (dropWhile (\<lambda>c. c = CHR ''0'') (rev (pad 9 n)))"
  have all: "list_all is_digit ds"
    using all_digits_pad [of 9 n] by (auto simp: ds_def list_all_iff dest: set_dropWhileD)
  have pad: "ds @ replicate (9 - length ds) (CHR ''0'') = pad 9 n"
    using trim_zeros [of "CHR ''0''" "pad 9 n"] by (simp add: ds_def)
  have le: "length ds \<le> 9" using pad by (metis length_append length_pad le_add1)
  have val: "digits_value (take 9 (ds @ replicate 9 (CHR ''0''))) = n"
    using le pad assms by (simp add: digits_value_pad_small min_def)
  have ne: "ds \<noteq> []"
    using False pad digits_value_zeros [of 9] digits_value_pad_small(3) [OF assms] by force
  have "is_digit (CHR ''Z'') = False" by (simp add: is_digit_def)
  with all have "takeWhile is_digit (ds @ ''Z'') = ds" "dropWhile is_digit (ds @ ''Z'') = ''Z''"
    by (simp_all add: list_all_iff takeWhile_append2 dropWhile_append2)
  with val ne False show ?thesis
    by (simp add: split_frac_def frac_text_def has_prefix_def ds_def [symmetric] Let_def)
qed

lemma parse_time_text:
  assumes "0 \<le> year_of t" and "year_of t \<le> 9999"
  shows "parse_time (time_text t) = Some t"
proof -
  define n ns s where "n = (t - zero_time) div day_ns" and "ns = (t - zero_time) mod day_ns"
    and "s = ns div 1000000000"
  obtain y m d where c: "civil_of_days n = (y, m, d)" by (cases "civil_of_days n")
  note cc = civil_of_days_correct [OF c]
  have y: "0 \<le> y" "y < 10000" using assms c by (simp_all add: year_of_def n_def)
  have d99: "d < 100"
    using cc(5) by (rule le_less_trans) (use cc(2,3) in \<open>auto simp: month_lengths_def nth_Cons'\<close>)
  have ns: "0 \<le> ns" "ns < 86400 * 1000000000" by (simp_all add: ns_def day_ns_def)
  then have s: "0 \<le> s" "s < 86400"
    using div_bounds [of 1000000000 ns] by (simp_all add: s_def pos_imp_zdiv_nonneg_iff)
  have h: "0 \<le> s div 3600" "s div 3600 \<le> 23"
    using s div_bounds [of 3600 s] by (simp_all add: pos_imp_zdiv_nonneg_iff)
  have mi: "0 \<le> s mod 3600 div 60" "s mod 3600 div 60 \<le> 59"
    using div_bounds [of 60 "s mod 3600"] pos_mod_bound [of 3600 s]
    by (simp_all add: pos_imp_zdiv_nonneg_iff)
  have "s mod 3600 mod 60 = s mod 60" by (simp add: mod_mod_cancel)
  then have sec: "s = s div 3600 * 3600 + s mod 3600 div 60 * 60 + s mod 60"
    using div_mult_mod_eq [of s 3600] div_mult_mod_eq [of "s mod 3600" 60] by linarith
  have t: "t = zero_time + ns mod 1000000000 + (n * 86400 + s) * 1000000000"
    using div_mult_mod_eq [of "t - zero_time" day_ns] div_mult_mod_eq [of ns 1000000000]
    by (simp add: n_def ns_def s_def day_ns_def algebra_simps)
  have fmt: "time_text t = pad 4 y @ ''-'' @ pad 2 m @ ''-'' @ pad 2 d @ ''T'' @ pad 2 (s div 3600) @ '':'' @
      pad 2 (s mod 3600 div 60) @ '':'' @ pad 2 (s mod 60) @ frac_text (ns mod 1000000000) @ ''Z''"
    using c by (simp add: time_text_def n_def ns_def s_def Let_def)
  have fields: "take 4 (drop 0 (time_text t)) = pad 4 y" "take 2 (drop 5 (time_text t)) = pad 2 m"
    "take 2 (drop 8 (time_text t)) = pad 2 d" "take 2 (drop 11 (time_text t)) = pad 2 (s div 3600)"
    "take 2 (drop 14 (time_text t)) = pad 2 (s mod 3600 div 60)"
    "take 2 (drop 17 (time_text t)) = pad 2 (s mod 60)"
    "drop 19 (time_text t) = frac_text (ns mod 1000000000) @ ''Z''"
    "take 1 (drop 4 (time_text t)) = ''-''" "take 1 (drop 7 (time_text t)) = ''-''"
    "take 1 (drop 10 (time_text t)) = ''T''" "take 1 (drop 13 (time_text t)) = '':''"
    "take 1 (drop 16 (time_text t)) = '':''" "\<not> length (time_text t) < 20"
    by (simp_all add: fmt)
  have two: "digits_value (pad 2 x) = x" if "0 \<le> x" "x \<le> 99" for x
    using that by (intro digits_value_pad_small(1)) simp_all
  have vals: "digits_value (pad 4 y) = y" "digits_value (pad 2 m) = m" "digits_value (pad 2 d) = d"
    "digits_value (pad 2 (s div 3600)) = s div 3600"
    "digits_value (pad 2 (s mod 3600 div 60)) = s mod 3600 div 60" "digits_value (pad 2 (s mod 60)) = s mod 60"
    by (rule digits_value_pad_small(2) [OF y] two; use cc(2-4) d99 h mi in linarith)+
  have ranges: "\<not> (m < 1 \<or> 12 < m \<or> d < 1 \<or> month_lengths y ! nat (m - 1) < d \<or> 23 < s div 3600 \<or>
      59 < s mod 3600 div 60 \<or> 59 < s mod 60)"
    using cc h mi pos_mod_bound [of 60 s] by linarith
  have frac: "split_frac (frac_text (ns mod 1000000000) @ ''Z'') = Some (ns mod 1000000000, ''Z'')"
    by (rule split_frac_text) simp_all
  have "days_of_civil y m d * 86400 + s div 3600 * 3600 + s mod 3600 div 60 * 60 + s mod 60 - 0 =
      n * 86400 + s"
    using sec cc(1) by linarith
  with t have t': "zero_time + ns mod 1000000000 + (days_of_civil y m d * 86400 + s div 3600 * 3600 +
      s mod 3600 div 60 * 60 + s mod 60 - 0) * 1000000000 = t" by simp
  show ?thesis
    unfolding parse_time_def Let_def fields vals frac list_all_append
    by (simp only: all_digits_pad ranges zone_offset_def if_True if_False simp_thms option.case
        option.map prod.case t' refl fields)
qed

lemma parse_marshal_time: "marshal_time t = Some z \<Longrightarrow> parse_time z = Some t"
  by (auto simp: marshal_time_def parse_time_text split: if_splits)

end
