(* ===== verification/GoJson.thy ===== *)
theory GoJson
  imports GoTime
begin

text \<open>
  What the sources use of \<open>encoding/json\<close>. A document is a \<open>json\<close> tree whose strings and
  member names keep the raw text between the quotes, as Go's scanner hands it to the typed
  decoders: a string field unquotes it, a \<open>time.Time\<close> field reads it as it is. The printer is
  the compact form of \<open>json.Marshal\<close>; the parser is the stream decoder reading one value. The
  main result is that parsing undoes printing. Go refuses documents nested more than 10000
  levels deep; the model has no such limit.
\<close>

datatype json =
    JNull
  | JBool bool
  | JNum string
  | JStr string
  | JArr "json list"
  | JObj "(string \<times> json) list"

subsection \<open>Printing\<close>

abbreviation quote_char :: char where "quote_char \<equiv> CHR 0x22"
abbreviation backslash :: char where "backslash \<equiv> CHR 0x5C"

fun print_json :: "json \<Rightarrow> string"
  and print_elems :: "json list \<Rightarrow> string"
  and print_members :: "(string \<times> json) list \<Rightarrow> string"
where
  "print_json JNull = ''null''"
| "print_json (JBool b) = (if b then ''true'' else ''false'')"
| "print_json (JNum l) = l"
| "print_json (JStr r) = quote_char # r @ [quote_char]"
| "print_json (JArr vs) = CHR ''['' # print_elems vs"
| "print_json (JObj ms) = CHR ''{'' # print_members ms"
| "print_elems [] = '']''"
| "print_elems (v # vs) = print_json v @ (if vs = [] then '']'' else CHR '','' # print_elems vs)"
| "print_members [] = ''}''"
| "print_members ((k, v) # ms) =
    quote_char # k @ quote_char # CHR '':'' # print_json v @
    (if ms = [] then ''}'' else CHR '','' # print_members ms)"

subsection \<open>Parsing\<close>

definition is_space :: "char \<Rightarrow> bool" where
  "is_space c \<longleftrightarrow> c = CHR '' '' \<or> byte c = 0x09 \<or> byte c = 0x0A \<or> byte c = 0x0D"

definition skip_space :: "string \<Rightarrow> string" where
  "skip_space s = dropWhile is_space s"

definition hex_val :: "char \<Rightarrow> nat option" where
  "hex_val c =
    (if 0x30 \<le> byte c \<and> byte c \<le> 0x39 then Some (byte c - 0x30)
     else if 0x61 \<le> byte c \<and> byte c \<le> 0x66 then Some (byte c - 0x57)
     else if 0x41 \<le> byte c \<and> byte c \<le> 0x46 then Some (byte c - 0x37)
     else None)"

definition is_hex :: "char \<Rightarrow> bool" where
  "is_hex c \<longleftrightarrow> hex_val c \<noteq> None"

definition simple_escape :: "char \<Rightarrow> bool" where
  "simple_escape c \<longleftrightarrow> c \<in> set [quote_char, backslash, CHR ''/'', CHR ''b'', CHR ''f'', CHR ''n'', CHR ''r'', CHR ''t'']"

definition push :: "string \<Rightarrow> (string \<times> string) option \<Rightarrow> (string \<times> string) option" where
  "push p r = map_option (\<lambda>(a, b). (p @ a, b)) r"

text \<open>\<open>scan_string\<close> starts after the opening quote and returns the raw text and the rest.\<close>

fun scan_string :: "string \<Rightarrow> (string \<times> string) option" where
  "scan_string [] = None"
| "scan_string (c # s) =
    (if c = quote_char then Some ([], s)
     else if c = backslash then
       (case s of
          [] \<Rightarrow> None
        | e # t \<Rightarrow>
            if simple_escape e then push [c, e] (scan_string t)
            else if e = CHR ''u'' \<and> 4 \<le> length t \<and> list_all is_hex (take 4 t)
            then push (c # e # take 4 t) (scan_string (drop 4 t))
            else None)
     else if byte c < 0x20 then None
     else push [c] (scan_string s))"

text \<open>\<open>scan_number\<close> reads the JSON number grammar: sign, integer part, fraction, exponent.\<close>

definition scan_digits :: "string \<Rightarrow> (string \<times> string) option" where
  "scan_digits s =
    (let ds = takeWhile is_digit s in if ds = [] then None else Some (ds, dropWhile is_digit s))"

definition scan_int :: "string \<Rightarrow> (string \<times> string) option" where
  "scan_int s = (if has_prefix s ''0'' then Some (''0'', tl s) else scan_digits s)"

definition scan_frac :: "string \<Rightarrow> (string \<times> string) option" where
  "scan_frac s = (if has_prefix s ''.'' then push ''.'' (scan_digits (tl s)) else Some ([], s))"

definition scan_exp :: "string \<Rightarrow> (string \<times> string) option" where
  "scan_exp s =
    (if has_prefix s ''e'' \<or> has_prefix s ''E'' then
       (if has_prefix (tl s) ''+'' \<or> has_prefix (tl s) ''-''
        then push (take 2 s) (scan_digits (drop 2 s)) else push (take 1 s) (scan_digits (tl s)))
     else Some ([], s))"

definition scan_number :: "string \<Rightarrow> (string \<times> string) option" where
  "scan_number s =
    (let sign = (if has_prefix s ''-'' then ''-'' else []) in
     Option.bind (scan_int (drop (length sign) s)) (\<lambda>(i, r1).
     Option.bind (scan_frac r1) (\<lambda>(f, r2).
     Option.bind (scan_exp r2) (\<lambda>(e, r3). Some (sign @ i @ f @ e, r3)))))"

text \<open>
  The value parser is fuelled: a value is at least one character long and each call spends
  one unit, so the length of the input is enough fuel (\<open>parse_print\<close>).
\<close>

fun parse_value :: "nat \<Rightarrow> string \<Rightarrow> (json \<times> string) option"
  and parse_elems :: "nat \<Rightarrow> string \<Rightarrow> (json list \<times> string) option"
  and parse_members :: "nat \<Rightarrow> string \<Rightarrow> ((string \<times> json) list \<times> string) option"
where
  "parse_value 0 s = None"
| "parse_value (Suc n) s =
    (case skip_space s of
       [] \<Rightarrow> None
     | c # t \<Rightarrow>
         if c = quote_char then map_option (\<lambda>(r, u). (JStr r, u)) (scan_string t)
         else if c = CHR ''['' then
           (if has_prefix (skip_space t) '']'' then Some (JArr [], tl (skip_space t))
            else map_option (\<lambda>(vs, u). (JArr vs, u)) (parse_elems n t))
         else if c = CHR ''{'' then
           (if has_prefix (skip_space t) ''}'' then Some (JObj [], tl (skip_space t))
            else map_option (\<lambda>(ms, u). (JObj ms, u)) (parse_members n t))
         else if has_prefix (c # t) ''null'' then Some (JNull, drop 4 (c # t))
         else if has_prefix (c # t) ''true'' then Some (JBool True, drop 4 (c # t))
         else if has_prefix (c # t) ''false'' then Some (JBool False, drop 5 (c # t))
         else map_option (\<lambda>(l, u). (JNum l, u)) (scan_number (c # t)))"
| "parse_elems 0 s = None"
| "parse_elems (Suc n) s =
    Option.bind (parse_value n s) (\<lambda>(v, r).
      (case skip_space r of
         [] \<Rightarrow> None
       | d # u \<Rightarrow>
           if d = CHR '','' then map_option (\<lambda>(vs, w). (v # vs, w)) (parse_elems n u)
           else if d = CHR '']'' then Some ([v], u)
           else None))"
| "parse_members 0 s = None"
| "parse_members (Suc n) s =
    (if has_prefix (skip_space s) [quote_char] then
       Option.bind (scan_string (tl (skip_space s))) (\<lambda>(k, r).
         (case skip_space r of
            [] \<Rightarrow> None
          | d # u \<Rightarrow>
              if d = CHR '':'' then
                Option.bind (parse_value n u) (\<lambda>(v, w).
                  (case skip_space w of
                     [] \<Rightarrow> None
                   | e # x \<Rightarrow>
                       if e = CHR '','' then map_option (\<lambda>(ms, y). ((k, v) # ms, y)) (parse_members n x)
                       else if e = CHR ''}'' then Some ([(k, v)], x)
                       else None))
              else None))
     else None)"

definition parse_json :: "string \<Rightarrow> (json \<times> string) option" where
  "parse_json s = parse_value (length s) s"

subsection \<open>Parsing undoes printing\<close>

text \<open>
  \<open>json_ok\<close> describes the trees the encoders build: raw strings that scan, and numbers in
  plain decimal notation. \<open>delimited\<close> is what may follow a value inside a document.
\<close>

definition raw_ok :: "string \<Rightarrow> bool" where
  "raw_ok r \<longleftrightarrow> scan_string (r @ [quote_char]) = Some (r, [])"

definition num_ok :: "string \<Rightarrow> bool" where
  "num_ok l \<longleftrightarrow> l \<noteq> [] \<and> list_all is_digit l \<and> (has_prefix l ''0'' \<longrightarrow> l = ''0'')"

fun json_ok :: "json \<Rightarrow> bool" where
  "json_ok JNull \<longleftrightarrow> True"
| "json_ok (JBool b) \<longleftrightarrow> True"
| "json_ok (JNum l) \<longleftrightarrow> num_ok l"
| "json_ok (JStr r) \<longleftrightarrow> raw_ok r"
| "json_ok (JArr vs) \<longleftrightarrow> (\<forall>v \<in> set vs. json_ok v)"
| "json_ok (JObj ms) \<longleftrightarrow> (\<forall>(k, v) \<in> set ms. raw_ok k \<and> json_ok v)"

definition delimited :: "string \<Rightarrow> bool" where
  "delimited s \<longleftrightarrow> s = [] \<or> hd s \<in> {CHR '','', CHR '']'', CHR ''}'', CHR 0x0A}"

lemma delimited_simps [simp]:
  "delimited []" "delimited (CHR '','' # s)" "delimited (CHR '']'' # s)" "delimited (CHR ''}'' # s)"
  by (simp_all add: delimited_def)

lemma push_Some [simp]: "push p r = Some x \<longleftrightarrow> (\<exists>a b. r = Some (a, b) \<and> x = (p @ a, b))"
  by (auto simp: push_def)

lemma scan_string_append: "scan_string s = Some (a, b) \<Longrightarrow> scan_string (s @ t) = Some (a, b @ t)"
proof (induction s arbitrary: a b rule: scan_string.induct)
  case (2 c s)
  then show ?case by (auto split: if_splits list.splits)
qed simp

lemma scan_string_raw: "raw_ok r \<Longrightarrow> scan_string (r @ quote_char # rest) = Some (r, rest)"
  unfolding raw_ok_def by (drule scan_string_append [where t = rest]) simp

lemma scan_digits_delimited:
  assumes "l \<noteq> []" and "list_all is_digit l" and "delimited rest"
  shows "scan_digits (l @ rest) = Some (l, rest)"
proof -
  have "rest = [] \<or> \<not> is_digit (hd rest)"
    using assms(3) by (auto simp: delimited_def is_digit_def)
  then have "takeWhile is_digit rest = []" "dropWhile is_digit rest = rest"
    by (cases rest; simp)+
  then show ?thesis
    using assms(1,2) by (simp add: scan_digits_def list_all_iff takeWhile_append2 dropWhile_append2)
qed

lemma scan_number_ok:
  assumes "num_ok l" and "delimited rest"
  shows "scan_number (l @ rest) = Some (l, rest)"
proof -
  obtain c t where l: "l = c # t" using assms(1) by (cases l) (auto simp: num_ok_def)
  have "is_digit c" using assms(1) l by (simp add: num_ok_def)
  then have "c \<noteq> CHR ''-''" by (auto simp: is_digit_def)
  moreover have "scan_int (l @ rest) = Some (l, rest)"
    using assms l scan_digits_delimited [of l rest]
    by (auto simp: scan_int_def num_ok_def has_prefix_def)
  moreover have "scan_frac rest = Some ([], rest)" "scan_exp rest = Some ([], rest)"
    using assms(2) by (cases rest; auto simp: scan_frac_def scan_exp_def delimited_def has_prefix_def)+
  ultimately show ?thesis by (simp add: scan_number_def l has_prefix_def)
qed

lemma digit_not_punct:
  assumes "is_digit c"
  shows "\<not> is_space c" and "c \<notin> {CHR ''-'', CHR ''+'', quote_char, CHR ''['', CHR '']'', CHR ''{'', CHR ''}'',
    CHR ''n'', CHR ''t'', CHR ''f'', CHR '','', CHR ''.'', CHR ''e'', CHR ''E''}"
  using assms by (auto simp: is_digit_def is_space_def)

lemma print_json_head:
  assumes "json_ok v"
  obtains c t where "print_json v = c # t" and "\<not> is_space c" and "c \<notin> {CHR '']'', CHR ''}''}"
proof (cases v)
  case (JNum l)
  then obtain c t where "l = c # t" "is_digit c" using assms by (cases l) (auto simp: num_ok_def)
  then show ?thesis using that JNum digit_not_punct by simp
next
  case (JBool b)
  then show ?thesis using that by (cases b) (auto simp: is_space_def)
qed (use that in \<open>auto simp: is_space_def\<close>)

lemma skip_space_print: "json_ok v \<Longrightarrow> skip_space (print_json v @ s) = print_json v @ s"
  by (erule print_json_head) (simp add: skip_space_def)

lemma skip_space_nonspace [simp]: "\<not> is_space c \<Longrightarrow> skip_space (c # s) = c # s"
  by (simp add: skip_space_def)

lemma not_space_punct [simp]:
  "\<not> is_space quote_char" "\<not> is_space (CHR '','')" "\<not> is_space (CHR '':'')" "\<not> is_space (CHR '']'')"
  "\<not> is_space (CHR ''}'')" "\<not> is_space (CHR ''['')" "\<not> is_space (CHR ''{'')"
  by (simp_all add: is_space_def)

lemma print_elems_head:
  assumes "json_ok v"
  shows "\<not> has_prefix (skip_space (print_elems (v # vs) @ s)) '']''"
  by (rule print_json_head [OF assms]) (simp add: skip_space_def has_prefix_def)

lemma parse_value_number:
  assumes "num_ok l" and "delimited rest"
  shows "parse_value (Suc n) (l @ rest) = Some (JNum l, rest)"
proof -
  obtain c t where l: "l = c # t" using assms(1) by (cases l) (auto simp: num_ok_def)
  have "is_digit c" using assms(1) l by (simp add: num_ok_def)
  with digit_not_punct show ?thesis
    using scan_number_ok [OF assms] by (simp add: l has_prefix_def)
qed

lemma parse_print_aux:
  "json_ok v \<Longrightarrow> delimited rest \<Longrightarrow> length (print_json v) \<le> n \<Longrightarrow>
     parse_value n (print_json v @ rest) = Some (v, rest)"
  "\<forall>v \<in> set vs. json_ok v \<Longrightarrow> vs \<noteq> [] \<Longrightarrow> length (print_elems vs) \<le> n \<Longrightarrow>
     parse_elems n (print_elems vs @ rest) = Some (vs, rest)"
  "\<forall>(k, v) \<in> set ms. raw_ok k \<and> json_ok v \<Longrightarrow> ms \<noteq> [] \<Longrightarrow> length (print_members ms) \<le> n \<Longrightarrow>
     parse_members n (print_members ms @ rest) = Some (ms, rest)"
proof (induction v and vs and ms arbitrary: n rest and n rest and n rest
    rule: print_json_print_elems_print_members.induct)
  case 1
  then show ?case by (cases n) (simp_all add: has_prefix_def is_space_def)
next
  case (2 b)
  then show ?case by (cases n; cases b) (simp_all add: has_prefix_def is_space_def)
next
  case (3 l)
  moreover from this have "l \<noteq> []" by (simp add: num_ok_def)
  ultimately show ?case by (cases n) (simp_all add: parse_value_number del: parse_value.simps)
next
  case (4 r)
  then show ?case by (cases n) (simp_all add: scan_string_raw)
next
  case (5 vs)
  then show ?case
  proof (cases vs)
    case Nil
    then show ?thesis using 5 by (cases n) (simp_all add: has_prefix_def)
  next
    case (Cons v ws)
    obtain m where n: "n = Suc m" using 5 by (cases n) simp_all
    have "parse_elems m (print_elems vs @ rest) = Some (vs, rest)"
      using 5 n Cons by simp
    moreover have "\<not> has_prefix (skip_space (print_elems vs @ rest)) '']''"
      using print_elems_head [of v ws rest] 5(2) Cons by (simp del: print_elems.simps)
    ultimately show ?thesis by (simp add: n del: print_elems.simps)
  qed
next
  case (6 ms)
  then show ?case
  proof (cases ms)
    case Nil
    then show ?thesis using 6 by (cases n) (simp_all add: has_prefix_def)
  next
    case (Cons m ws)
    obtain k where n: "n = Suc k" using 6 by (cases n) simp_all
    have "parse_members k (print_members ms @ rest) = Some (ms, rest)"
      using 6 n Cons by simp
    then show ?thesis using n Cons by (cases m) (simp add: has_prefix_def)
  qed
next
  case 7
  then show ?case by simp
next
  case (8 v vs)
  obtain m where n: "n = Suc m" using 8(5) by (cases n) (auto split: if_splits)
  show ?case
  proof (cases "vs = []")
    case True
    then show ?thesis using 8 n by simp
  next
    case False
    have "parse_value m (print_json v @ CHR '','' # print_elems vs @ rest) =
        Some (v, CHR '','' # print_elems vs @ rest)"
      using 8(1) [of "CHR '','' # print_elems vs @ rest" m] 8(3,5) False n by simp
    moreover have "parse_elems m (print_elems vs @ rest) = Some (vs, rest)"
      using 8(2) [of m rest] 8(3,5) False n by simp
    ultimately show ?thesis using False n by simp
  qed
next
  case 9
  then show ?case by simp
next
  case (10 k v ms)
  obtain m where n: "n = Suc m" using 10(5) by (cases n) auto
  have k: "scan_string (k @ quote_char # t) = Some (k, t)" for t
    using 10(3) by (simp add: scan_string_raw)
  show ?case
  proof (cases "ms = []")
    case True
    then show ?thesis using 10 n by (simp add: k has_prefix_def)
  next
    case False
    have "parse_value m (print_json v @ CHR '','' # print_members ms @ rest) =
        Some (v, CHR '','' # print_members ms @ rest)"
      using 10(1) [of "CHR '','' # print_members ms @ rest" m] 10(3,5) False n by simp
    moreover have "parse_members m (print_members ms @ rest) = Some (ms, rest)"
      using 10(2) [of m rest] 10(3,5) False n by simp
    ultimately show ?thesis using False n by (simp add: k has_prefix_def)
  qed
qed

lemma parse_print:
  assumes "json_ok v"
  shows "parse_json (print_json v) = Some (v, [])"
  using parse_print_aux(1) [OF assms, of "[]" "length (print_json v)"] by (simp add: parse_json_def)

lemma parse_print_newline:
  assumes "json_ok v"
  shows "parse_json (print_json v @ [CHR 0x0A]) = Some (v, [CHR 0x0A])"
  using parse_print_aux(1) [OF assms, of "[CHR 0x0A]" "Suc (length (print_json v))"]
  by (simp add: parse_json_def delimited_def)

end
