(* ===== verification/GoJsonText.thy ===== *)
theory GoJsonText
  imports GoJson
begin

text \<open>
  The text of JSON strings: Go's string encoder and decoder on raw bytes, UTF-8 encoding of a
  rune, and the round trip between them for valid UTF-8.
\<close>

subsection \<open>Quoting strings\<close>

text \<open>
  \<open>json_escape h\<close> is the string encoder, \<open>h\<close> telling whether \<open>SetEscapeHTML\<close> is on, as it
  is for \<open>json.Marshal\<close>. \<open>unquote\<close> is the string decoder: escapes, surrogate pairs, and the
  replacement of invalid UTF-8.
\<close>

definition hex_char :: "nat \<Rightarrow> char" where
  "hex_char n = (if n < 10 then char_of (n + 0x30) else char_of (n + 0x57))"

definition encode_rune :: "nat \<Rightarrow> string" where
  "encode_rune r =
    (if r < 0x80 then [char_of r]
     else if r < 0x800 then [char_of (0xC0 + r div 0x40), char_of (0x80 + r mod 0x40)]
     else if (0xD800 \<le> r \<and> r < 0xE000) \<or> 0x10FFFF < r then [char_of (0xEF :: nat), char_of (0xBF :: nat), char_of (0xBD :: nat)]
     else if r < 0x10000 then
       [char_of (0xE0 + r div 0x1000), char_of (0x80 + r div 0x40 mod 0x40), char_of (0x80 + r mod 0x40)]
     else
       [char_of (0xF0 + r div 0x40000), char_of (0x80 + r div 0x1000 mod 0x40),
        char_of (0x80 + r div 0x40 mod 0x40), char_of (0x80 + r mod 0x40)])"

definition unicode_escape :: "nat \<Rightarrow> string" where
  "unicode_escape r = [backslash, CHR ''u'', hex_char (r div 0x1000), hex_char (r div 0x100 mod 16),
     hex_char (r div 0x10 mod 16), hex_char (r mod 16)]"

definition escape_ascii :: "bool \<Rightarrow> char \<Rightarrow> string" where
  "escape_ascii html c =
    (if c = quote_char \<or> c = backslash then [backslash, c]
     else if byte c = 0x08 then [backslash, CHR ''b'']
     else if byte c = 0x0C then [backslash, CHR ''f'']
     else if byte c = 0x0A then [backslash, CHR ''n'']
     else if byte c = 0x0D then [backslash, CHR ''r'']
     else if byte c = 0x09 then [backslash, CHR ''t'']
     else if byte c < 0x20 \<or> (html \<and> (c = CHR ''<'' \<or> c = CHR ''>'' \<or> c = CHR ''&''))
     then unicode_escape (byte c)
     else [c])"

fun json_escape :: "bool \<Rightarrow> string \<Rightarrow> string" where
  "json_escape html [] = []"
| "json_escape html (a # s) =
    (let (r, w) = decode_rune (a # s) in
     if byte a < 0x80 then escape_ascii html a @ json_escape html s
     else if w = 1 then unicode_escape 0xFFFD @ json_escape html s
     else if r = 0x2028 \<or> r = 0x2029 then unicode_escape r @ json_escape html (drop (w - 1) s)
     else a # take (w - 1) s @ json_escape html (drop (w - 1) s))"

definition hex4 :: "string \<Rightarrow> nat" where
  "hex4 s = foldl (\<lambda>n c. n * 16 + (case hex_val c of Some d \<Rightarrow> d | None \<Rightarrow> 0)) 0 (take 4 s)"

definition escape_value :: "char \<Rightarrow> char" where
  "escape_value e =
    (if e = CHR ''b'' then char_of (0x08 :: nat) else if e = CHR ''f'' then char_of (0x0C :: nat)
     else if e = CHR ''n'' then char_of (0x0A :: nat) else if e = CHR ''r'' then char_of (0x0D :: nat)
     else if e = CHR ''t'' then char_of (0x09 :: nat) else e)"

fun unquote :: "string \<Rightarrow> string" where
  "unquote [] = []"
| "unquote (c # s) =
    (if c = backslash then
       (case s of
          [] \<Rightarrow> []
        | e # t \<Rightarrow>
            if e = CHR ''u'' then
              (let r = hex4 t; t1 = drop 4 t in
               if 0xD800 \<le> r \<and> r < 0xE000 then
                 (if r < 0xDC00 \<and> has_prefix t1 [backslash, CHR ''u''] \<and>
                     0xDC00 \<le> hex4 (drop 2 t1) \<and> hex4 (drop 2 t1) < 0xE000
                  then encode_rune (0x10000 + (r - 0xD800) * 0x400 + (hex4 (drop 2 t1) - 0xDC00)) @
                    unquote (drop 6 t1)
                  else encode_rune 0xFFFD @ unquote t1)
               else encode_rune r @ unquote t1)
            else escape_value e # unquote t)
     else if byte c < 0x80 then c # unquote s
     else
       (let (r, w) = decode_rune (c # s) in
        if w = 1 then encode_rune 0xFFFD @ unquote s
        else c # take (w - 1) s @ unquote (drop (w - 1) s)))"

fun valid_utf8 :: "string \<Rightarrow> bool" where
  "valid_utf8 [] \<longleftrightarrow> True"
| "valid_utf8 (a # s) \<longleftrightarrow>
    (let (r, w) = decode_rune (a # s) in (byte a < 0x80 \<or> w \<noteq> 1) \<and> valid_utf8 (drop (w - 1) s))"

lemma decode_rune_multi [consumes 3, case_names two three four]:
  assumes "decode_rune (a # s) = (r, w)" and "0x80 \<le> byte a" and "w \<noteq> 1"
  obtains b t where "s = b # t" "w = 2" "cont b" "0xC2 \<le> byte a" "byte a < 0xE0"
      "r = (byte a - 0xC0) * 0x40 + (byte b - 0x80)"
  | b c t where "s = b # c # t" "w = 3" "cont b" "cont c" "0xE0 \<le> byte a" "byte a < 0xF0"
      "byte a = 0xE0 \<longrightarrow> 0xA0 \<le> byte b" "byte a = 0xED \<longrightarrow> byte b \<le> 0x9F"
      "r = (byte a - 0xE0) * 0x1000 + (byte b - 0x80) * 0x40 + (byte c - 0x80)"
  | b c d t where "s = b # c # d # t" "w = 4" "cont b" "cont c" "cont d" "0xF0 \<le> byte a" "byte a \<le> 0xF4"
      "byte a = 0xF0 \<longrightarrow> 0x90 \<le> byte b" "byte a = 0xF4 \<longrightarrow> byte b \<le> 0x8F"
      "r = (byte a - 0xF0) * 0x40000 + (byte b - 0x80) * 0x1000 + (byte c - 0x80) * 0x40 + (byte d - 0x80)"
proof -
  from assms have "0xC2 \<le> byte a" "byte a \<le> 0xF4"
    by (auto simp: rune_error_def split: if_splits)
  then consider "0xC2 \<le> byte a" "byte a < 0xE0" | "0xE0 \<le> byte a" "byte a < 0xF0"
    | "0xF0 \<le> byte a" "byte a \<le> 0xF4" by linarith
  then show ?thesis
  proof cases
    case 1
    then show ?thesis
      using assms that(1) by (auto simp: rune_error_def split: if_splits list.splits)
  next
    case 2
    then show ?thesis
      using assms that(2) by (auto simp: rune_error_def split: if_splits list.splits)
  next
    case 3
    then show ?thesis
      using assms that(3) by (auto simp: rune_error_def split: if_splits list.splits)
  qed
qed

lemma decode_rune_chunk:
  assumes "decode_rune (a # s) = (r, w)" and "0x80 \<le> byte a" and "w \<noteq> 1"
  shows "decode_rune (a # take (w - 1) s @ t) = (r, w)"
    and "take (w - 1) (take (w - 1) s @ t) = take (w - 1) s"
    and "drop (w - 1) (take (w - 1) s @ t) = t"
    and "\<forall>c \<in> set (take (w - 1) s). 0x80 \<le> byte c"
  using assms by (cases rule: decode_rune_multi; auto simp: cont_def)+

lemma char_of_byte_eq: "n = byte c \<Longrightarrow> char_of n = c"
  by simp

lemma base64_digits:
  fixes x y z u :: nat
  shows "y < 0x40 \<Longrightarrow> (x * 0x40 + y) div 0x40 = x"
    and "y < 0x40 \<Longrightarrow> (x * 0x40 + y) mod 0x40 = y"
    and "x * 0x1000 + y * 0x40 + z = (x * 0x40 + y) * 0x40 + z"
    and "x * 0x40000 + y * 0x1000 + z * 0x40 + u = ((x * 0x40 + y) * 0x40 + z) * 0x40 + u"
  by simp_all

lemma cont_digit: "cont c \<Longrightarrow> byte c - 0x80 < 0x40" and cont_sum: "cont c \<Longrightarrow> 0x80 + (byte c - 0x80) = byte c"
  by (auto simp: cont_def)

lemma div_0x40: "r div 0x1000 = r div 0x40 div 0x40" "r div 0x40000 = r div 0x40 div 0x40 div 0x40" for r :: nat
  by (simp_all add: div_mult2_eq [symmetric])

lemma encode_decode_rune:
  assumes "decode_rune (a # s) = (r, w)" and "0x80 \<le> byte a" and "w \<noteq> 1"
  shows "encode_rune r = a # take (w - 1) s"
  using assms
proof (cases rule: decode_rune_multi)
  case (two b t)
  have "r div 0x40 = byte a - 0xC0" "r mod 0x40 = byte b - 0x80"
    unfolding two(6) by (rule base64_digits cont_digit [OF two(3)])+
  moreover have "0x80 \<le> r" "r < 0x800" using two by (auto simp: cont_def)
  ultimately show ?thesis using two(1-5) by (simp add: encode_rune_def cont_sum)
next
  case (three b c t)
  have "r = ((byte a - 0xE0) * 0x40 + (byte b - 0x80)) * 0x40 + (byte c - 0x80)"
    unfolding three(9) by (rule base64_digits)
  then have "r div 0x1000 = byte a - 0xE0" "r div 0x40 mod 0x40 = byte b - 0x80" "r mod 0x40 = byte c - 0x80"
    by (simp_all only: div_0x40 base64_digits cont_digit three(3,4))
  moreover have "0x800 \<le> r" using three by (cases "byte a = 0xE0") (auto simp: cont_def)
  moreover have "r < 0xD800 \<or> 0xE000 \<le> r"
  proof (cases "byte a \<le> 0xED")
    case True
    with three show ?thesis by (cases "byte a = 0xED") (auto simp: cont_def)
  qed (use three in auto)
  moreover have "r < 0x10000" using three by (auto simp: cont_def)
  ultimately show ?thesis using three(1-8) by (auto simp: encode_rune_def cont_sum)
next
  case (four b c d t)
  have "r = (((byte a - 0xF0) * 0x40 + (byte b - 0x80)) * 0x40 + (byte c - 0x80)) * 0x40 + (byte d - 0x80)"
    unfolding four(10) by (rule base64_digits)
  then have "r div 0x40000 = byte a - 0xF0" "r div 0x1000 mod 0x40 = byte b - 0x80"
    "r div 0x40 mod 0x40 = byte c - 0x80" "r mod 0x40 = byte d - 0x80"
    by (simp_all only: div_0x40 base64_digits cont_digit four(3-5))
  moreover have "0x10000 \<le> r" using four by (cases "byte a = 0xF0") (auto simp: cont_def)
  moreover have "r \<le> 0x10FFFF" using four by (cases "byte a = 0xF4") (auto simp: cont_def)
  ultimately show ?thesis using four(1-9) by (auto simp: encode_rune_def cont_sum)
qed

lemma hex_val_hex_char: "n < 16 \<Longrightarrow> hex_val (hex_char n) = Some n"
  by (auto simp: hex_val_def hex_char_def of_char_of)

lemma hex4_unicode_escape:
  assumes "r < 0x10000"
  shows "hex4 (drop 2 (unicode_escape r) @ t) = r" and "list_all is_hex (drop 2 (unicode_escape r))"
proof -
  have d: "r div 0x1000 = r div 16 div 16 div 16" "r div 0x100 = r div 16 div 16"
    by (simp_all add: div_mult2_eq [symmetric])
  have lt: "r div 16 div 16 div 16 < 16" using assms by (simp add: div_mult2_eq [symmetric] less_mult_imp_div_less)
  have "((r div 0x1000 * 16 + r div 0x100 mod 16) * 16 + r div 0x10 mod 16) * 16 + r mod 16 = r"
    by (simp only: d div_mult_mod_eq)
  then show "hex4 (drop 2 (unicode_escape r) @ t) = r" "list_all is_hex (drop 2 (unicode_escape r))"
    using lt by (simp_all add: hex4_def unicode_escape_def hex_val_hex_char is_hex_def d)
qed

lemma unicode_escape_digits:
  assumes "r < 0x10000"
  obtains u where "unicode_escape r = backslash # CHR ''u'' # u" "length u = 4"
    "\<And>t. hex4 (u @ t) = r" "list_all is_hex u"
proof (rule that [of "drop 2 (unicode_escape r)"])
  show "unicode_escape r = backslash # CHR ''u'' # drop 2 (unicode_escape r)"
    "length (drop 2 (unicode_escape r)) = 4"
    by (simp_all add: unicode_escape_def)
qed (rule hex4_unicode_escape [OF assms])+

lemma unquote_unicode_escape:
  assumes "r < 0xD800 \<or> 0xE000 \<le> r" and "r < 0x10000"
  shows "unquote (unicode_escape r @ t) = encode_rune r @ unquote t"
proof -
  obtain u where "unicode_escape r = backslash # CHR ''u'' # u" "length u = 4" "\<And>t. hex4 (u @ t) = r"
    using unicode_escape_digits [OF assms(2)] by blast
  then show ?thesis using assms by (auto simp: Let_def)
qed

lemma scan_unicode_escape:
  assumes "r < 0x10000"
  shows "scan_string (unicode_escape r @ t) = push (unicode_escape r) (scan_string t)"
proof -
  obtain u where "unicode_escape r = backslash # CHR ''u'' # u" "length u = 4" "list_all is_hex u"
    using unicode_escape_digits [OF assms] by blast
  then show ?thesis by (simp add: simple_escape_def)
qed

lemma unquote_escape_ascii: "byte c < 0x80 \<Longrightarrow> unquote (escape_ascii h c @ t) = c # unquote t"
  by (auto simp: escape_ascii_def unquote_unicode_escape escape_value_def encode_rune_def char_of_byte_eq)

lemma byte_lt_0x10000: "byte c < 0x10000"
  using byte_bound [of c] by linarith

lemma scan_escape_ascii:
  "scan_string (escape_ascii h c @ t) = push (escape_ascii h c) (scan_string t)"
  by (auto simp: escape_ascii_def scan_unicode_escape simple_escape_def byte_lt_0x10000)


lemma unquote_chunk:
  assumes "decode_rune (a # s) = (r, w)" and "0x80 \<le> byte a" and "w \<noteq> 1"
  shows "unquote (a # take (w - 1) s @ t) = a # take (w - 1) s @ unquote t"
proof -
  have "a \<noteq> backslash" using assms(2) by auto
  then show ?thesis
    using assms(2,3) decode_rune_chunk(1-3) [OF assms, of t]
    by (simp add: Let_def del: decode_rune.simps take_append drop_append take_take drop_take)
qed

lemma scan_high_bytes:
  "\<forall>c \<in> set u. 0x80 \<le> byte c \<Longrightarrow> scan_string (u @ t) = push u (scan_string t)"
proof (induction u)
  case Nil
  then show ?case by (cases "scan_string t") (auto simp: push_def)
next
  case (Cons c u)
  then have "c \<noteq> quote_char" "c \<noteq> backslash" by auto
  with Cons show ?case by (cases "scan_string t") (auto simp: push_def)
qed

lemma ascii_valid_utf8: "\<forall>c \<in> set s. byte c < 0x80 \<Longrightarrow> valid_utf8 s"
  by (induction s) simp_all

theorem unquote_escape: "valid_utf8 s \<Longrightarrow> unquote (json_escape h s) = s"
proof (induction h s rule: json_escape.induct)
  case (2 h a s)
  obtain r w where rw: "decode_rune (a # s) = (r, w)" by force
  show ?case
  proof (cases "byte a < 0x80")
    case True
    then have "w = 1" using rw by simp
    with 2(1) [OF rw [symmetric] refl True] 2(5) True rw show ?thesis
      by (simp add: unquote_escape_ascii del: decode_rune.simps)
  next
    case False
    then have a: "0x80 \<le> byte a" and w: "w \<noteq> 1"
      using 2(5) rw by (simp_all del: decode_rune.simps)
    have tail: "valid_utf8 (drop (w - 1) s)" using 2(5) rw by (simp del: decode_rune.simps)
    show ?thesis
    proof (cases "r = 0x2028 \<or> r = 0x2029")
      case True
      have "unquote (json_escape h (drop (w - 1) s)) = drop (w - 1) s"
        using 2(3) [OF rw [symmetric] refl False w True tail] .
      moreover have "encode_rune r = a # take (w - 1) s" using rw a w by (rule encode_decode_rune)
      ultimately show ?thesis
        using True False w rw by (auto simp: unquote_unicode_escape simp del: decode_rune.simps)
    next
      case no: False
      have "unquote (json_escape h (drop (w - 1) s)) = drop (w - 1) s"
        using 2(4) [OF rw [symmetric] refl False w no tail] .
      then show ?thesis
        using no False w rw unquote_chunk [OF rw a w]
        by (simp del: decode_rune.simps unquote.simps)
    qed
  qed
qed simp

text \<open>Characters that need no escape.\<close>

definition unescaped :: "char \<Rightarrow> bool" where
  "unescaped ch \<longleftrightarrow> byte ch < 0x80 \<and> (\<forall>h. escape_ascii h ch = [ch])"

lemma json_escape_unescaped: "\<forall>ch \<in> set s. unescaped ch \<Longrightarrow> json_escape h s = s"
  by (induction s) (simp_all add: unescaped_def)

lemma raw_ok_append:
  "(\<And>t. scan_string (u @ t) = push u (scan_string t)) \<Longrightarrow> raw_ok r \<Longrightarrow> raw_ok (u @ r)"
  by (simp add: raw_ok_def)

theorem raw_ok_escape: "raw_ok (json_escape h s)"
proof (induction h s rule: json_escape.induct)
  case (1 h)
  then show ?case by (simp add: raw_ok_def)
next
  case (2 h a s)
  obtain r w where rw: "decode_rune (a # s) = (r, w)" by force
  have chunk: "raw_ok (a # take (w - 1) s @ u)" if "0x80 \<le> byte a" "w \<noteq> 1" "raw_ok u" for u
    using raw_ok_append [of "a # take (w - 1) s" u, OF scan_high_bytes]
      decode_rune_chunk(4) [OF rw that(1,2)] that by simp
  have uni: "raw_ok (unicode_escape q @ u)" if "q < 0x10000" "raw_ok u" for q u
    using that by (intro raw_ok_append scan_unicode_escape)
  have asc: "raw_ok (escape_ascii h a @ u)" if "raw_ok u" for u
    using that by (intro raw_ok_append scan_escape_ascii)
  show ?case
    using 2(1) [OF rw [symmetric] refl] 2(2) [OF rw [symmetric] refl] 2(3) [OF rw [symmetric] refl]
      2(4) [OF rw [symmetric] refl] chunk uni asc rw
    by (auto simp del: decode_rune.simps)
qed

end
