(* ===== verification/GoJsonDecode.thy ===== *)
theory GoJsonDecode
  imports GoJsonText
begin

text \<open>
  The typed side of \<open>encoding/json\<close>. An encoder turns a value into a \<open>json\<close> tree the way
  \<open>json.Marshal\<close> does for the Go type; a decoder stores a tree into a target of the Go type the
  way \<open>Decoder.Decode\<close> does and fails with \<open>None\<close>. Decoders take the target's present value,
  because \<open>null\<close> leaves a target as it is and a repeated member is decoded over the first one.
  A struct decoder is a list of fields; a member is stored into the field with its exact name,
  else into the field whose name agrees up to case, and is refused when there is none
  (\<open>DisallowUnknownFields\<close>).

  The locale \<open>json_codec\<close> is the contract between an encoder and its decoder. It is
  interpreted for every type the program writes and reads back.
\<close>

subsection \<open>Numbers\<close>

fun dec_text :: "nat \<Rightarrow> string" where
  "dec_text n = (if n < 10 then [digit_char (int n)] else dec_text (n div 10) @ [digit_char (int (n mod 10))])"

declare dec_text.simps [simp del]

lemma digit_char_nat:
  assumes "n < 10"
  shows "byte (digit_char (int n)) = n + 48" and "is_digit (digit_char (int n))"
  using assms by (simp_all add: byte_digit_char is_digit_def)

lemma dec_text_digits: "dec_text n \<noteq> [] \<and> list_all is_digit (dec_text n)"
proof (induction n rule: dec_text.induct)
  case (1 n)
  then show ?case by (subst (1 2) dec_text.simps) (simp add: digit_char_nat)
qed

lemma digits_value_dec_text: "digits_value (dec_text n) = int n"
proof (induction n rule: dec_text.induct)
  case (1 n)
  show ?case
  proof (cases "n < 10")
    case True
    then show ?thesis by (simp add: dec_text.simps digits_value_def digit_char_nat)
  next
    case False
    then have "digits_value (dec_text n) = 10 * int (n div 10) + int (n mod 10)"
      using 1 by (subst dec_text.simps) (simp add: digits_value_snoc digit_char_nat)
    then show ?thesis by (simp flip: of_nat_mult of_nat_add add: zdiv_int zmod_int)
  qed
qed

lemma dec_text_head: "0 < n \<Longrightarrow> hd (dec_text n) \<noteq> CHR ''0''"
proof (induction n rule: dec_text.induct)
  case (1 n)
  show ?case
  proof (cases "n < 10")
    case True
    then have "byte (digit_char (int n)) \<noteq> byte (CHR ''0'')"
      using 1(2) by (simp add: digit_char_nat)
    then show ?thesis using True by (metis dec_text.simps list.sel(1))
  next
    case False
    then show ?thesis
      using 1 dec_text_digits [of "n div 10"] by (subst dec_text.simps) simp
  qed
qed

lemma num_ok_dec_text: "num_ok (dec_text n)"
proof (cases "n = 0")
  case True
  then have "dec_text n = ''0''" by (simp add: dec_text.simps digit_char_def char_of_byte_eq)
  then show ?thesis by (simp add: num_ok_def is_digit_def)
next
  case False
  then show ?thesis
    using dec_text_head [of n] dec_text_digits [of n]
    by (cases "dec_text n") (auto simp: num_ok_def has_prefix_def)
qed

lemma length_dec_text: "n < 10 ^ k \<Longrightarrow> 0 < k \<Longrightarrow> length (dec_text n) \<le> k"
proof (induction k arbitrary: n)
  case (Suc k)
  show ?case
  proof (cases "n < 10")
    case True
    then show ?thesis by (simp add: dec_text.simps)
  next
    case False
    then have "0 < k" using Suc.prems by (cases k) auto
    moreover have "n div 10 < 10 ^ k" using Suc.prems by (simp add: less_mult_imp_div_less mult.commute)
    ultimately show ?thesis using Suc.IH False by (subst dec_text.simps) simp
  qed
qed simp

lemma length_dec_text_uint64: "length (dec_text (unat x)) \<le> 20" for x :: uint64
proof -
  have "unat x < 2 ^ 64" using unsigned_less [of x, where ?'a = nat] by simp
  then show ?thesis by (intro length_dec_text) simp_all
qed

definition enc_uint :: "'a::len word \<Rightarrow> json" where
  "enc_uint x = JNum (dec_text (unat x))"

definition enc_int :: "int \<Rightarrow> json" where
  "enc_int n = JNum (if n < 0 then CHR ''-'' # dec_text (nat (- n)) else dec_text (nat n))"

text \<open>\<open>strconv.ParseUint\<close> and \<open>strconv.ParseInt\<close> on a number's literal.\<close>

fun dec_uint :: "json \<Rightarrow> 'a::len word \<Rightarrow> 'a word option" where
  "dec_uint JNull x = Some x"
| "dec_uint (JNum l) x =
    (if l \<noteq> [] \<and> list_all is_digit l \<and> digits_value l < 2 ^ LENGTH('a)
     then Some (word_of_int (digits_value l)) else None)"
| "dec_uint _ x = None"

fun dec_int :: "json \<Rightarrow> int \<Rightarrow> int option" where
  "dec_int JNull x = Some x"
| "dec_int (JNum l) x = atoi l"
| "dec_int _ x = None"

lemma dec_enc_uint [simp]: "dec_uint (enc_uint x) y = Some x" for x :: "'a::len word"
proof -
  have "int (unat x) < 2 ^ LENGTH('a)"
    using unsigned_less [of x, where ?'a = int] by simp
  then show ?thesis
    by (simp add: enc_uint_def dec_text_digits digits_value_dec_text)
qed

lemma json_ok_enc_uint [simp]: "json_ok (enc_uint x)"
  by (simp add: enc_uint_def num_ok_dec_text)

lemma dec_text_unsigned:
  "\<not> has_prefix (dec_text n) ''-''" "\<not> has_prefix (dec_text n) ''+''"
  using dec_text_digits [of n]
  by (cases "dec_text n"; auto simp: has_prefix_def is_digit_def)+

lemma dec_enc_int: "0 \<le> n \<Longrightarrow> n < 2 ^ 63 \<Longrightarrow> dec_int (enc_int n) y = Some n"
  by (simp add: enc_int_def atoi_def dec_text_digits digits_value_dec_text dec_text_unsigned Let_def)

lemma json_ok_enc_int: "0 \<le> n \<Longrightarrow> json_ok (enc_int n)"
  by (simp add: enc_int_def num_ok_dec_text)

subsection \<open>Strings, times and booleans\<close>

text \<open>\<open>json.Marshal\<close> escapes strings with HTML escaping on.\<close>

definition enc_string :: "string \<Rightarrow> json" where
  "enc_string s = JStr (json_escape True s)"

fun dec_string :: "json \<Rightarrow> string \<Rightarrow> string option" where
  "dec_string JNull x = Some x"
| "dec_string (JStr r) x = Some (unquote r)"
| "dec_string _ x = None"

fun dec_bool :: "json \<Rightarrow> bool \<Rightarrow> bool option" where
  "dec_bool JNull x = Some x"
| "dec_bool (JBool b) x = Some b"
| "dec_bool _ x = None"

definition enc_time :: "time \<Rightarrow> json" where
  "enc_time t = JStr (time_text t)"

fun dec_time :: "json \<Rightarrow> time \<Rightarrow> time option" where
  "dec_time JNull x = Some x"
| "dec_time (JStr r) x = parse_time r"
| "dec_time _ x = None"

definition time_in_range :: "time \<Rightarrow> bool" where
  "time_in_range t \<longleftrightarrow> marshal_time t \<noteq> None"

lemma dec_enc_string [simp]: "valid_utf8 s \<Longrightarrow> dec_string (enc_string s) y = Some s"
  by (simp add: enc_string_def unquote_escape)

lemma json_ok_enc_string [simp]: "json_ok (enc_string s)"
  by (simp add: enc_string_def raw_ok_escape)

lemma dec_enc_time [simp]: "time_in_range t \<Longrightarrow> dec_time (enc_time t) y = Some t"
  using parse_marshal_time [of t "time_text t"]
  by (auto simp: enc_time_def time_in_range_def marshal_time_def split: if_splits)

lemma scan_plain:
  "list_all (\<lambda>c. c \<noteq> quote_char \<and> c \<noteq> backslash \<and> 0x20 \<le> byte c) u \<Longrightarrow>
   scan_string (u @ t) = push u (scan_string t)"
proof (induction u)
  case Nil
  then show ?case by (cases "scan_string t") (auto simp: push_def)
next
  case (Cons c u)
  then show ?case by (cases "scan_string t") (auto simp: push_def)
qed

lemma raw_ok_plain: "list_all (\<lambda>c. c \<noteq> quote_char \<and> c \<noteq> backslash \<and> 0x20 \<le> byte c) u \<Longrightarrow> raw_ok u"
  unfolding raw_ok_def by (simp add: scan_plain)

lemma plain_digit: "is_digit c \<Longrightarrow> c \<noteq> quote_char \<and> c \<noteq> backslash \<and> 0x20 \<le> byte c"
  by (auto simp: is_digit_def)

lemma plain_digits:
  "list_all is_digit u \<Longrightarrow> list_all (\<lambda>c. c \<noteq> quote_char \<and> c \<noteq> backslash \<and> 0x20 \<le> byte c) u"
  by (simp add: list_all_iff plain_digit)

lemma digits_frac_text:
  "list_all (\<lambda>c. c \<noteq> quote_char \<and> c \<noteq> backslash \<and> 0x20 \<le> byte c) (frac_text n)"
proof -
  have "list_all is_digit (rev (dropWhile (\<lambda>c. c = CHR ''0'') (rev (pad 9 n))))"
    using all_digits_pad [of 9 n] by (auto simp: list_all_iff simp del: all_digits_pad dest!: set_dropWhileD)
  then show ?thesis by (simp add: frac_text_def plain_digits del: list_all_rev)
qed

lemma json_ok_enc_time [simp]: "json_ok (enc_time t)"
  unfolding enc_time_def json_ok.simps time_text_def
  by (rule raw_ok_plain)
    (simp add: Let_def plain_digits digits_frac_text split: prod.split)

subsection \<open>Slices\<close>

text \<open>
  A nil slice is written as \<open>null\<close>; the slices the program builds with \<open>append\<close> are nil when
  empty. Decoding an array stores element \<open>i\<close> over the target's element \<open>i\<close> where it has one
  and over a zero value past its end; \<open>null\<close> makes the slice nil. (A third occurrence of one
  member, longer than the second and no longer than the first, would find old elements past
  the second's end; the model has zero values there.)
\<close>

definition enc_list :: "('a \<Rightarrow> json) \<Rightarrow> 'a list \<Rightarrow> json" where
  "enc_list enc xs = (if xs = [] then JNull else JArr (map enc xs))"

fun dec_elems :: "(json \<Rightarrow> 'a \<Rightarrow> 'a option) \<Rightarrow> 'a \<Rightarrow> json list \<Rightarrow> 'a list \<Rightarrow> 'a list option" where
  "dec_elems dec zero [] xs = Some []"
| "dec_elems dec zero (v # vs) xs =
    (case dec v (case xs of [] \<Rightarrow> zero | x # _ \<Rightarrow> x) of
       None \<Rightarrow> None
     | Some y \<Rightarrow> map_option (\<lambda>ys. y # ys) (dec_elems dec zero vs (tl xs)))"

fun dec_list :: "(json \<Rightarrow> 'a \<Rightarrow> 'a option) \<Rightarrow> 'a \<Rightarrow> json \<Rightarrow> 'a list \<Rightarrow> 'a list option" where
  "dec_list dec zero JNull xs = Some []"
| "dec_list dec zero (JArr vs) xs = dec_elems dec zero vs xs"
| "dec_list dec zero _ xs = None"

subsection \<open>Structs\<close>

type_synonym 'r field = "string \<times> (json \<Rightarrow> 'r \<Rightarrow> 'r option)"

text \<open>
  Names are compared up to Unicode simple case folding; besides the ASCII letters only the
  long s and the Kelvin sign fold to an ASCII letter.
\<close>

definition fold_rune :: "nat \<Rightarrow> nat" where
  "fold_rune r =
    (if 0x41 \<le> r \<and> r \<le> 0x5A then r + 0x20 else if r = 0x17F then 0x73
     else if r = 0x212A then 0x6B else r)"

definition fold_name :: "string \<Rightarrow> nat list" where
  "fold_name s = map fold_rune (runes s)"

definition find_field :: "'r field list \<Rightarrow> string \<Rightarrow> (json \<Rightarrow> 'r \<Rightarrow> 'r option) option" where
  "find_field fs k =
    (case map_of fs k of
       Some d \<Rightarrow> Some d
     | None \<Rightarrow> map_option snd (find (\<lambda>f. fold_name (fst f) = fold_name k) fs))"

fun dec_members :: "'r field list \<Rightarrow> (string \<times> json) list \<Rightarrow> 'r \<Rightarrow> 'r option" where
  "dec_members fs [] r = Some r"
| "dec_members fs ((k, v) # ms) r =
    (case find_field fs (unquote k) of
       None \<Rightarrow> None
     | Some d \<Rightarrow> (case d v r of None \<Rightarrow> None | Some r' \<Rightarrow> dec_members fs ms r'))"

fun dec_struct :: "'r field list \<Rightarrow> json \<Rightarrow> 'r \<Rightarrow> 'r option" where
  "dec_struct fs JNull r = Some r"
| "dec_struct fs (JObj ms) r = dec_members fs ms r"
| "dec_struct fs _ r = None"

text \<open>\<open>field_of dec get put\<close> decodes into one field of a record.\<close>

definition field_of ::
  "(json \<Rightarrow> 'a \<Rightarrow> 'a option) \<Rightarrow> ('r \<Rightarrow> 'a) \<Rightarrow> ('a \<Rightarrow> 'r \<Rightarrow> 'r) \<Rightarrow> json \<Rightarrow> 'r \<Rightarrow> 'r option" where
  "field_of dec get put v r = map_option (\<lambda>x. put x r) (dec v (get r))"

text \<open>Member names are plain identifiers: quoting leaves them alone.\<close>

definition plain_name :: "string \<Rightarrow> bool" where
  "plain_name k \<longleftrightarrow> list_all (\<lambda>c. (0x61 \<le> byte c \<and> byte c \<le> 0x7A) \<or> byte c = 0x5F \<or> is_digit c) k"

lemma plain_name_raw_ok: "plain_name k \<Longrightarrow> raw_ok k"
  by (rule raw_ok_plain) (auto simp: plain_name_def list_all_iff is_digit_def)

subsection \<open>The contract of a codec\<close>

locale json_codec =
  fixes enc :: "'a \<Rightarrow> json"
    and dec :: "json \<Rightarrow> 'a \<Rightarrow> 'a option"
    and zero :: 'a
    and wf :: "'a \<Rightarrow> bool"
  assumes enc_ok: "wf x \<Longrightarrow> json_ok (enc x)"
    and dec_enc: "wf x \<Longrightarrow> dec (enc x) zero = Some x"
begin

lemma parse_enc: "wf x \<Longrightarrow> parse_json (print_json (enc x)) = Some (enc x, [])"
  by (rule parse_print [OF enc_ok])

lemma dec_elems_enc: "list_all wf xs \<Longrightarrow> dec_elems dec zero (map enc xs) [] = Some xs"
  by (induction xs) (simp_all add: dec_enc)

lemma dec_list_enc: "list_all wf xs \<Longrightarrow> dec_list dec zero (enc_list enc xs) [] = Some xs"
  by (simp add: enc_list_def dec_elems_enc)

lemma list_enc_ok: "list_all wf xs \<Longrightarrow> json_ok (enc_list enc xs)"
  by (auto simp: enc_list_def list_all_iff enc_ok)

lemma enc_inject: "wf x \<Longrightarrow> wf y \<Longrightarrow> enc x = enc y \<longleftrightarrow> x = y"
  by (metis dec_enc option.inject)

lemma print_inject: "wf x \<Longrightarrow> wf y \<Longrightarrow> print_json (enc x) = print_json (enc y) \<longleftrightarrow> x = y"
  by (metis enc_inject option.inject parse_enc prod.inject)

end

interpretation string_codec: json_codec enc_string dec_string "[]" valid_utf8
  by unfold_locales simp_all

interpretation time_codec: json_codec enc_time dec_time zero_time time_in_range
  by unfold_locales simp_all

interpretation uint_codec: json_codec enc_uint dec_uint 0 "\<lambda>_. True"
  by unfold_locales simp_all

end
