(* ===== verification/GoBase64.thy ===== *)
theory GoBase64
  imports GoText
begin

text \<open>
  Go's \<open>base64.RawURLEncoding\<close>: the URL-safe alphabet without padding. Decoding follows
  Go's non-strict decoder: carriage returns and line feeds are skipped, any other byte outside
  the alphabet is an error, a lone trailing character is an error, and the unused low bits of
  the last character are ignored. The lemmas show the round trip, the length of an encoding
  and which characters it consists of.
\<close>

definition url_alphabet :: string where
  "url_alphabet = ''ABCDEFGHIJKLMNOPQRSTUVWXYZabcdefghijklmnopqrstuvwxyz0123456789-_''"

definition sextet_char :: "nat \<Rightarrow> char" where
  "sextet_char n = url_alphabet ! n"

fun raw_url_encode :: "bytes \<Rightarrow> string" where
  "raw_url_encode [] = []"
| "raw_url_encode [a] = [sextet_char (byte a div 4), sextet_char (byte a mod 4 * 16)]"
| "raw_url_encode [a, b] =
    [sextet_char (byte a div 4), sextet_char (byte a mod 4 * 16 + byte b div 16),
     sextet_char (byte b mod 16 * 4)]"
| "raw_url_encode (a # b # c # s) =
    sextet_char (byte a div 4) # sextet_char (byte a mod 4 * 16 + byte b div 16) #
    sextet_char (byte b mod 16 * 4 + byte c div 64) # sextet_char (byte c mod 64) #
    raw_url_encode s"

fun decode_sextets :: "nat list \<Rightarrow> bytes option" where
  "decode_sextets [] = Some []"
| "decode_sextets [x] = None"
| "decode_sextets [x, y] = Some [char_of (x * 4 + y div 16)]"
| "decode_sextets [x, y, z] = Some [char_of (x * 4 + y div 16), char_of (y mod 16 * 16 + z div 4)]"
| "decode_sextets (x # y # z # w # xs) =
    map_option (\<lambda>s. char_of (x * 4 + y div 16) # char_of (y mod 16 * 16 + z div 4) #
      char_of (z mod 4 * 64 + w) # s) (decode_sextets xs)"

definition is_newline :: "char \<Rightarrow> bool" where
  "is_newline c \<longleftrightarrow> byte c = 0x0A \<or> byte c = 0x0D"

definition raw_url_decode :: "string \<Rightarrow> bytes option" where
  "raw_url_decode s =
    Option.bind (those (map (index_byte url_alphabet) (filter (\<lambda>c. \<not> is_newline c) s))) decode_sextets"

definition encoded_len :: "nat \<Rightarrow> nat" where
  "encoded_len n = n div 3 * 4 + (n mod 3 * 8 + 5) div 6"

subsection \<open>The alphabet\<close>

lemma length_url_alphabet [simp]: "length url_alphabet = 64"
  by (simp add: url_alphabet_def)

lemma distinct_url_alphabet: "distinct url_alphabet"
  by (simp add: url_alphabet_def)

lemma index_byte_nth: "distinct s \<Longrightarrow> i < length s \<Longrightarrow> index_byte s (s ! i) = Some i"
proof (induction s arbitrary: i)
  case (Cons c s)
  then show ?case by (cases i) (auto simp: nth_mem)
qed simp

lemma index_byte_Some: "index_byte s c = Some i \<Longrightarrow> i < length s \<and> s ! i = c"
  by (induction s arbitrary: i) (auto split: if_splits)

lemma index_sextet_char [simp]: "n < 64 \<Longrightarrow> index_byte url_alphabet (sextet_char n) = Some n"
  by (simp add: sextet_char_def index_byte_nth distinct_url_alphabet)

lemma url_alphabet_plain: "list_all (\<lambda>c. \<not> is_newline c \<and> byte c < 0x80) url_alphabet"
  by (simp add: url_alphabet_def is_newline_def)

lemma sextet_char_plain: "n < 64 \<Longrightarrow> \<not> is_newline (sextet_char n) \<and> byte (sextet_char n) < 0x80"
  using url_alphabet_plain by (simp add: list_all_length sextet_char_def)

subsection \<open>Round trip\<close>

lemma sextet_bounds [simp]:
  "byte a div 4 < 64" "byte a mod 4 * 16 < 64" "byte b mod 16 * 4 < 64" "byte c mod 64 < 64"
  "byte a mod 4 * 16 + byte b div 16 < 64" "byte b mod 16 * 4 + byte c div 64 < 64"
  using byte_bound [of a] byte_bound [of b] byte_bound [of c] by linarith+

definition sextets :: "bytes \<Rightarrow> nat list" where
  "sextets s = map (\<lambda>c. the (index_byte url_alphabet c)) (raw_url_encode s)"

lemma raw_url_encode_chars: "c \<in> set (raw_url_encode s) \<Longrightarrow> \<exists>n < 64. c = sextet_char n"
  by (induction s rule: raw_url_encode.induct) (auto intro: sextet_bounds)

lemma raw_url_encode_plain:
  "c \<in> set (raw_url_encode s) \<Longrightarrow> \<not> is_newline c \<and> byte c < 0x80"
  using raw_url_encode_chars sextet_char_plain by blast

lemma those_index_encode:
  "those (map (index_byte url_alphabet) (raw_url_encode s)) = Some (sextets s)"
  by (induction s rule: raw_url_encode.induct) (simp_all add: sextets_def)

lemma high_bits_bound: "byte b div 16 < 16" "byte c div 64 < 4"
  using byte_bound [of b] byte_bound [of c] by linarith+

lemma high_bits [simp]:
  "byte b div 16 mod 16 = byte b div 16" "byte b div 16 div 16 = 0"
  "byte c div 64 mod 4 = byte c div 64" "byte c div 64 div 4 = 0"
  by (simp_all only: mod_less div_less high_bits_bound)

lemma decode_sextets_encode: "decode_sextets (sextets s) = Some s"
  by (induction s rule: raw_url_encode.induct) (simp_all add: sextets_def)

lemma raw_url_decode_encode [simp]: "raw_url_decode (raw_url_encode s) = Some s"
proof -
  have "filter (\<lambda>c. \<not> is_newline c) (raw_url_encode s) = raw_url_encode s"
    by (simp add: filter_id_conv raw_url_encode_plain)
  then show ?thesis
    by (simp add: raw_url_decode_def those_index_encode decode_sextets_encode)
qed

lemma raw_url_encode_inject [simp]: "raw_url_encode s = raw_url_encode t \<longleftrightarrow> s = t"
  by (metis option.inject raw_url_decode_encode)

lemma length_raw_url_encode [simp]: "length (raw_url_encode s) = encoded_len (length s)"
proof (induction s rule: raw_url_encode.induct)
  case (4 a b c s)
  have "encoded_len (length s + 3) = 4 + encoded_len (length s)"
    by (simp add: encoded_len_def div_add_self2 mod_add_self2)
  with 4 show ?case by (simp add: numeral_3_eq_3)
qed (simp_all add: encoded_len_def)

lemma raw_url_encode_Nil_iff [simp]: "raw_url_encode s = [] \<longleftrightarrow> s = []"
  by (cases s rule: raw_url_encode.cases) simp_all

lemma raw_url_decode_ascii:
  assumes "raw_url_decode s = Some r"
  shows "\<forall>c \<in> set s. byte c < 0x80"
proof
  fix c assume c: "c \<in> set s"
  have all: "those xs = Some ys \<Longrightarrow> None \<notin> set xs" for xs :: "nat option list" and ys
    by (induction xs arbitrary: ys) (auto split: option.splits)
  show "byte c < 0x80"
  proof (cases "is_newline c")
    case True
    then show ?thesis by (auto simp: is_newline_def)
  next
    case False
    obtain xs where "those (map (index_byte url_alphabet) (filter (\<lambda>c. \<not> is_newline c) s)) = Some xs"
      using assms by (auto simp: raw_url_decode_def bind_eq_Some_conv)
    then have "\<forall>d \<in> set (filter (\<lambda>c. \<not> is_newline c) s). index_byte url_alphabet d \<noteq> None"
      by (metis all image_eqI list.set_map)
    then have "index_byte url_alphabet c \<noteq> None" using False c by simp
    then obtain i where "index_byte url_alphabet c = Some i" by blast
    then have "c \<in> set url_alphabet" by (metis index_byte_Some nth_mem)
    with url_alphabet_plain show ?thesis by (simp add: list_all_iff)
  qed
qed

end
