(* ===== verification/GoCrypto.thy ===== *)
theory GoCrypto
  imports GoBase64
begin

text \<open>
  The cryptographic primitives and the readers the program calls. SHA-256 and Ed25519 are
  parameters of the model: a record of functions, with the documented behaviour the program
  relies on collected in \<open>crypto_ok\<close> (sizes, a private key that starts with its seed, and
  signatures that verify). Nothing is assumed about forgery; a statement that needs
  collision freedom says so for the two messages it compares.
\<close>

subsection \<open>SHA-256 and Ed25519\<close>

record crypto =
  sha256_sum :: "bytes \<Rightarrow> bytes"
  new_key_from_seed :: "bytes \<Rightarrow> bytes"
  ed25519_sign :: "bytes \<Rightarrow> bytes \<Rightarrow> bytes"
  ed25519_verify :: "bytes \<Rightarrow> bytes \<Rightarrow> bytes \<Rightarrow> bool"

abbreviation sha256_size :: nat where "sha256_size \<equiv> 32"
abbreviation seed_size :: nat where "seed_size \<equiv> 32"
abbreviation public_key_size :: nat where "public_key_size \<equiv> 32"
abbreviation private_key_size :: nat where "private_key_size \<equiv> 64"
abbreviation signature_size :: nat where "signature_size \<equiv> 64"

text \<open>\<open>PrivateKey.Public\<close> copies the second half of the private key.\<close>

definition public_of :: "bytes \<Rightarrow> bytes" where
  "public_of sk = drop seed_size sk"

definition crypto_ok :: "crypto \<Rightarrow> bool" where
  "crypto_ok c \<longleftrightarrow>
    (\<forall>m. length (sha256_sum c m) = sha256_size) \<and>
    (\<forall>seed. length seed = seed_size \<longrightarrow>
       length (new_key_from_seed c seed) = private_key_size \<and> take seed_size (new_key_from_seed c seed) = seed) \<and>
    (\<forall>sk m. length (ed25519_sign c sk m) = signature_size) \<and>
    (\<forall>seed m. length seed = seed_size \<longrightarrow>
       ed25519_verify c (public_of (new_key_from_seed c seed)) m (ed25519_sign c (new_key_from_seed c seed) m))"

lemma crypto_okD:
  assumes "crypto_ok c"
  shows "length (sha256_sum c m) = sha256_size"
    and "length seed = seed_size \<Longrightarrow> length (new_key_from_seed c seed) = private_key_size"
    and "length seed = seed_size \<Longrightarrow> take seed_size (new_key_from_seed c seed) = seed"
    and "length (ed25519_sign c sk m) = signature_size"
    and "length seed = seed_size \<Longrightarrow>
      ed25519_verify c (public_of (new_key_from_seed c seed)) m (ed25519_sign c (new_key_from_seed c seed) m)"
  using assms by (simp_all add: crypto_ok_def)

text \<open>
  An instance that satisfies \<open>crypto_ok\<close>, used where a concrete run is evaluated: the digest
  keeps the first bytes of the message, the public key repeats the seed, and a signature is
  the key's public half followed by the digest of the message.
\<close>

definition pad_to :: "nat \<Rightarrow> bytes \<Rightarrow> bytes" where
  "pad_to n s = take n (s @ replicate n (CHR 0x00))"

lemma length_pad_to [simp]: "length (pad_to n s) = n"
  by (simp add: pad_to_def)

definition sample_crypto :: crypto where
  "sample_crypto = \<lparr>sha256_sum = pad_to 32, new_key_from_seed = (\<lambda>s. s @ s),
     ed25519_sign = (\<lambda>sk m. pad_to 32 (public_of sk) @ pad_to 32 m),
     ed25519_verify = (\<lambda>pk m sg. sg = pad_to 32 pk @ pad_to 32 m)\<rparr>"

lemma sample_crypto_ok: "crypto_ok sample_crypto"
  by (simp add: crypto_ok_def sample_crypto_def public_of_def)

subsection \<open>Readers\<close>

text \<open>
  An \<open>io.Reader\<close> delivers some bytes and then ends or fails.
  \<open>read_limited r n\<close> is \<open>io.ReadAll(io.LimitReader(r, n))\<close>: at most \<open>n\<close> bytes, and no
  error when the limit is reached before the failure.
\<close>

record reader =
  rd_data :: bytes
  rd_fails :: bool

definition read_limited :: "reader \<Rightarrow> nat \<Rightarrow> bytes option" where
  "read_limited r n =
    (if n \<le> length (rd_data r) then Some (take n (rd_data r))
     else if rd_fails r then None else Some (rd_data r))"

definition bytes_reader :: "bytes \<Rightarrow> reader" where
  "bytes_reader s = \<lparr>rd_data = s, rd_fails = False\<rparr>"

lemma read_limited_length: "read_limited r n = Some s \<Longrightarrow> length s \<le> n"
  by (auto simp: read_limited_def split: if_splits)

lemma read_limited_bytes [simp]: "read_limited (bytes_reader s) n = Some (take n s)"
  by (simp add: read_limited_def bytes_reader_def)

end
