(* ===== verification/Policy.thy ===== *)
theory Policy
  imports GoJsonDecode GoCrypto
begin

text \<open>
  \<open>internal/manifest/keypolicy.go\<close>, with the two helpers of \<open>manifest.go\<close> it calls
  (\<open>KeyID\<close>, \<open>decodeStrict\<close>): the key policy signed by the offline root, its shape check,
  its signature, and the grant lookup. The lemmas show that an accepted policy splits the
  version numbers into consecutive ranges, one key each, that a policy the root signs is
  accepted, and that neither acceptance nor the digest depends on the order of the grants.
\<close>

subsection \<open>Data\<close>

record KeyGrant =
  kg_KeyID :: string
  kg_PublicKey :: string
  kg_Epoch :: uint64
  kg_NotBeforeVersion :: uint64
  kg_NotAfterVersion :: uint64

record KeyPolicy =
  kp_Version :: uint64
  kp_RootKeyID :: string
  kp_Keys :: "KeyGrant list"
  kp_Signature :: string

datatype decode_error = BadValue | TrailingData | TrailingValue

datatype policy_error =
    InvalidManifestPublicKey
  | InvalidRootPrivateKey
  | InvalidRootPublicKey
  | RootMismatch
  | PolicySignatureInvalid
  | PolicySignatureMismatch
  | KeyNotAuthorized string uint64
  | PolicyInvalidPublicKey
  | KeyAbsent string
  | PolicyReadFailed
  | PolicySizeInvalid
  | PolicyDecode decode_error
  | PolicyVersionZero
  | PolicyRootKeyIDInvalid
  | PolicyGrantCount
  | PolicySignatureSize
  | GrantInvalidKey nat
  | DuplicateGrant string
  | GrantZeroEpochOrStart string
  | GrantInvalidRange string
  | FirstGrantStart
  | OnlyFinalOpenEnded
  | NotContiguous
  | FinalNotOpenEnded

definition keyPolicyContext :: string where
  "keyPolicyContext = ''virtual-cloud-help-service/manifest-key-policy/v1''"

definition maxKeyPolicyBytes :: nat where "maxKeyPolicyBytes = 32 * 1024"
definition maxPolicyKeys :: nat where "maxPolicyKeys = 64"

definition zero_KeyGrant :: KeyGrant where
  "zero_KeyGrant = \<lparr>kg_KeyID = [], kg_PublicKey = [], kg_Epoch = 0, kg_NotBeforeVersion = 0,
     kg_NotAfterVersion = 0\<rparr>"

definition zero_KeyPolicy :: KeyPolicy where
  "zero_KeyPolicy = \<lparr>kp_Version = 0, kp_RootKeyID = [], kp_Keys = [], kp_Signature = []\<rparr>"

subsection \<open>Helpers of package \<open>manifest\<close>\<close>

definition KeyID :: "crypto \<Rightarrow> bytes \<Rightarrow> string" where
  "KeyID c publicKey = raw_url_encode (sha256_sum c publicKey)"

definition decodeStrict :: "(json \<Rightarrow> 'a \<Rightarrow> 'a option) \<Rightarrow> 'a \<Rightarrow> bytes \<Rightarrow> decode_error + 'a" where
  "decodeStrict dec target data =
    (case parse_json data of
       None \<Rightarrow> Inl BadValue
     | Some (v, rest) \<Rightarrow>
         (case dec v target of
            None \<Rightarrow> Inl BadValue
          | Some x \<Rightarrow>
              if skip_space rest = [] then Inr x
              else case parse_json rest of None \<Rightarrow> Inl TrailingData | Some _ \<Rightarrow> Inl TrailingValue))"

subsection \<open>JSON form\<close>

definition enc_KeyGrant :: "KeyGrant \<Rightarrow> json" where
  "enc_KeyGrant g = JObj
    [(''key_id'', enc_string (kg_KeyID g)),
     (''public_key'', enc_string (kg_PublicKey g)),
     (''epoch'', enc_uint (kg_Epoch g)),
     (''not_before_version'', enc_uint (kg_NotBeforeVersion g)),
     (''not_after_version'', enc_uint (kg_NotAfterVersion g))]"

definition KeyGrant_fields :: "KeyGrant field list" where
  "KeyGrant_fields =
    [(''key_id'', field_of dec_string kg_KeyID (\<lambda>x. kg_KeyID_update (\<lambda>_. x))),
     (''public_key'', field_of dec_string kg_PublicKey (\<lambda>x. kg_PublicKey_update (\<lambda>_. x))),
     (''epoch'', field_of dec_uint kg_Epoch (\<lambda>x. kg_Epoch_update (\<lambda>_. x))),
     (''not_before_version'', field_of dec_uint kg_NotBeforeVersion (\<lambda>x. kg_NotBeforeVersion_update (\<lambda>_. x))),
     (''not_after_version'', field_of dec_uint kg_NotAfterVersion (\<lambda>x. kg_NotAfterVersion_update (\<lambda>_. x)))]"

definition dec_KeyGrant :: "json \<Rightarrow> KeyGrant \<Rightarrow> KeyGrant option" where
  "dec_KeyGrant = dec_struct KeyGrant_fields"

definition enc_KeyPolicy :: "KeyPolicy \<Rightarrow> json" where
  "enc_KeyPolicy p = JObj
    [(''version'', enc_uint (kp_Version p)),
     (''root_key_id'', enc_string (kp_RootKeyID p)),
     (''keys'', enc_list enc_KeyGrant (kp_Keys p)),
     (''signature'', enc_string (kp_Signature p))]"

definition KeyPolicy_fields :: "KeyPolicy field list" where
  "KeyPolicy_fields =
    [(''version'', field_of dec_uint kp_Version (\<lambda>x. kp_Version_update (\<lambda>_. x))),
     (''root_key_id'', field_of dec_string kp_RootKeyID (\<lambda>x. kp_RootKeyID_update (\<lambda>_. x))),
     (''keys'', field_of (dec_list dec_KeyGrant zero_KeyGrant) kp_Keys (\<lambda>x. kp_Keys_update (\<lambda>_. x))),
     (''signature'', field_of dec_string kp_Signature (\<lambda>x. kp_Signature_update (\<lambda>_. x)))]"

definition dec_KeyPolicy :: "json \<Rightarrow> KeyPolicy \<Rightarrow> KeyPolicy option" where
  "dec_KeyPolicy = dec_struct KeyPolicy_fields"

definition enc_keyPolicyPayload :: "string \<Rightarrow> uint64 \<Rightarrow> string \<Rightarrow> KeyGrant list \<Rightarrow> json" where
  "enc_keyPolicyPayload ctxt version rootKeyID keys = JObj
    [(''context'', enc_string ctxt),
     (''version'', enc_uint version),
     (''root_key_id'', enc_string rootKeyID),
     (''keys'', enc_list enc_KeyGrant keys)]"

subsection \<open>Operations\<close>

definition keyGrantLess :: "KeyGrant \<Rightarrow> KeyGrant \<Rightarrow> bool" where
  "keyGrantLess a b =
    (if kg_NotBeforeVersion a = kg_NotBeforeVersion b then kg_KeyID a < kg_KeyID b
     else kg_NotBeforeVersion a < kg_NotBeforeVersion b)"

definition canonicalKeyGrants :: "KeyGrant list \<Rightarrow> KeyGrant list" where
  "canonicalKeyGrants grants = sort_slice keyGrantLess grants"

definition canonicalKeyPolicy :: "KeyPolicy \<Rightarrow> KeyPolicy" where
  "canonicalKeyPolicy policy = policy\<lparr>kp_Keys := canonicalKeyGrants (kp_Keys policy)\<rparr>"

definition keyPolicySigningBytes :: "KeyPolicy \<Rightarrow> bytes" where
  "keyPolicySigningBytes policy =
    print_json (enc_keyPolicyPayload keyPolicyContext (kp_Version policy) (kp_RootKeyID policy)
      (canonicalKeyGrants (kp_Keys policy)))"

text \<open>
  The loop of \<open>validateKeyPolicyShape\<close>: \<open>prev\<close> is \<open>grants[index-1]\<close>, absent at index 0;
  \<open>seen\<close> holds the keys of the map \<open>seenKeys\<close>.
\<close>

fun validateGrants ::
  "crypto \<Rightarrow> nat \<Rightarrow> KeyGrant option \<Rightarrow> string list \<Rightarrow> KeyGrant list \<Rightarrow> policy_error option" where
  "validateGrants c index prev seen [] = None"
| "validateGrants c index prev seen (grant # rest) =
    (if (case raw_url_decode (kg_PublicKey grant) of
           None \<Rightarrow> True
         | Some raw \<Rightarrow> length raw \<noteq> public_key_size \<or> KeyID c raw \<noteq> kg_KeyID grant)
     then Some (GrantInvalidKey index)
     else if kg_KeyID grant \<in> set seen then Some (DuplicateGrant (kg_KeyID grant))
     else if kg_Epoch grant = 0 \<or> kg_NotBeforeVersion grant = 0
     then Some (GrantZeroEpochOrStart (kg_KeyID grant))
     else if kg_NotAfterVersion grant \<noteq> 0 \<and> kg_NotAfterVersion grant < kg_NotBeforeVersion grant
     then Some (GrantInvalidRange (kg_KeyID grant))
     else
       case prev of
         None \<Rightarrow>
           if kg_Epoch grant \<noteq> 1 \<or> kg_NotBeforeVersion grant \<noteq> 1 then Some FirstGrantStart
           else validateGrants c (index + 1) (Some grant) (kg_KeyID grant # seen) rest
       | Some previous \<Rightarrow>
           if kg_NotAfterVersion previous = 0 \<or> kg_NotAfterVersion previous = - 1
           then Some OnlyFinalOpenEnded
           else if kg_Epoch grant \<noteq> kg_Epoch previous + 1 \<or>
             kg_NotBeforeVersion grant \<noteq> kg_NotAfterVersion previous + 1
           then Some NotContiguous
           else validateGrants c (index + 1) (Some grant) (kg_KeyID grant # seen) rest)"

definition validateKeyPolicyShape :: "crypto \<Rightarrow> KeyPolicy \<Rightarrow> policy_error option" where
  "validateKeyPolicyShape c policy =
    (if kp_Version policy = 0 then Some PolicyVersionZero
     else if length (kp_RootKeyID policy) \<noteq> encoded_len sha256_size then Some PolicyRootKeyIDInvalid
     else if length (kp_Keys policy) = 0 \<or> length (kp_Keys policy) > maxPolicyKeys then Some PolicyGrantCount
     else if kp_Signature policy \<noteq> [] \<and> length (kp_Signature policy) \<noteq> encoded_len signature_size
     then Some PolicySignatureSize
     else
       (let grants = canonicalKeyGrants (kp_Keys policy) in
        case validateGrants c 0 None [] grants of
          Some e \<Rightarrow> Some e
        | None \<Rightarrow>
            if kg_NotAfterVersion (grants ! (length grants - 1)) \<noteq> 0 then Some FinalNotOpenEnded
            else None))"

definition NewKeyGrant :: "crypto \<Rightarrow> bytes \<Rightarrow> uint64 \<Rightarrow> uint64 \<Rightarrow> uint64 \<Rightarrow> policy_error + KeyGrant" where
  "NewKeyGrant c publicKey epoch notBeforeVersion notAfterVersion =
    (if length publicKey \<noteq> public_key_size then Inl InvalidManifestPublicKey
     else Inr \<lparr>kg_KeyID = KeyID c publicKey, kg_PublicKey = raw_url_encode publicKey, kg_Epoch = epoch,
       kg_NotBeforeVersion = notBeforeVersion, kg_NotAfterVersion = notAfterVersion\<rparr>)"

definition validEd25519PrivateKey :: "crypto \<Rightarrow> bytes \<Rightarrow> bool" where
  "validEd25519PrivateKey c privateKey =
    (if length privateKey \<noteq> private_key_size then False
     else new_key_from_seed c (take seed_size privateKey) = privateKey)"

definition SignKeyPolicy :: "crypto \<Rightarrow> bytes \<Rightarrow> uint64 \<Rightarrow> KeyGrant list \<Rightarrow> policy_error + KeyPolicy" where
  "SignKeyPolicy c rootPrivateKey version grants =
    (if \<not> validEd25519PrivateKey c rootPrivateKey then Inl InvalidRootPrivateKey
     else
       (let rootPublicKey = public_of rootPrivateKey;
            policy = \<lparr>kp_Version = version, kp_RootKeyID = KeyID c rootPublicKey,
              kp_Keys = canonicalKeyGrants grants, kp_Signature = []\<rparr>
        in case validateKeyPolicyShape c policy of
             Some e \<Rightarrow> Inl e
           | None \<Rightarrow>
               Inr (policy\<lparr>kp_Signature :=
                 raw_url_encode (ed25519_sign c rootPrivateKey (keyPolicySigningBytes policy))\<rparr>)))"

definition ValidateKeyPolicy :: "crypto \<Rightarrow> KeyPolicy \<Rightarrow> bytes \<Rightarrow> policy_error + string" where
  "ValidateKeyPolicy c policy rootPublicKey =
    (if length rootPublicKey \<noteq> public_key_size then Inl InvalidRootPublicKey
     else case validateKeyPolicyShape c policy of
       Some e \<Rightarrow> Inl e
     | None \<Rightarrow>
         if kp_RootKeyID policy \<noteq> KeyID c rootPublicKey then Inl RootMismatch
         else case raw_url_decode (kp_Signature policy) of
           None \<Rightarrow> Inl PolicySignatureInvalid
         | Some signature \<Rightarrow>
             if length signature \<noteq> signature_size then Inl PolicySignatureInvalid
             else if \<not> ed25519_verify c rootPublicKey (keyPolicySigningBytes policy) signature
             then Inl PolicySignatureMismatch
             else Inr (raw_url_encode (sha256_sum c (print_json (enc_KeyPolicy
               \<lparr>kp_Version = kp_Version policy, kp_RootKeyID = kp_RootKeyID policy,
                kp_Keys = canonicalKeyGrants (kp_Keys policy), kp_Signature = kp_Signature policy\<rparr>)))))"

text \<open>\<open>authorizes\<close> is the negation of the guard of \<open>KeyPolicyGrant\<close>.\<close>

definition authorizes :: "KeyGrant \<Rightarrow> uint64 \<Rightarrow> bool" where
  "authorizes grant version \<longleftrightarrow>
    \<not> (version < kg_NotBeforeVersion grant \<or>
       (kg_NotAfterVersion grant \<noteq> 0 \<and> version > kg_NotAfterVersion grant))"

fun lookupGrant :: "KeyGrant list \<Rightarrow> string \<Rightarrow> uint64 \<Rightarrow> policy_error + (KeyGrant \<times> bytes)" where
  "lookupGrant [] keyID version = Inl (KeyAbsent keyID)"
| "lookupGrant (grant # rest) keyID version =
    (if kg_KeyID grant \<noteq> keyID then lookupGrant rest keyID version
     else if \<not> authorizes grant version then Inl (KeyNotAuthorized keyID version)
     else case raw_url_decode (kg_PublicKey grant) of
       None \<Rightarrow> Inl PolicyInvalidPublicKey
     | Some raw \<Rightarrow>
         if length raw \<noteq> public_key_size then Inl PolicyInvalidPublicKey else Inr (grant, raw))"

definition KeyPolicyGrant :: "KeyPolicy \<Rightarrow> string \<Rightarrow> uint64 \<Rightarrow> policy_error + (KeyGrant \<times> bytes)" where
  "KeyPolicyGrant policy keyID version = lookupGrant (kp_Keys policy) keyID version"

definition DecodeKeyPolicy :: "reader \<Rightarrow> policy_error + KeyPolicy" where
  "DecodeKeyPolicy rd =
    (case read_limited rd (maxKeyPolicyBytes + 1) of
       None \<Rightarrow> Inl PolicyReadFailed
     | Some data \<Rightarrow>
         if length data = 0 \<or> length data > maxKeyPolicyBytes then Inl PolicySizeInvalid
         else case decodeStrict dec_KeyPolicy zero_KeyPolicy data of
           Inl e \<Rightarrow> Inl (PolicyDecode e)
         | Inr policy \<Rightarrow> Inr policy)"

subsection \<open>Codecs\<close>

lemma raw_url_decode_utf8: "raw_url_decode s = Some r \<Longrightarrow> valid_utf8 s"
  by (rule ascii_valid_utf8) (rule raw_url_decode_ascii)

lemma raw_url_encode_utf8 [simp]: "valid_utf8 (raw_url_encode s)"
  by (rule raw_url_decode_utf8 [OF raw_url_decode_encode])

lemma unescaped_alphabet: "list_all unescaped url_alphabet"
  by (simp add: url_alphabet_def unescaped_def escape_ascii_def)

lemma json_escape_url [simp]: "json_escape h (raw_url_encode s) = raw_url_encode s"
proof (rule json_escape_unescaped, rule ballI)
  fix ch assume "ch \<in> set (raw_url_encode s)"
  then obtain n where "n < 64" "ch = url_alphabet ! n"
    using raw_url_encode_chars by (auto simp: sextet_char_def)
  then show "unescaped ch"
    using unescaped_alphabet by (simp add: list_all_length)
qed

definition KeyGrant_wf :: "KeyGrant \<Rightarrow> bool" where
  "KeyGrant_wf g \<longleftrightarrow> valid_utf8 (kg_KeyID g) \<and> valid_utf8 (kg_PublicKey g)"

definition KeyPolicy_wf :: "KeyPolicy \<Rightarrow> bool" where
  "KeyPolicy_wf p \<longleftrightarrow> valid_utf8 (kp_RootKeyID p) \<and> valid_utf8 (kp_Signature p) \<and>
     list_all KeyGrant_wf (kp_Keys p)"

lemmas codec_simps = find_field_def field_of_def plain_name_def is_digit_def plain_name_raw_ok

interpretation grant_codec: json_codec enc_KeyGrant dec_KeyGrant zero_KeyGrant KeyGrant_wf
  by unfold_locales
    (simp_all add: enc_KeyGrant_def dec_KeyGrant_def KeyGrant_fields_def zero_KeyGrant_def
      KeyGrant_wf_def codec_simps)

interpretation policy_codec: json_codec enc_KeyPolicy dec_KeyPolicy zero_KeyPolicy KeyPolicy_wf
  by unfold_locales
    (simp_all add: enc_KeyPolicy_def dec_KeyPolicy_def KeyPolicy_fields_def zero_KeyPolicy_def
      KeyPolicy_wf_def codec_simps grant_codec.dec_list_enc grant_codec.list_enc_ok)

context json_codec
begin

lemma decodeStrict_enc: "wf x \<Longrightarrow> decodeStrict dec zero (print_json (enc x)) = Inr x"
  by (simp add: decodeStrict_def parse_enc dec_enc skip_space_def)

lemma decodeStrict_enc_newline:
  "wf x \<Longrightarrow> decodeStrict dec zero (print_json (enc x) @ [CHR 0x0A]) = Inr x"
  by (simp add: decodeStrict_def parse_print_newline [OF enc_ok] dec_enc skip_space_def is_space_def)

end

subsection \<open>The canonical order of grants\<close>

interpretation grant_order: slice_order keyGrantLess "\<lambda>g. (kg_NotBeforeVersion g, kg_KeyID g)"
  by unfold_locales (auto simp: keyGrantLess_def less_prod_def)

lemma canonicalKeyGrants_simps [simp]:
  "set (canonicalKeyGrants gs) = set gs"
  "length (canonicalKeyGrants gs) = length gs"
  "canonicalKeyGrants gs = [] \<longleftrightarrow> gs = []"
  "distinct (map f (canonicalKeyGrants gs)) \<longleftrightarrow> distinct (map f gs)"
  "canonicalKeyGrants (canonicalKeyGrants gs) = canonicalKeyGrants gs"
  by (simp_all add: canonicalKeyGrants_def grant_order.sort_slice_idem)

lemma canonicalKeyGrants_perm:
  assumes "mset gs = mset hs" and "distinct (map kg_KeyID gs)"
  shows "canonicalKeyGrants gs = canonicalKeyGrants hs"
  unfolding canonicalKeyGrants_def using assms(1)
proof (rule grant_order.sort_slice_perm)
  show "distinct (map (\<lambda>g. (kg_NotBeforeVersion g, kg_KeyID g)) gs)"
    using assms(2) by (induction gs) auto
qed

subsection \<open>What an accepted shape means\<close>

text \<open>
  \<open>grant_ok\<close> is what the loop checks of a single grant and \<open>before g h\<close> what it gives for a
  grant and a later one: \<open>g\<close> ends before \<open>h\<close> starts and has the smaller epoch.
\<close>

definition grant_ok :: "crypto \<Rightarrow> KeyGrant \<Rightarrow> bool" where
  "grant_ok c g \<longleftrightarrow>
    (\<exists>raw. raw_url_decode (kg_PublicKey g) = Some raw \<and> length raw = public_key_size \<and> KeyID c raw = kg_KeyID g) \<and>
    kg_Epoch g \<noteq> 0 \<and> kg_NotBeforeVersion g \<noteq> 0 \<and>
    (kg_NotAfterVersion g \<noteq> 0 \<longrightarrow> kg_NotBeforeVersion g \<le> kg_NotAfterVersion g)"

definition before :: "KeyGrant \<Rightarrow> KeyGrant \<Rightarrow> bool" where
  "before g h \<longleftrightarrow> kg_NotAfterVersion g \<noteq> 0 \<and> kg_NotAfterVersion g < kg_NotBeforeVersion h \<and>
     kg_Epoch g < kg_Epoch h"

lemma before_trans: "before g h \<Longrightarrow> before h k \<Longrightarrow> grant_ok c h \<Longrightarrow> before g k"
  unfolding before_def grant_ok_def by (meson order.strict_trans order.strict_trans2)

lemma before_disjoint: "before g h \<Longrightarrow> authorizes g v \<Longrightarrow> \<not> authorizes h v"
  unfolding before_def authorizes_def by (meson not_less order.strict_trans2 order.strict_trans)

lemma word_less_Suc: "x \<noteq> - 1 \<Longrightarrow> x < x + (1 :: 'a::len word)"
  by (simp add: word_less_nat_alt unat_Suc_word)

lemma Suc_word_zero: "x + 1 \<noteq> 0 \<Longrightarrow> x \<noteq> (- 1 :: 'a::len word)"
  by auto

lemma contiguous_before:
  assumes "kg_NotAfterVersion p \<noteq> 0" "kg_NotAfterVersion p \<noteq> - 1" "kg_Epoch g = kg_Epoch p + 1"
    "kg_NotBeforeVersion g = kg_NotAfterVersion p + 1" "kg_Epoch g \<noteq> 0"
  shows "before p g"
  using assms by (auto simp: before_def intro: word_less_Suc)

lemma validateGrants_ok:
  assumes "validateGrants c i prev seen gs = None"
  shows "list_all (grant_ok c) gs \<and> distinct (map kg_KeyID gs) \<and> set (map kg_KeyID gs) \<inter> set seen = {}"
  using assms
  by (induction c i prev seen gs rule: validateGrants.induct)
    (auto simp: grant_ok_def not_less split: result_splits)

lemma validateGrants_sorted:
  assumes "validateGrants c i (Some p) seen gs = None" and "grant_ok c p"
  shows "sorted_wrt before (p # gs)"
  using assms
proof (induction gs arbitrary: i p seen)
  case (Cons g gs)
  have g: "grant_ok c g" and rest: "validateGrants c (i + 1) (Some g) (kg_KeyID g # seen) gs = None"
    using Cons.prems(1) validateGrants_ok [OF Cons.prems(1)] by (simp_all split: if_splits)
  have pg: "before p g"
    using Cons.prems(1) by (auto split: if_splits intro: contiguous_before)
  have "sorted_wrt before (g # gs)" using Cons.IH [OF rest g] .
  with pg g show ?case by (auto intro: before_trans)
qed simp

lemma validateGrants_covers:
  assumes "validateGrants c i (Some p) seen gs = None"
    and "kg_NotAfterVersion (last (p # gs)) = 0" and "kg_NotBeforeVersion p \<le> v"
  shows "\<exists>g \<in> set (p # gs). authorizes g v"
  using assms
proof (induction gs arbitrary: i p seen)
  case Nil
  then show ?case by (simp add: authorizes_def)
next
  case (Cons g gs)
  show ?case
  proof (cases "authorizes p v")
    case False
    with Cons.prems have "kg_NotAfterVersion p < v" by (auto simp: authorizes_def)
    then have "kg_NotBeforeVersion g \<le> v"
      using Cons.prems(1) by (auto split: if_splits intro: inc_le)
    moreover have "validateGrants c (i + 1) (Some g) (kg_KeyID g # seen) gs = None"
      using Cons.prems(1) by (simp split: if_splits)
    ultimately show ?thesis using Cons.IH Cons.prems(2) by fastforce
  qed simp
qed

lemma shape_grants:
  assumes "validateKeyPolicyShape c policy = None"
  obtains g gs where "canonicalKeyGrants (kp_Keys policy) = g # gs"
    "validateGrants c 1 (Some g) [kg_KeyID g] gs = None" "grant_ok c g"
    "kg_NotBeforeVersion g = 1" "kg_Epoch g = 1" "kg_NotAfterVersion (last (g # gs)) = 0"
proof -
  let ?gs = "canonicalKeyGrants (kp_Keys policy)"
  have ne: "?gs \<noteq> []" and ok: "validateGrants c 0 None [] ?gs = None"
    and lst: "kg_NotAfterVersion (last ?gs) = 0"
    using assms by (auto simp: validateKeyPolicyShape_def Let_def last_conv_nth split: result_splits)
  from ne obtain g gs where gs: "?gs = g # gs" by (cases ?gs) auto
  show thesis
  proof (rule that [OF gs])
    show "grant_ok c g" using validateGrants_ok [OF ok] gs by simp
    show "kg_NotAfterVersion (last (g # gs)) = 0" using lst gs by simp
  qed (use ok gs in \<open>auto split: if_splits\<close>)
qed

lemma shape_ok:
  assumes "validateKeyPolicyShape c policy = None"
  shows "distinct (map kg_KeyID (kp_Keys policy))" and "list_all (grant_ok c) (kp_Keys policy)"
    and "sorted_wrt before (canonicalKeyGrants (kp_Keys policy))"
    and "v \<noteq> 0 \<Longrightarrow> \<exists>g \<in> set (kp_Keys policy). authorizes g v"
proof -
  from shape_grants [OF assms] obtain g gs
    where gs: "canonicalKeyGrants (kp_Keys policy) = g # gs"
      and ok: "validateGrants c 1 (Some g) [kg_KeyID g] gs = None" "grant_ok c g"
      and g: "kg_NotBeforeVersion g = 1" "kg_NotAfterVersion (last (g # gs)) = 0"
    by blast
  have "distinct (map kg_KeyID (canonicalKeyGrants (kp_Keys policy)))"
    using validateGrants_ok [OF ok(1)] by (simp add: gs)
  then show "distinct (map kg_KeyID (kp_Keys policy))" by simp
  have "\<forall>x \<in> set (canonicalKeyGrants (kp_Keys policy)). grant_ok c x"
    using validateGrants_ok [OF ok(1)] ok(2) by (simp add: gs list_all_iff)
  then show "list_all (grant_ok c) (kp_Keys policy)" by (simp add: list_all_iff)
  show "sorted_wrt before (canonicalKeyGrants (kp_Keys policy))"
    unfolding gs using validateGrants_sorted [OF ok] .
  assume "v \<noteq> 0"
  then have "kg_NotBeforeVersion g \<le> v" by (simp add: g word_le_nat_alt Suc_leI unat_gt_0)
  from validateGrants_covers [OF ok(1) g(2) this]
  have "\<exists>x \<in> set (canonicalKeyGrants (kp_Keys policy)). authorizes x v" unfolding gs .
  then show "\<exists>g \<in> set (kp_Keys policy). authorizes g v" by simp
qed

lemma sorted_wrt_pairs:
  "sorted_wrt P xs \<Longrightarrow> x \<in> set xs \<Longrightarrow> y \<in> set xs \<Longrightarrow> x = y \<or> P x y \<or> P y x"
  by (induction xs) auto

lemma shape_order:
  assumes "validateKeyPolicyShape c policy = None" "g \<in> set (kp_Keys policy)" "h \<in> set (kp_Keys policy)"
  shows "g = h \<or> before g h \<or> before h g"
  using sorted_wrt_pairs [OF shape_ok(3) [OF assms(1)], of g h] assms(2,3) by simp

subsection \<open>The shape as a specification\<close>

text \<open>
  What a policy promises, without loop, map or wrap-around: grants \<open>1, 2, \<dots>\<close> in order cover
  consecutive version ranges that start at 1, with epochs that count up, and only the last
  one is open-ended.
\<close>

definition key_matches :: "crypto \<Rightarrow> KeyGrant \<Rightarrow> bool" where
  "key_matches c g \<longleftrightarrow>
    (case raw_url_decode (kg_PublicKey g) of
       None \<Rightarrow> False
     | Some raw \<Rightarrow> length raw = public_key_size \<and> KeyID c raw = kg_KeyID g)"

fun ranges :: "nat \<Rightarrow> nat \<Rightarrow> KeyGrant list \<Rightarrow> bool" where
  "ranges e s [] \<longleftrightarrow> False"
| "ranges e s [g] \<longleftrightarrow> unat (kg_Epoch g) = e \<and> unat (kg_NotBeforeVersion g) = s \<and> kg_NotAfterVersion g = 0"
| "ranges e s (g # gs) \<longleftrightarrow>
    unat (kg_Epoch g) = e \<and> unat (kg_NotBeforeVersion g) = s \<and> s \<le> unat (kg_NotAfterVersion g) \<and>
    ranges (e + 1) (unat (kg_NotAfterVersion g) + 1) gs"

definition policy_spec :: "crypto \<Rightarrow> KeyPolicy \<Rightarrow> bool" where
  "policy_spec c p \<longleftrightarrow>
    kp_Version p \<noteq> 0 \<and> length (kp_RootKeyID p) = 43 \<and>
    length (kp_Keys p) \<in> {1..64} \<and> length (kp_Signature p) \<in> {0, 86} \<and>
    distinct (map kg_KeyID (kp_Keys p)) \<and> list_all (key_matches c) (kp_Keys p) \<and>
    ranges 1 1 (canonicalKeyGrants (kp_Keys p))"

lemma succ_zero_iff: "x + 1 = 0 \<longleftrightarrow> x = - 1" for x :: "'a::len word"
  by (metis add.commute add.left_inverse add_left_cancel)

lemma unat_succ_iff: "unat y = unat x + 1 \<longleftrightarrow> x \<noteq> - 1 \<and> y = x + 1" for x y :: "'a::len word"
proof
  assume *: "unat y = unat x + 1"
  have "x \<noteq> - 1"
  proof
    assume "x = - 1"
    then have "unat y = 2 ^ LENGTH('a)" using * by (simp add: unsigned_minus_1_eq_mask mask_eq_exp_minus_1)
    then show False using unsigned_less [of y, where ?'a = nat] by simp
  qed
  then show "x \<noteq> - 1 \<and> y = x + 1" using * by (simp add: word_unat_eq_iff unat_Suc_word)
qed (simp add: unat_Suc_word)

lemma validateGrants_prev_iff:
  assumes "gs \<noteq> []" and "kg_NotBeforeVersion p \<noteq> 0"
  shows "validateGrants c i (Some p) seen gs = None \<and> kg_NotAfterVersion (last gs) = 0 \<longleftrightarrow>
    kg_NotAfterVersion p \<noteq> 0 \<and> list_all (key_matches c) gs \<and> distinct (map kg_KeyID gs) \<and>
    set (map kg_KeyID gs) \<inter> set seen = {} \<and>
    ranges (unat (kg_Epoch p) + 1) (unat (kg_NotAfterVersion p) + 1) gs"
  using assms
proof (induction gs arbitrary: i p seen)
  case (Cons g gs)
  have step: "validateGrants c i (Some p) seen (g # gs) = None \<longleftrightarrow>
    key_matches c g \<and> kg_KeyID g \<notin> set seen \<and> kg_NotAfterVersion p \<noteq> 0 \<and>
    unat (kg_Epoch g) = unat (kg_Epoch p) + 1 \<and>
    unat (kg_NotBeforeVersion g) = unat (kg_NotAfterVersion p) + 1 \<and>
    (kg_NotAfterVersion g = 0 \<or> kg_NotBeforeVersion g \<le> kg_NotAfterVersion g) \<and>
    validateGrants c (i + 1) (Some g) (kg_KeyID g # seen) gs = None"
    unfolding unat_succ_iff
    by (auto simp: key_matches_def not_less succ_zero_iff split: option.splits if_splits)
  show ?case
  proof (cases "gs = []")
    case True
    then show ?thesis unfolding step by auto
  next
    case False
    then have last: "last (g # gs) = last gs"
      and rng: "ranges e s (g # gs) \<longleftrightarrow> unat (kg_Epoch g) = e \<and> unat (kg_NotBeforeVersion g) = s \<and>
        s \<le> unat (kg_NotAfterVersion g) \<and> ranges (e + 1) (unat (kg_NotAfterVersion g) + 1) gs" for e s
      by (simp_all add: neq_Nil_conv) (auto simp: neq_Nil_conv)
    show ?thesis
    proof (cases "unat (kg_NotBeforeVersion g) = unat (kg_NotAfterVersion p) + 1")
      case True
      then have "kg_NotBeforeVersion g \<noteq> 0" by auto
      note IH = Cons.IH [OF False this, of "i + 1" "kg_KeyID g # seen"]
      show ?thesis
        unfolding step conj_assoc last IH rng by (auto simp: word_le_nat_alt)
    qed (simp add: step rng del: validateGrants.simps)
  qed
qed simp

lemma unat_one_iff: "unat x = Suc 0 \<longleftrightarrow> x = 1" for x :: "'a::len word"
  by (metis One_nat_def unat_1 word_unat_eq_iff)

lemma validateGrants_first_iff:
  assumes "gs \<noteq> []"
  shows "validateGrants c 0 None [] gs = None \<and> kg_NotAfterVersion (last gs) = 0 \<longleftrightarrow>
    list_all (key_matches c) gs \<and> distinct (map kg_KeyID gs) \<and> ranges 1 1 gs"
proof -
  from assms obtain g hs where gs: "gs = g # hs" by (cases gs) auto
  have step: "validateGrants c 0 None [] (g # hs) = None \<longleftrightarrow>
    key_matches c g \<and> unat (kg_Epoch g) = 1 \<and> unat (kg_NotBeforeVersion g) = 1 \<and>
    (kg_NotAfterVersion g = 0 \<or> kg_NotBeforeVersion g \<le> kg_NotAfterVersion g) \<and>
    validateGrants c 1 (Some g) [kg_KeyID g] hs = None"
    by (auto simp: key_matches_def not_less unat_one_iff split: option.splits if_splits)
  show ?thesis
  proof (cases "hs = []")
    case True
    then show ?thesis unfolding gs step by auto
  next
    case False
    then have last: "last (g # hs) = last hs"
      and rng: "ranges 1 1 (g # hs) \<longleftrightarrow> unat (kg_Epoch g) = 1 \<and> unat (kg_NotBeforeVersion g) = 1 \<and>
        1 \<le> unat (kg_NotAfterVersion g) \<and> ranges 2 (unat (kg_NotAfterVersion g) + 1) hs"
      by (simp_all add: neq_Nil_conv) (auto simp: neq_Nil_conv numeral_2_eq_2)
    show ?thesis
    proof (cases "unat (kg_NotBeforeVersion g) = 1")
      case True
      then have "kg_NotBeforeVersion g \<noteq> 0" by auto
      note IH = validateGrants_prev_iff [OF False this, of c 1 "[kg_KeyID g]"]
      show ?thesis
        unfolding gs step conj_assoc last IH rng
        by (auto simp: word_le_nat_alt numeral_2_eq_2)
    qed (simp add: gs step rng [unfolded One_nat_def] del: validateGrants.simps)
  qed
qed

subsection \<open>Signing and validating\<close>

lemma shape_canonical:
  "validateKeyPolicyShape c (p\<lparr>kp_Keys := canonicalKeyGrants gs\<rparr>) =
   validateKeyPolicyShape c (p\<lparr>kp_Keys := gs\<rparr>)"
  by (simp add: validateKeyPolicyShape_def)

lemma shape_signature:
  assumes "validateKeyPolicyShape c p = None" and "length sg = encoded_len signature_size"
  shows "validateKeyPolicyShape c (p\<lparr>kp_Signature := sg\<rparr>) = None"
  using assms by (simp add: validateKeyPolicyShape_def split: if_splits)

lemma signing_bytes_signature [simp]:
  "keyPolicySigningBytes (p\<lparr>kp_Signature := sg\<rparr>) = keyPolicySigningBytes p"
  by (simp add: keyPolicySigningBytes_def)

lemma length_KeyID: "crypto_ok c \<Longrightarrow> length (KeyID c k) = encoded_len sha256_size"
  by (simp add: KeyID_def crypto_okD)

lemma private_key:
  assumes "validEd25519PrivateKey c sk" and "crypto_ok c"
  shows "length (public_of sk) = public_key_size"
    and "ed25519_verify c (public_of sk) m (ed25519_sign c sk m)"
proof -
  have len: "length sk = private_key_size" and sk: "new_key_from_seed c (take seed_size sk) = sk"
    using assms(1) by (auto simp: validEd25519PrivateKey_def split: if_splits)
  then show "length (public_of sk) = public_key_size" by (simp add: public_of_def)
  show "ed25519_verify c (public_of sk) m (ed25519_sign c sk m)"
    using crypto_okD(5) [OF assms(2), of "take seed_size sk" m] len sk by simp
qed

lemma grant_ok_wf: "grant_ok c g \<Longrightarrow> KeyGrant_wf g"
  by (metis grant_ok_def KeyGrant_wf_def KeyID_def raw_url_decode_utf8 raw_url_encode_utf8)

lemma ValidateKeyPolicy_ok:
  assumes "ValidateKeyPolicy c p root = Inr d"
  shows "length root = public_key_size" and "validateKeyPolicyShape c p = None"
    and "kp_RootKeyID p = KeyID c root" and "\<exists>sg. raw_url_decode (kp_Signature p) = Some sg \<and>
      length sg = signature_size \<and> ed25519_verify c root (keyPolicySigningBytes p) sg"
    and "d = raw_url_encode (sha256_sum c (print_json (enc_KeyPolicy (canonicalKeyPolicy p))))"
  using assms by (auto simp: ValidateKeyPolicy_def canonicalKeyPolicy_def enc_KeyPolicy_def split: result_splits)

lemma ValidateKeyPolicy_wf:
  assumes "ValidateKeyPolicy c p root = Inr d"
  shows "KeyPolicy_wf p"
proof -
  have "list_all KeyGrant_wf (kp_Keys p)"
    using shape_ok(2) [OF ValidateKeyPolicy_ok(2) [OF assms]] by (auto simp: list_all_iff intro: grant_ok_wf)
  then show ?thesis
    using ValidateKeyPolicy_ok(3,4) [OF assms] raw_url_decode_utf8
    by (auto simp: KeyPolicy_wf_def KeyID_def)
qed

lemma SignKeyPolicy_ok:
  assumes "SignKeyPolicy c sk v gs = Inr p"
  obtains q where "q = \<lparr>kp_Version = v, kp_RootKeyID = KeyID c (public_of sk),
      kp_Keys = canonicalKeyGrants gs, kp_Signature = []\<rparr>"
    "validEd25519PrivateKey c sk" "validateKeyPolicyShape c q = None"
    "p = q\<lparr>kp_Signature := raw_url_encode (ed25519_sign c sk (keyPolicySigningBytes q))\<rparr>"
  using assms by (auto simp: SignKeyPolicy_def Let_def split: result_splits)

lemma Sign_Validate:
  assumes "crypto_ok c" and "SignKeyPolicy c sk v gs = Inr p"
  shows "\<exists>d. ValidateKeyPolicy c p (public_of sk) = Inr d"
proof -
  from SignKeyPolicy_ok [OF assms(2)] obtain q
    where q: "q = \<lparr>kp_Version = v, kp_RootKeyID = KeyID c (public_of sk),
        kp_Keys = canonicalKeyGrants gs, kp_Signature = []\<rparr>"
      and sk: "validEd25519PrivateKey c sk" and shape: "validateKeyPolicyShape c q = None"
      and p: "p = q\<lparr>kp_Signature := raw_url_encode (ed25519_sign c sk (keyPolicySigningBytes q))\<rparr>"
    by blast
  have "validateKeyPolicyShape c p = None"
    unfolding p by (rule shape_signature [OF shape]) (simp add: crypto_okD [OF assms(1)])
  moreover have "kp_RootKeyID p = KeyID c (public_of sk)" by (simp add: p q)
  ultimately show ?thesis
    using private_key [OF sk assms(1)] crypto_okD(4) [OF assms(1)]
    by (simp add: ValidateKeyPolicy_def p)
qed

subsection \<open>Grant lookup\<close>

lemma lookupGrant_Inr:
  assumes "lookupGrant gs k v = Inr (g, raw)"
  shows "g \<in> set gs \<and> kg_KeyID g = k \<and> authorizes g v \<and> raw_url_decode (kg_PublicKey g) = Some raw"
  using assms by (induction gs) (auto split: result_splits)

lemma lookupGrant_complete:
  assumes "distinct (map kg_KeyID gs)" "g \<in> set gs" "authorizes g v"
    "raw_url_decode (kg_PublicKey g) = Some raw" "length raw = public_key_size"
  shows "lookupGrant gs (kg_KeyID g) v = Inr (g, raw)"
  using assms by (induction gs) auto

lemma KeyPolicyGrant_iff:
  assumes "validateKeyPolicyShape c p = None"
  shows "KeyPolicyGrant p k v = Inr (g, raw) \<longleftrightarrow>
    g \<in> set (kp_Keys p) \<and> kg_KeyID g = k \<and> authorizes g v \<and> raw_url_decode (kg_PublicKey g) = Some raw"
proof -
  have "length r = public_key_size"
    if "h \<in> set (kp_Keys p)" "raw_url_decode (kg_PublicKey h) = Some r" for h r
    using shape_ok(2) [OF assms] that by (auto simp: list_all_iff grant_ok_def)
  then show ?thesis
    unfolding KeyPolicyGrant_def
    using lookupGrant_Inr lookupGrant_complete [OF shape_ok(1) [OF assms]] by metis
qed

lemma KeyPolicyGrant_key:
  assumes "validateKeyPolicyShape c p = None" and "KeyPolicyGrant p k v = Inr (g, raw)"
  shows "KeyID c raw = k" and "length raw = public_key_size" and "kg_Epoch g \<noteq> 0"
proof -
  have "g \<in> set (kp_Keys p)" "kg_KeyID g = k" "raw_url_decode (kg_PublicKey g) = Some raw"
    using assms(2) KeyPolicyGrant_iff [OF assms(1)] by auto
  moreover have "grant_ok c g"
    using shape_ok(2) [OF assms(1)] calculation(1) by (simp add: list_all_iff)
  ultimately show "KeyID c raw = k" "length raw = public_key_size" "kg_Epoch g \<noteq> 0"
    by (auto simp: grant_ok_def)
qed

lemma KeyPolicyGrant_unique:
  assumes "validateKeyPolicyShape c p = None"
    and "KeyPolicyGrant p k v = Inr (g, r)" "KeyPolicyGrant p k' v = Inr (g', r')"
  shows "g = g' \<and> k = k' \<and> r = r'"
  using assms KeyPolicyGrant_iff [OF assms(1)] shape_order [OF assms(1), of g g'] before_disjoint
  by (metis option.inject)

lemma KeyPolicyGrant_exists:
  assumes "validateKeyPolicyShape c p = None" and "v \<noteq> 0"
  shows "\<exists>k g r. KeyPolicyGrant p k v = Inr (g, r)"
proof -
  obtain g where g: "g \<in> set (kp_Keys p)" "authorizes g v"
    using shape_ok(4) [OF assms] by blast
  then have "grant_ok c g" using shape_ok(2) [OF assms(1)] by (simp add: list_all_iff)
  then show ?thesis using g KeyPolicyGrant_iff [OF assms(1)] by (auto simp: grant_ok_def)
qed

lemma KeyPolicyGrant_epochs:
  assumes "validateKeyPolicyShape c p = None"
    and "KeyPolicyGrant p k v = Inr (g, r)" "KeyPolicyGrant p k' v' = Inr (g', r')" "v \<le> v'"
  shows "kg_Epoch g \<le> kg_Epoch g' \<and> (k = k' \<longleftrightarrow> kg_Epoch g = kg_Epoch g')"
proof -
  have in_p: "g \<in> set (kp_Keys p)" "kg_KeyID g = k" "authorizes g v"
    "g' \<in> set (kp_Keys p)" "kg_KeyID g' = k'" "authorizes g' v'"
    using assms(2,3) KeyPolicyGrant_iff [OF assms(1)] by auto
  have no: "\<not> before g' g"
  proof
    assume "before g' g"
    then have "kg_NotAfterVersion g' < v" "kg_NotAfterVersion g' \<noteq> 0"
      using in_p(3) by (auto simp: before_def authorizes_def not_less)
    with in_p(6) assms(4) show False by (auto simp: authorizes_def)
  qed
  have "k = k' \<longleftrightarrow> g = g'"
    using in_p shape_ok(1) [OF assms(1)] by (metis inj_onD inj_on_distinct_map)
  with no show ?thesis
    using shape_order [OF assms(1) in_p(1,4)] by (auto simp: before_def)
qed

lemma ValidateKeyPolicy_perm:
  assumes "ValidateKeyPolicy c policy root = Inr digest" and "mset grants = mset (kp_Keys policy)"
  shows "ValidateKeyPolicy c (policy\<lparr>kp_Keys := grants\<rparr>) root = Inr digest \<and>
    (KeyPolicyGrant (policy\<lparr>kp_Keys := grants\<rparr>) k v = Inr (g, raw) \<longleftrightarrow>
      KeyPolicyGrant policy k v = Inr (g, raw))"
proof -
  let ?q = "policy\<lparr>kp_Keys := grants\<rparr>"
  note shape = ValidateKeyPolicy_ok(2) [OF assms(1)]
  have can: "canonicalKeyGrants grants = canonicalKeyGrants (kp_Keys policy)"
    by (metis assms(2) canonicalKeyGrants_perm shape shape_ok(1))
  have len: "length grants = length (kp_Keys policy)" using assms(2) by (metis size_mset)
  have "validateKeyPolicyShape c ?q = validateKeyPolicyShape c policy"
    by (simp add: validateKeyPolicyShape_def can len)
  then have q: "validateKeyPolicyShape c ?q = None" using shape by simp
  moreover have "keyPolicySigningBytes ?q = keyPolicySigningBytes policy"
    by (simp add: keyPolicySigningBytes_def can)
  ultimately have "ValidateKeyPolicy c ?q root = ValidateKeyPolicy c policy root"
    using shape by (simp add: ValidateKeyPolicy_def can cong: option.case_cong if_cong)
  moreover have "set grants = set (kp_Keys policy)" using assms(2) by (rule mset_eq_setD)
  ultimately show ?thesis
    using assms(1) by (simp add: KeyPolicyGrant_iff [OF q] KeyPolicyGrant_iff [OF shape])
qed

subsection \<open>The size of a policy\<close>

lemma length_print_elems:
  "\<forall>x \<in> set xs. length (print_json (f x)) \<le> n \<Longrightarrow>
   length (print_json (enc_list f xs)) \<le> 4 + length xs * (n + 1)"
proof -
  assume "\<forall>x \<in> set xs. length (print_json (f x)) \<le> n"
  then have "length (print_elems (map f xs)) \<le> 1 + length xs * (n + 1)"
    by (induction xs) auto
  then show ?thesis by (auto simp: enc_list_def)
qed

lemma length_KeyGrant:
  assumes "crypto_ok c" and "NewKeyGrant c pk e nb na = Inr g"
  shows "length (print_json (enc_KeyGrant g)) \<le> 230"
proof -
  have g: "kg_KeyID g = KeyID c pk" "kg_PublicKey g = raw_url_encode pk" "length pk = 32"
    using assms(2) by (auto simp: NewKeyGrant_def split: if_splits)
  show ?thesis
    using length_dec_text_uint64 [of "kg_Epoch g"] length_dec_text_uint64 [of "kg_NotBeforeVersion g"]
      length_dec_text_uint64 [of "kg_NotAfterVersion g"] crypto_okD(1) [OF assms(1), of pk]
    by (simp add: enc_KeyGrant_def g enc_string_def enc_uint_def KeyID_def encoded_len_def)
qed

lemma length_signed_policy:
  assumes "crypto_ok c" and "SignKeyPolicy c sk v gs = Inr p"
    and "\<forall>g \<in> set gs. \<exists>pk e nb na. NewKeyGrant c pk e nb na = Inr g"
  shows "length (print_json (enc_KeyPolicy p)) \<le> maxKeyPolicyBytes"
proof -
  from SignKeyPolicy_ok [OF assms(2)] obtain q
    where q: "q = \<lparr>kp_Version = v, kp_RootKeyID = KeyID c (public_of sk),
        kp_Keys = canonicalKeyGrants gs, kp_Signature = []\<rparr>"
      and shape: "validateKeyPolicyShape c q = None"
      and p: "p = q\<lparr>kp_Signature := raw_url_encode (ed25519_sign c sk (keyPolicySigningBytes q))\<rparr>"
    by blast
  have "length gs \<le> 64"
    using shape by (simp add: validateKeyPolicyShape_def q maxPolicyKeys_def split: if_splits)
  moreover have "\<forall>g \<in> set (canonicalKeyGrants gs). length (print_json (enc_KeyGrant g)) \<le> 230"
    using assms(3) length_KeyGrant [OF assms(1)] by fastforce
  ultimately have "length (print_json (enc_list enc_KeyGrant (canonicalKeyGrants gs))) \<le> 4 + 64 * 231"
    using length_print_elems [of "canonicalKeyGrants gs" enc_KeyGrant 230] by simp
  then show ?thesis
    using length_dec_text_uint64 [of v] crypto_okD(1,4) [OF assms(1)]
    by (simp add: p q enc_KeyPolicy_def enc_string_def enc_uint_def KeyID_def encoded_len_def maxKeyPolicyBytes_def)
qed

subsection \<open>A sample policy\<close>

text \<open>Two online keys: key \<open>a\<close> for versions 1 to 10, key \<open>b\<close> from 11 on.\<close>

definition sample_key :: "char \<Rightarrow> bytes" where
  "sample_key ch = replicate 64 ch"

definition sample_grant :: "char \<Rightarrow> uint64 \<Rightarrow> uint64 \<Rightarrow> uint64 \<Rightarrow> KeyGrant" where
  "sample_grant ch e nb na = \<lparr>kg_KeyID = KeyID sample_crypto (replicate 32 ch),
     kg_PublicKey = raw_url_encode (replicate 32 ch), kg_Epoch = e, kg_NotBeforeVersion = nb,
     kg_NotAfterVersion = na\<rparr>"

definition sample_grants :: "KeyGrant list" where
  "sample_grants = [sample_grant CHR ''b'' 2 11 0, sample_grant CHR ''a'' 1 1 10]"

definition sample_policy :: KeyPolicy where
  "sample_policy = (case SignKeyPolicy sample_crypto (sample_key CHR ''r'') 1 sample_grants of
     Inr p \<Rightarrow> p | Inl _ \<Rightarrow> zero_KeyPolicy)"

lemma sample_grants_canonical:
  "canonicalKeyGrants sample_grants = rev sample_grants"
  "canonicalKeyGrants (rev sample_grants) = rev sample_grants"
  by (simp_all add: canonicalKeyGrants_def sample_grants_def sort_slice_def keyGrantLess_def sample_grant_def)

lemma sample_KeyID: "KeyID sample_crypto (replicate 32 ch) = raw_url_encode (replicate 32 ch)"
  by (simp add: KeyID_def sample_crypto_def pad_to_def)

lemma sample_valid_key: "validEd25519PrivateKey sample_crypto (sample_key ch)"
  by (simp add: validEd25519PrivateKey_def sample_key_def sample_crypto_def replicate_add [symmetric])

lemma sample_public: "public_of (sample_key ch) = replicate 32 ch"
  by (simp add: public_of_def sample_key_def)

lemma sample_policy_signed: "SignKeyPolicy sample_crypto (sample_key CHR ''r'') 1 sample_grants = Inr sample_policy"
proof -
  have "validateGrants sample_crypto 0 None [] (rev sample_grants) = None"
    by (simp add: sample_grants_def sample_grant_def sample_KeyID)
  moreover have "length sample_grants = 2" "kg_NotAfterVersion (rev sample_grants ! Suc 0) = 0"
    by (simp_all add: sample_grants_def sample_grant_def)
  ultimately have "ok (SignKeyPolicy sample_crypto (sample_key CHR ''r'') 1 sample_grants)"
    by (auto simp: SignKeyPolicy_def sample_valid_key sample_public sample_KeyID sample_grants_canonical
        validateKeyPolicyShape_def Let_def maxPolicyKeys_def)
  then show ?thesis by (auto simp: sample_policy_def ok_iff)
qed

lemma sample_policy_shape: "validateKeyPolicyShape sample_crypto sample_policy = None"
  using Sign_Validate [OF sample_crypto_ok sample_policy_signed] ValidateKeyPolicy_ok(2) by blast

lemma sample_grants_new: "\<forall>g \<in> set sample_grants. \<exists>pk e nb na. NewKeyGrant sample_crypto pk e nb na = Inr g"
proof -
  have "NewKeyGrant sample_crypto (replicate 32 ch) e nb na = Inr (sample_grant ch e nb na)" for ch e nb na
    by (simp add: NewKeyGrant_def sample_grant_def)
  then show ?thesis unfolding sample_grants_def by (metis empty_iff empty_set set_ConsD)
qed

subsection \<open>Properties\<close>

text \<open>
  C2. The shape check, with its sort, its map of seen keys and its wrap-around guards, accepts
  a policy exactly when the policy meets the specification: a positive version, well-sized
  identifiers, 1 to 64 distinct keys that match their identifiers, and in canonical order
  epochs 1, 2, ... over consecutive version ranges starting at 1 of which only the last is
  open-ended.
\<close>
theorem validateKeyPolicyShape_refines:
  "validateKeyPolicyShape c policy = None \<longleftrightarrow> policy_spec c policy"
proof -
  let ?gs = "canonicalKeyGrants (kp_Keys policy)"
  have lens: "encoded_len sha256_size = 43" "encoded_len signature_size = 86"
    by (simp_all add: encoded_len_def)
  have eq: "list_all (key_matches c) ?gs \<longleftrightarrow> list_all (key_matches c) (kp_Keys policy)"
    by (simp add: list_all_iff)
  have "validateKeyPolicyShape c policy = None \<longleftrightarrow>
    kp_Version policy \<noteq> 0 \<and> length (kp_RootKeyID policy) = 43 \<and> length (kp_Keys policy) \<in> {1..64} \<and>
    length (kp_Signature policy) \<in> {0, 86} \<and>
    validateGrants c 0 None [] ?gs = None \<and> kg_NotAfterVersion (last ?gs) = 0"
    by (auto simp: validateKeyPolicyShape_def Let_def lens maxPolicyKeys_def last_conv_nth Suc_le_eq
        split: option.splits)
  moreover have "validateGrants c 0 None [] ?gs = None \<and> kg_NotAfterVersion (last ?gs) = 0 \<longleftrightarrow>
      list_all (key_matches c) ?gs \<and> distinct (map kg_KeyID ?gs) \<and> ranges 1 1 ?gs"
    if "length (kp_Keys policy) \<in> {1..64}"
    using that by (intro validateGrants_first_iff) auto
  ultimately show ?thesis
    unfolding policy_spec_def eq by auto
qed

text \<open>
  C3. Under an accepted policy every positive version has exactly one signing key: one key
  identifier is granted that version, and the public key handed back is the one it names.
\<close>
theorem KeyPolicyGrant_one_signer:
  assumes "validateKeyPolicyShape c policy = None" and "version \<noteq> 0"
  shows "\<exists>!keyID. \<exists>grant raw. KeyPolicyGrant policy keyID version = Inr (grant, raw) \<and>
    KeyID c raw = keyID \<and> length raw = public_key_size"
  using KeyPolicyGrant_exists [OF assms] KeyPolicyGrant_unique [OF assms(1)]
    KeyPolicyGrant_key [OF assms(1)] by metis

theorem KeyPolicyGrant_one_signer_witness:
  "\<exists>!keyID. \<exists>grant raw. KeyPolicyGrant sample_policy keyID 10 = Inr (grant, raw) \<and>
    KeyID sample_crypto raw = keyID \<and> length raw = public_key_size"
  by (rule KeyPolicyGrant_one_signer [OF sample_policy_shape]) simp

text \<open>
  C4. Later versions never go back to an earlier key: the epochs of the granted keys are
  monotone in the version, and equal exactly when the key is the same.
\<close>
theorem KeyPolicyGrant_epochs_advance:
  assumes "validateKeyPolicyShape c policy = None"
    and "KeyPolicyGrant policy k v = Inr (g, r)" and "KeyPolicyGrant policy k' v' = Inr (g', r')"
    and "v \<le> v'"
  shows "kg_Epoch g \<le> kg_Epoch g' \<and> (k = k' \<longleftrightarrow> kg_Epoch g = kg_Epoch g')"
  using assms by (rule KeyPolicyGrant_epochs)

theorem KeyPolicyGrant_epochs_advance_witness:
  "\<exists>g r g' r' k k'. KeyPolicyGrant sample_policy k 10 = Inr (g, r) \<and>
     KeyPolicyGrant sample_policy k' 11 = Inr (g', r') \<and> kg_Epoch g \<le> kg_Epoch g' \<and>
     (k = k' \<longleftrightarrow> kg_Epoch g = kg_Epoch g')"
proof -
  have "(10 :: uint64) \<noteq> 0" "(11 :: uint64) \<noteq> 0" "(10 :: uint64) \<le> 11" by simp_all
  then obtain k g r k' g' r' where "KeyPolicyGrant sample_policy k 10 = Inr (g, r)"
    "KeyPolicyGrant sample_policy k' 11 = Inr (g', r')"
    using KeyPolicyGrant_exists [OF sample_policy_shape] by metis
  then show ?thesis
    using KeyPolicyGrant_epochs_advance [OF sample_policy_shape _ _ \<open>10 \<le> 11\<close>] by blast
qed

lemma SignKeyPolicy_decodes:
  assumes "crypto_ok c" and "SignKeyPolicy c rootPrivateKey version grants = Inr policy"
    and "\<forall>g \<in> set grants. \<exists>pk e nb na. NewKeyGrant c pk e nb na = Inr g"
  shows "DecodeKeyPolicy (bytes_reader (print_json (enc_KeyPolicy policy))) = Inr policy"
proof -
  obtain d where d: "ValidateKeyPolicy c policy (public_of rootPrivateKey) = Inr d"
    using Sign_Validate [OF assms(1,2)] by blast
  have "decodeStrict dec_KeyPolicy zero_KeyPolicy (print_json (enc_KeyPolicy policy)) = Inr policy"
    by (rule policy_codec.decodeStrict_enc) (rule ValidateKeyPolicy_wf [OF d])
  moreover have "print_json (enc_KeyPolicy policy) \<noteq> []" by (simp add: enc_KeyPolicy_def)
  ultimately show ?thesis using length_signed_policy [OF assms] by (auto simp: DecodeKeyPolicy_def)
qed

lemma SignKeyPolicy_accepted:
  assumes "crypto_ok c" and "SignKeyPolicy c rootPrivateKey version grants = Inr policy"
    and "\<forall>g \<in> set grants. \<exists>pk e nb na. NewKeyGrant c pk e nb na = Inr g"
  shows "(\<exists>digest. ValidateKeyPolicy c policy (public_of rootPrivateKey) = Inr digest \<and> length digest = 43) \<and>
    DecodeKeyPolicy (bytes_reader (print_json (enc_KeyPolicy policy))) = Inr policy"
proof -
  obtain d where d: "ValidateKeyPolicy c policy (public_of rootPrivateKey) = Inr d"
    using Sign_Validate [OF assms(1,2)] by blast
  have "length d = 43"
    using ValidateKeyPolicy_ok(5) [OF d] crypto_okD(1) [OF assms(1)] by (simp add: encoded_len_def)
  with d SignKeyPolicy_decodes [OF assms] show ?thesis by blast
qed

text \<open>
  C6. The order in which a policy lists its grants is irrelevant: a permutation of an
  accepted policy is accepted with the same digest, and its grants answer every lookup alike.
\<close>
theorem ValidateKeyPolicy_permutation:
  assumes "ValidateKeyPolicy c policy root = Inr digest" and "mset grants = mset (kp_Keys policy)"
  shows "ValidateKeyPolicy c (policy\<lparr>kp_Keys := grants\<rparr>) root = Inr digest \<and>
    (KeyPolicyGrant (policy\<lparr>kp_Keys := grants\<rparr>) k v = Inr (g, raw) \<longleftrightarrow>
      KeyPolicyGrant policy k v = Inr (g, raw))"
  using assms by (rule ValidateKeyPolicy_perm)

theorem ValidateKeyPolicy_permutation_witness:
  "\<exists>digest. ValidateKeyPolicy sample_crypto sample_policy (public_of (sample_key CHR ''r'')) = Inr digest \<and>
    ValidateKeyPolicy sample_crypto (sample_policy\<lparr>kp_Keys := rev (kp_Keys sample_policy)\<rparr>)
      (public_of (sample_key CHR ''r'')) = Inr digest"
  using Sign_Validate [OF sample_crypto_ok sample_policy_signed]
    ValidateKeyPolicy_permutation [of sample_crypto sample_policy _ _ "rev (kp_Keys sample_policy)"]
  by fastforce

end
