(* ===== verification/GoNet.thy ===== *)
theory GoNet
  imports GoJsonText
begin

text \<open>
  What the sources use of \<open>net\<close>, \<open>net/netip\<close> and \<open>net/url\<close>: IP addresses, host and port
  of an address, and request URIs. Results the sources only test for failure are options.
  URLs follow the parser of Go 1.26 and later: a bracketed host is an IPv6 literal, and an
  unbracketed host has at most one colon. \<open>ParseRequestURI\<close> never splits off a fragment.
\<close>

subsection \<open>IP addresses\<close>

fun split_on :: "char \<Rightarrow> string \<Rightarrow> string list" where
  "split_on d [] = [[]]"
| "split_on d (c # s) =
    (if c = d then [] # split_on d s
     else (case split_on d s of [] \<Rightarrow> [[c]] | p # ps \<Rightarrow> (c # p) # ps))"

definition octet :: "string \<Rightarrow> nat option" where
  "octet s =
    (if s \<noteq> [] \<and> list_all is_digit s \<and> length s \<le> 3 \<and> (has_prefix s ''0'' \<longrightarrow> s = ''0'') \<and> digits_value s \<le> 255
     then Some (nat (digits_value s)) else None)"

definition parse_ipv4 :: "string \<Rightarrow> nat list option" where
  "parse_ipv4 s = (let fs = split_on (CHR ''.'') s in if length fs = 4 then those (map octet fs) else None)"

definition group_value :: "string \<Rightarrow> nat" where
  "group_value ds = foldl (\<lambda>n c. n * 16 + (case hex_val c of Some d \<Rightarrow> d | None \<Rightarrow> 0)) 0 ds"

text \<open>
  The loop of \<open>parseIPv6\<close>: \<open>n\<close> groups of two bytes are left, \<open>ip\<close> holds the bytes so far and
  \<open>ell\<close> the position of the ellipsis. The result carries what is left of the string.
\<close>

fun parse_groups :: "nat \<Rightarrow> string \<Rightarrow> nat list \<Rightarrow> nat option \<Rightarrow> (nat list \<times> nat option \<times> string) option" where
  "parse_groups 0 s ip ell = Some (ip, ell, s)"
| "parse_groups (Suc n) s ip ell =
    (let ds = takeWhile is_hex s; r = dropWhile is_hex s;
         ip' = ip @ [group_value ds div 256, group_value ds mod 256] in
     if ds = [] \<or> 4 < length ds then None
     else if has_prefix r ''.'' then
       (if ell = None \<and> length ip \<noteq> 12 then None
        else if 16 < length ip + 4 then None
        else map_option (\<lambda>f. (ip @ f, ell, [])) (parse_ipv4 s))
     else case r of
         [] \<Rightarrow> Some (ip', ell, [])
       | c # t \<Rightarrow>
           if c \<noteq> CHR '':'' \<or> t = [] then None
           else if hd t = CHR '':'' then
             (if ell \<noteq> None then None
              else if tl t = [] then Some (ip', Some (length ip'), [])
              else parse_groups n (tl t) ip' (Some (length ip')))
           else parse_groups n t ip' ell)"

definition parse_ipv6 :: "string \<Rightarrow> nat list option" where
  "parse_ipv6 s =
    (let lead = has_prefix s ''::''; t = (if lead then drop 2 s else s) in
     if lead \<and> t = [] then Some (replicate 16 0)
     else case parse_groups 8 t [] (if lead then Some 0 else None) of
         None \<Rightarrow> None
       | Some (ip, ell, r) \<Rightarrow>
           if r \<noteq> [] then None
           else (case ell of
               None \<Rightarrow> if length ip < 16 then None else Some ip
             | Some e \<Rightarrow>
                 if length ip < 16 then Some (take e ip @ replicate (16 - length ip) 0 @ drop e ip) else None))"

text \<open>
  \<open>netip.ParseAddr\<close> gives the bytes (4 or 16 of them) and the zone; the first dot or colon
  decides the family. \<open>net.ParseIP\<close> refuses zones.
\<close>

definition ParseAddr :: "string \<Rightarrow> (nat list \<times> string) option" where
  "ParseAddr s =
    (case filter (\<lambda>c. c = CHR ''.'' \<or> c = CHR '':'' \<or> c = CHR ''%'') s of
       [] \<Rightarrow> None
     | c # _ \<Rightarrow>
         if c = CHR ''.'' then map_option (\<lambda>ip. (ip, [])) (parse_ipv4 s)
         else if c = CHR ''%'' then None
         else
           (let (a, zone, found) = cut s (CHR ''%'') in
            if found \<and> zone = [] then None else map_option (\<lambda>ip. (ip, zone)) (parse_ipv6 a)))"

definition ParseIP :: "string \<Rightarrow> nat list option" where
  "ParseIP s = (case ParseAddr s of Some (ip, []) \<Rightarrow> Some ip | _ \<Rightarrow> None)"

subsection \<open>Host and port\<close>

definition SplitHostPort :: "string \<Rightarrow> (string \<times> string) option" where
  "SplitHostPort hostport =
    (case last_index hostport (CHR '':'') of
       None \<Rightarrow> None
     | Some i \<Rightarrow>
         let port = drop (i + 1) hostport in
         if has_prefix hostport ''['' then
           (case index_byte hostport (CHR '']'') of
              None \<Rightarrow> None
            | Some e \<Rightarrow>
                if e + 1 \<noteq> i then None
                else if CHR ''['' \<in> set (drop 1 hostport) \<or> CHR '']'' \<in> set (drop (e + 1) hostport) then None
                else Some (drop 1 (take e hostport), port))
         else if CHR '':'' \<in> set (take i hostport) then None
         else if CHR ''['' \<in> set hostport \<or> CHR '']'' \<in> set hostport then None
         else Some (take i hostport, port))"

subsection \<open>Request URIs\<close>

definition is_lower :: "char \<Rightarrow> bool" where "is_lower c \<longleftrightarrow> 0x61 \<le> byte c \<and> byte c \<le> 0x7A"
definition is_upper :: "char \<Rightarrow> bool" where "is_upper c \<longleftrightarrow> 0x41 \<le> byte c \<and> byte c \<le> 0x5A"

definition to_lower :: "string \<Rightarrow> string" where
  "to_lower s = map (\<lambda>c. if is_upper c then char_of (byte c + 0x20) else c) s"

record url =
  u_Scheme :: string
  u_Opaque :: string
  u_User :: "string option"
  u_Host :: string
  u_Path :: string
  u_RawQuery :: string
  u_Fragment :: string

definition zero_url :: url where
  "zero_url = \<lparr>u_Scheme = [], u_Opaque = [], u_User = None, u_Host = [], u_Path = [], u_RawQuery = [],
     u_Fragment = []\<rparr>"

text \<open>\<open>getScheme\<close>: scheme and rest, or failure; \<open>i\<close> is the part read so far.\<close>

fun get_scheme :: "string \<Rightarrow> string \<Rightarrow> (string \<times> string) option" where
  "get_scheme i [] = Some ([], i)"
| "get_scheme i (c # s) =
    (if is_lower c \<or> is_upper c then get_scheme (i @ [c]) s
     else if is_digit c \<or> c = CHR ''+'' \<or> c = CHR ''-'' \<or> c = CHR ''.'' then
       (if i = [] then Some ([], c # s) else get_scheme (i @ [c]) s)
     else if c = CHR '':'' then (if i = [] then None else Some (i, s))
     else Some ([], i @ c # s))"

definition host_plain :: "char \<Rightarrow> bool" where
  "host_plain c \<longleftrightarrow> is_lower c \<or> is_upper c \<or> is_digit c \<or>
     c \<in> set ''-_.~!$&()*+,;=:[]<>'' \<or> byte c = 0x27 \<or> byte c = 0x22"

datatype escape_mode = EncodeHost | EncodeZone | EncodePath | EncodeUser

fun url_unescape :: "escape_mode \<Rightarrow> string \<Rightarrow> string option" where
  "url_unescape m [] = Some []"
| "url_unescape m (c # s) =
    (if c = CHR ''%'' then
       (case s of
          a # b # t \<Rightarrow>
            (case (hex_val a, hex_val b) of
               (Some x, Some y) \<Rightarrow>
                 if m = EncodeHost \<and> x < 8 \<and> \<not> (x = 2 \<and> y = 5) then None
                 else if m = EncodeZone \<and> \<not> (x = 2 \<and> y = 5) \<and> x * 16 + y \<noteq> 0x20 \<and>
                   \<not> host_plain (char_of (x * 16 + y)) then None
                 else map_option (\<lambda>u. char_of (x * 16 + y) # u) (url_unescape m t)
             | _ \<Rightarrow> None)
        | _ \<Rightarrow> None)
     else if (m = EncodeHost \<or> m = EncodeZone) \<and> byte c < 0x80 \<and> \<not> host_plain c then None
     else map_option (\<lambda>u. c # u) (url_unescape m s))"

definition valid_optional_port :: "string \<Rightarrow> bool" where
  "valid_optional_port p \<longleftrightarrow> p = [] \<or> (hd p = CHR '':'' \<and> list_all is_digit (tl p))"

fun index_of :: "string \<Rightarrow> string \<Rightarrow> nat option" where
  "index_of [] p = (if p = [] then Some 0 else None)"
| "index_of (c # s) p = (if has_prefix (c # s) p then Some 0 else map_option Suc (index_of s p))"

definition parse_host :: "string \<Rightarrow> string option" where
  "parse_host host =
    (case last_index host (CHR ''['') of
       Some k \<Rightarrow>
         if k \<noteq> 0 then None
         else (case last_index host (CHR '']'') of
             None \<Rightarrow> None
           | Some e \<Rightarrow>
               let colonPort = drop (e + 1) host; name = drop 1 (take e host) in
               if \<not> valid_optional_port colonPort then None
               else
                 (case (case index_of name ''%25'' of
                          Some z \<Rightarrow> Option.bind (url_unescape EncodeHost (take z name)) (\<lambda>h.
                            map_option (\<lambda>y. h @ y) (url_unescape EncodeZone (drop z name)))
                        | None \<Rightarrow> url_unescape EncodeHost name) of
                    None \<Rightarrow> None
                  | Some h \<Rightarrow>
                      (case ParseAddr h of
                         None \<Rightarrow> None
                       | Some (ip, _) \<Rightarrow>
                           if length ip = 4 then None else Some (CHR ''['' # h @ CHR '']'' # colonPort))))
     | None \<Rightarrow>
         (case index_byte host (CHR '':'') of
            Some i \<Rightarrow> if valid_optional_port (drop i host) then url_unescape EncodeHost host else None
          | None \<Rightarrow> url_unescape EncodeHost host))"

definition valid_userinfo :: "string \<Rightarrow> bool" where
  "valid_userinfo s \<longleftrightarrow> list_all (\<lambda>c. is_lower c \<or> is_upper c \<or> is_digit c \<or>
     c \<in> set ''-._:~!$&()*+,;=%@'' \<or> byte c = 0x27) s"

definition parse_authority :: "string \<Rightarrow> (string option \<times> string) option" where
  "parse_authority a =
    (case last_index a (CHR ''@'') of
       None \<Rightarrow> map_option (\<lambda>h. (None, h)) (parse_host a)
     | Some i \<Rightarrow>
         (case parse_host (drop (i + 1) a) of
            None \<Rightarrow> None
          | Some h \<Rightarrow>
              if \<not> valid_userinfo (take i a) then None
              else map_option (\<lambda>u. (Some u, h)) (url_unescape EncodeUser (take i a))))"

definition is_ctl :: "char \<Rightarrow> bool" where
  "is_ctl c \<longleftrightarrow> byte c < 0x20 \<or> byte c = 0x7F"

definition ParseRequestURI :: "string \<Rightarrow> url option" where
  "ParseRequestURI raw =
    (if list_ex is_ctl raw then None
     else if raw = [] then None
     else if raw = ''*'' then Some (zero_url\<lparr>u_Path := ''*''\<rparr>)
     else case get_scheme [] raw of
         None \<Rightarrow> None
       | Some (scheme, rest) \<Rightarrow>
           let (rest1, query, _) =
                 (if has_suffix rest ''?'' \<and> length (filter (\<lambda>c. c = CHR ''?'') rest) = 1
                  then (butlast rest, [], True) else cut rest (CHR ''?''));
               u = zero_url\<lparr>u_Scheme := to_lower scheme, u_RawQuery := query\<rparr>
           in if \<not> has_prefix rest1 ''/'' then
                (if scheme \<noteq> [] then Some (u\<lparr>u_Opaque := rest1\<rparr>) else None)
              else if scheme \<noteq> [] \<and> has_prefix rest1 ''//'' then
                (let auth = drop 2 rest1;
                     (a, path) = (case index_byte auth (CHR ''/'') of
                        None \<Rightarrow> (auth, []) | Some i \<Rightarrow> (take i auth, drop i auth))
                 in case parse_authority a of
                      None \<Rightarrow> None
                    | Some (user, host) \<Rightarrow>
                        map_option (\<lambda>p. u\<lparr>u_User := user, u_Host := host, u_Path := p\<rparr>)
                          (url_unescape EncodePath path))
              else map_option (\<lambda>p. u\<lparr>u_Path := p\<rparr>) (url_unescape EncodePath rest1))"

text \<open>\<open>URL.Hostname\<close> and \<open>URL.Port\<close>.\<close>

definition split_url_host :: "string \<Rightarrow> string \<times> string" where
  "split_url_host hp =
    (let (host, port) =
       (case last_index hp (CHR '':'') of
          Some i \<Rightarrow> if valid_optional_port (drop i hp) then (take i hp, drop (i + 1) hp) else (hp, [])
        | None \<Rightarrow> (hp, []))
     in (if has_prefix host ''['' \<and> has_suffix host '']'' then drop 1 (butlast host) else host, port))"

definition Hostname :: "url \<Rightarrow> string" where
  "Hostname u = fst (split_url_host (u_Host u))"

definition Port :: "url \<Rightarrow> string" where
  "Port u = snd (split_url_host (u_Host u))"

subsection \<open>What parsed addresses look like\<close>

definition ip_char :: "char \<Rightarrow> bool" where
  "ip_char c \<longleftrightarrow> is_hex c \<or> c = CHR ''.'' \<or> c = CHR '':''"

lemma is_digit_hex: "is_digit c \<Longrightarrow> is_hex c"
  by (auto simp: is_digit_def is_hex_def hex_val_def)

lemma ip_char_ascii: "ip_char c \<Longrightarrow> byte c < 0x80"
  by (auto simp: ip_char_def is_hex_def hex_val_def split: if_splits)

lemma set_split_on: "c \<in> set s \<Longrightarrow> c = d \<or> (\<exists>p \<in> set (split_on d s). c \<in> set p)"
  by (induction s) (auto split: list.splits if_splits)

lemma those_Some_all: "those xs = Some ys \<Longrightarrow> x \<in> set xs \<Longrightarrow> x \<noteq> None"
  by (induction xs arbitrary: ys) (auto split: option.splits)

lemma parse_ipv4_chars:
  assumes "parse_ipv4 s = Some ip" and "c \<in> set s"
  shows "ip_char c"
proof -
  have oct: "\<forall>p \<in> set (split_on (CHR ''.'') s). octet p \<noteq> None"
    using assms(1) those_Some_all by (fastforce simp: parse_ipv4_def Let_def split: if_splits)
  show ?thesis
    using set_split_on [OF assms(2), of "CHR ''.''"]
  proof
    assume "\<exists>p \<in> set (split_on (CHR ''.'') s). c \<in> set p"
    then obtain p where "octet p \<noteq> None" "c \<in> set p" using oct by blast
    then have "is_digit c" by (auto simp: octet_def list_all_iff split: if_splits)
    then show ?thesis by (simp add: ip_char_def is_digit_hex)
  qed (simp add: ip_char_def)
qed

lemma parse_groups_chars:
  assumes "parse_groups n s ip ell = Some (ip', ell', [])" and "c \<in> set s"
  shows "ip_char c"
  using assms
proof (induction n s ip ell arbitrary: ip' ell' rule: parse_groups.induct)
  case (2 n s ip ell)
  let ?r = "dropWhile is_hex s"
  have "c \<in> set (takeWhile is_hex s) \<or> c \<in> set ?r"
    using 2(4) by (metis Un_iff set_append takeWhile_dropWhile_id)
  moreover have "ip_char c" if "c \<in> set (takeWhile is_hex s)"
    using that by (auto simp: ip_char_def dest: set_takeWhileD)
  moreover have "ip_char c" if c: "c \<in> set ?r"
  proof (cases "has_prefix ?r ''.''")
    case True
    then show ?thesis
      using 2(3,4) by (auto simp: Let_def split: if_splits dest: parse_ipv4_chars)
  next
    case False
    then obtain d t where r: "?r = d # t" "d = CHR '':''" "t \<noteq> []" "has_prefix ?r ''.'' = False"
      "takeWhile is_hex s \<noteq> []" "\<not> 4 < length (takeWhile is_hex s)"
      using 2(3) c by (auto simp: Let_def split: if_splits list.splits)
    then have d: "ip_char d" by (simp add: ip_char_def)
    show ?thesis
    proof (cases "c = d")
      case False
      then have t: "c \<in> set t" using c r by simp
      show ?thesis
      proof (cases "hd t = CHR '':''")
        case True
        then have "c = CHR '':'' \<or> c \<in> set (tl t)" using t r(3) by (cases t) auto
        then show ?thesis
          using 2(1) [OF refl refl refl _ _ r(1)] 2(3) r True
          by (auto simp: Let_def ip_char_def split: if_splits)
      next
        case False
        then show ?thesis
          using 2(2) [OF refl refl refl _ _ r(1)] 2(3) r t by (auto simp: Let_def split: if_splits)
      qed
    qed (use d in simp)
  qed
  ultimately show ?case by blast
qed simp

lemma ParseIP_chars:
  assumes "ParseIP s = Some ip" and "c \<in> set s"
  shows "ip_char c"
proof -
  have v6: "ip_char c" if "parse_ipv6 s = Some ip" for ip
  proof (cases "has_prefix s ''::''")
    case True
    then have "s = CHR '':'' # CHR '':'' # drop 2 s"
      by (metis append_Cons append_Nil append_take_drop_id has_prefix_def length_Cons list.size(3) numeral_2_eq_2)
    then have "c = CHR '':'' \<or> c \<in> set (drop 2 s)" using assms(2) by (metis set_ConsD)
    moreover have "ip_char (CHR '':'')" by (simp add: ip_char_def)
    ultimately show ?thesis
      using that True by (auto simp: parse_ipv6_def Let_def split: result_splits dest: parse_groups_chars)
  next
    case False
    then show ?thesis
      using that assms(2) by (auto simp: parse_ipv6_def Let_def split: result_splits dest: parse_groups_chars)
  qed
  show ?thesis
    using assms v6
    by (auto simp: ParseIP_def ParseAddr_def Let_def cut_def split: result_splits list.splits
        dest: parse_ipv4_chars)
qed

lemma ParseIP_ascii: "ParseIP s = Some ip \<Longrightarrow> \<forall>c \<in> set s. byte c < 0x80"
  using ParseIP_chars ip_char_ascii by blast

lemma last_index_Some:
  "last_index s c = Some i \<Longrightarrow> i < length s \<and> s ! i = c \<and> c \<notin> set (drop (Suc i) s)"
proof (induction s arbitrary: i)
  case (Cons x s)
  have none: "last_index s c = None \<Longrightarrow> c \<notin> set s" for s
    by (induction s) (auto split: option.splits if_splits)
  show ?case using Cons none by (auto split: option.splits if_splits)
qed simp

lemma index_byte_SomeD: "index_byte s c = Some i \<Longrightarrow> i < length s \<and> s ! i = c"
  by (induction s arbitrary: i) (auto split: if_splits)

lemma SplitHostPort_form:
  assumes "SplitHostPort hp = Some (host, port)"
  shows "hp = host @ CHR '':'' # port \<or> hp = CHR ''['' # host @ CHR '']'' # CHR '':'' # port"
proof -
  obtain i where i: "last_index hp (CHR '':'') = Some i"
    using assms by (auto simp: SplitHostPort_def split: option.splits)
  then have *: "i < length hp" "hp ! i = CHR '':''" using last_index_Some by auto
  then have hp: "hp = take i hp @ CHR '':'' # drop (Suc i) hp" by (metis id_take_nth_drop)
  show ?thesis
  proof (cases "has_prefix hp ''[''")
    case True
    then obtain t where t: "hp = CHR ''['' # t" by (cases hp) (auto simp: has_prefix_def)
    obtain e where e: "index_byte hp (CHR '']'') = Some e" "e + 1 = i" "host = drop 1 (take e hp)"
      "port = drop (Suc i) hp"
      using assms True i by (auto simp: SplitHostPort_def Let_def split: option.splits if_splits)
    then have "e < length hp" "hp ! e = CHR '']''" using index_byte_SomeD by auto
    then have "take i hp = take e hp @ [CHR '']'']" using e(2) by (metis Suc_eq_plus1 take_Suc_conv_app_nth)
    moreover have "take e hp = CHR ''['' # host"
      using e(3) t \<open>hp ! e = CHR '']''\<close> by (cases e) auto
    ultimately show ?thesis using hp e(4) by simp
  next
    case False
    then show ?thesis
      using assms i hp by (auto simp: SplitHostPort_def Let_def split: if_splits)
  qed
qed

lemma valid_utf8_append: "valid_utf8 s \<Longrightarrow> valid_utf8 t \<Longrightarrow> valid_utf8 (s @ t)"
proof (induction s rule: valid_utf8.induct)
  case (2 a s)
  obtain r w where rw: "decode_rune (a # s) = (r, w)" by force
  show ?case
  proof (cases "byte a < 0x80")
    case True
    with 2 show ?thesis by simp
  next
    case False
    then have a: "0x80 \<le> byte a" and w: "w \<noteq> 1" and tl: "valid_utf8 (drop (w - 1) s)"
      using 2(2) rw by (simp_all del: decode_rune.simps)
    have s: "take (w - 1) s @ (drop (w - 1) s @ t) = s @ t" by simp
    have "decode_rune (a # s @ t) = (r, w)" "drop (w - 1) (s @ t) = drop (w - 1) s @ t"
      using decode_rune_chunk(1,3) [OF rw a w, of "drop (w - 1) s @ t"] unfolding s by blast+
    then show ?thesis
      using 2(1) [OF rw [symmetric] refl tl 2(3)] w by (simp del: decode_rune.simps drop_append)
  qed
qed simp

lemma valid_utf8_runes: "0xFFFD \<notin> set (runes s) \<Longrightarrow> valid_utf8 s"
proof (induction s rule: valid_utf8.induct)
  case (2 a s)
  obtain r w where rw: "decode_rune (a # s) = (r, w)" by force
  have "r \<noteq> 0xFFFD" "0xFFFD \<notin> set (runes (drop (w - 1) s))"
    using 2(2) rw by (simp_all del: decode_rune.simps)
  moreover have "w \<noteq> 1 \<or> byte a < 0x80"
    using \<open>r \<noteq> 0xFFFD\<close> rw by (auto simp: rune_error_def split: if_splits list.splits)
  ultimately show ?case using 2(1) [OF rw [symmetric] refl] rw by (auto simp del: decode_rune.simps)
qed simp

lemma match_string_utf8:
  assumes "match_string r s" and "\<not> in_cls (rx_classes r) 0xFFFD"
  shows "valid_utf8 s"
  using match_string_classes [OF assms(1)] assms(2) by (intro valid_utf8_runes) (auto simp: list_all_iff)

lemma atoi_ascii:
  assumes "atoi s = Some v"
  shows "\<forall>c \<in> set s. byte c < 0x80"
proof -
  let ?ds = "if has_prefix s ''-'' \<or> has_prefix s ''+'' then tl s else s"
  have "list_all is_digit ?ds" using assms by (auto simp: atoi_def Let_def split: if_splits)
  moreover have "c \<in> set ?ds \<or> c = CHR ''-'' \<or> c = CHR ''+''" if "c \<in> set s" for c
    using that by (cases s) (auto simp: has_prefix_def)
  ultimately show ?thesis by (fastforce simp: list_all_iff is_digit_def)
qed

text \<open>A request URI never has a fragment.\<close>

lemma ParseRequestURI_fragment: "ParseRequestURI raw = Some u \<Longrightarrow> u_Fragment u = []"
  by (auto simp: ParseRequestURI_def zero_url_def Let_def split: result_splits prod.splits)

end
