(* ===== verification/Manifest.thy ===== *)
theory Manifest
  imports Policy GoNet
begin

text \<open>
  \<open>internal/manifest/manifest.go\<close>: the catalog and the signed document, their validation and
  canonical form, \<open>Issue\<close>, \<open>DecodeEnvelope\<close>, \<open>Verify\<close> with its anti-rollback state, and
  \<open>CatalogDigest\<close>. Each loop of the validators is a recursive function over the rest of the
  slice with the loop's maps as arguments; each \<open>error\<close> is a constructor.
\<close>

subsection \<open>Data\<close>

record DiscoveryEndpoint =
  disc_ID :: string
  disc_URL :: string
  disc_Priority :: uint16

record Endpoint =
  ep_ID :: string
  ep_Transport :: string
  ep_Address :: string
  ep_ServerName :: string
  ep_CredentialRef :: string
  ep_Priority :: uint16

record Node =
  node_ID :: string
  node_Region :: string
  node_CountryCode :: string
  node_Provider :: string
  node_ASN :: uint32
  node_Endpoints :: "Endpoint list"

record Catalog =
  cat_Revision :: uint64
  cat_Discovery :: "DiscoveryEndpoint list"
  cat_Nodes :: "Node list"

record Document =
  doc_SchemaVersion :: int
  doc_Version :: uint64
  doc_CatalogRevision :: uint64
  doc_IssuedAt :: time
  doc_ExpiresAt :: time
  doc_KeyPolicy :: KeyPolicy
  doc_Discovery :: "DiscoveryEndpoint list"
  doc_Nodes :: "Node list"

record Envelope =
  env_Algorithm :: string
  env_KeyID :: string
  env_Payload :: string
  env_Signature :: string

record TrustedState =
  ts_Version :: uint64
  ts_IssuedAt :: time
  ts_PayloadSHA256 :: string
  ts_PolicyVersion :: uint64
  ts_PolicySHA256 :: string
  ts_SigningKeyID :: string
  ts_SigningKeyEpoch :: uint64

datatype endpoint_error =
    EndpointInvalidID string
  | EndpointAddress string
  | EndpointPort string
  | EndpointCredentialRef
  | EndpointPriority
  | ServerNameNotValid
  | ServerNameRequired
  | UnsupportedTransport string

datatype discovery_error =
    DiscoveryCount
  | DiscoveryInvalidID nat string
  | DuplicateDiscovery string
  | DiscoveryPriority string
  | DiscoveryURL string
  | DiscoveryHost string
  | DiscoveryPort string

datatype catalog_error =
    DiscoveryError discovery_error
  | NodesCount
  | NodeInvalidID nat string
  | DuplicateNode string
  | NodeRegion string
  | NodeCountryCode string
  | NodeProvider string
  | NodeASN string
  | NodeEndpointCount string
  | NodeEndpoint string nat endpoint_error
  | DuplicateEndpoint string

datatype document_error =
    SchemaUnsupported int
  | VersionZero
  | CatalogRevisionZero
  | TimesRequired
  | ExpiryNotAfterIssuance
  | LifetimeExceeded
  | SignedPolicyRequired
  | DocumentPolicy policy_error
  | DocumentCatalog catalog_error

datatype state_error =
    StateInconsistent
  | StateIncomplete
  | StateInvalidDigests
  | PolicyOlder uint64 uint64
  | PolicyEquivocation
  | VersionOlder uint64 uint64
  | PayloadEquivocation
  | IssuanceBackwards
  | EpochBackwards
  | EpochChangedWithoutKey
  | KeyChangedWithoutEpoch

datatype issue_error =
    InvalidPrivateKey
  | IssuedVersionZero
  | TTLRange
  | IssuePolicy policy_error
  | IssueDocument document_error
  | EncodePayload
  | PayloadTooLarge

datatype envelope_error =
    EnvelopeRead
  | EnvelopeSize
  | EnvelopeDecode decode_error

datatype verify_error =
    VerifyRootPublicKey
  | UnsupportedAlgorithm string
  | SigningKeyIDRequired
  | EncodedPayloadSize
  | EncodedSignatureSize
  | PayloadBase64
  | PayloadSize
  | SignatureBase64
  | DocumentDecode decode_error
  | VerifyDocument document_error
  | VerifyPolicy policy_error
  | SignatureVerification
  | NotValidYet
  | Expired
  | VerifyState state_error

definition SchemaVersion :: int where "SchemaVersion = 3"
definition Algorithm :: string where "Algorithm = ''Ed25519''"
definition maxManifestBytes :: nat where "maxManifestBytes = 1048576"
definition maxManifestLife :: duration where "maxManifestLife = hour"
definition allowedClockSkew :: duration where "allowedClockSkew = 2 * minute"
definition TransportAmneziaWG :: string where "TransportAmneziaWG = ''amneziawg''"
definition TransportReality :: string where "TransportReality = ''vless-reality''"

definition zero_DiscoveryEndpoint :: DiscoveryEndpoint where
  "zero_DiscoveryEndpoint = \<lparr>disc_ID = [], disc_URL = [], disc_Priority = 0\<rparr>"

definition zero_Endpoint :: Endpoint where
  "zero_Endpoint = \<lparr>ep_ID = [], ep_Transport = [], ep_Address = [], ep_ServerName = [],
     ep_CredentialRef = [], ep_Priority = 0\<rparr>"

definition zero_Node :: Node where
  "zero_Node = \<lparr>node_ID = [], node_Region = [], node_CountryCode = [], node_Provider = [], node_ASN = 0,
     node_Endpoints = []\<rparr>"

definition zero_Document :: Document where
  "zero_Document = \<lparr>doc_SchemaVersion = 0, doc_Version = 0, doc_CatalogRevision = 0,
     doc_IssuedAt = zero_time, doc_ExpiresAt = zero_time, doc_KeyPolicy = zero_KeyPolicy,
     doc_Discovery = [], doc_Nodes = []\<rparr>"

definition zero_Envelope :: Envelope where
  "zero_Envelope = \<lparr>env_Algorithm = [], env_KeyID = [], env_Payload = [], env_Signature = []\<rparr>"

definition zero_Catalog :: Catalog where
  "zero_Catalog = \<lparr>cat_Revision = 0, cat_Discovery = [], cat_Nodes = []\<rparr>"

definition zero_TrustedState :: TrustedState where
  "zero_TrustedState = \<lparr>ts_Version = 0, ts_IssuedAt = zero_time, ts_PayloadSHA256 = [],
     ts_PolicyVersion = 0, ts_PolicySHA256 = [], ts_SigningKeyID = [], ts_SigningKeyEpoch = 0\<rparr>"

subsection \<open>Patterns\<close>

definition lower_digit :: "(nat \<times> nat) list" where
  "lower_digit = [(0x61, 0x7A), (0x30, 0x39)]"

definition dash :: "(nat \<times> nat) list" where "dash = [(0x2D, 0x2D)]"
definition dot :: "(nat \<times> nat) list" where "dot = [(0x2E, 0x2E)]"

text \<open>With the flag \<open>i\<close> a class also holds the simple case foldings of its runes: the upper
  case letters, the long s (U+017F) and the Kelvin sign (U+212A).\<close>

definition host_class :: "(nat \<times> nat) list" where
  "host_class = lower_digit @ [(0x41, 0x5A), (0x17F, 0x17F), (0x212A, 0x212A)]"

definition idPattern :: rx where
  "idPattern = Seq (Cls lower_digit) (Upto (Cls (lower_digit @ dash)) 62)"

definition regionPattern :: rx where
  "regionPattern = Seq (Cls lower_digit) (Upto (Cls (lower_digit @ dash)) 63)"

definition countryPattern :: rx where
  "countryPattern = Times (Cls [(0x41, 0x5A)]) 2"

definition host_label :: rx where
  "host_label = Seq (Cls host_class) (Opt (Seq (Upto (Cls (host_class @ dash)) 61) (Cls host_class)))"

definition hostnamePattern :: rx where
  "hostnamePattern = Seq host_label (Seq (Star (Seq (Cls dot) host_label)) (Opt (Cls dot)))"

definition credentialPattern :: rx where
  "credentialPattern =
    Seq (Cls (lower_digit @ [(0x41, 0x5A)]))
      (Upto (Cls (lower_digit @ [(0x41, 0x5A), (0x2E, 0x2E), (0x5F, 0x5F), (0x2D, 0x2D)])) 127)"

subsection \<open>JSON form\<close>

definition enc_DiscoveryEndpoint :: "DiscoveryEndpoint \<Rightarrow> json" where
  "enc_DiscoveryEndpoint d = JObj
    [(''id'', enc_string (disc_ID d)), (''url'', enc_string (disc_URL d)),
     (''priority'', enc_uint (disc_Priority d))]"

definition DiscoveryEndpoint_fields :: "DiscoveryEndpoint field list" where
  "DiscoveryEndpoint_fields =
    [(''id'', field_of dec_string disc_ID (\<lambda>x. disc_ID_update (\<lambda>_. x))),
     (''url'', field_of dec_string disc_URL (\<lambda>x. disc_URL_update (\<lambda>_. x))),
     (''priority'', field_of dec_uint disc_Priority (\<lambda>x. disc_Priority_update (\<lambda>_. x)))]"

definition dec_DiscoveryEndpoint :: "json \<Rightarrow> DiscoveryEndpoint \<Rightarrow> DiscoveryEndpoint option" where
  "dec_DiscoveryEndpoint = dec_struct DiscoveryEndpoint_fields"

definition enc_Endpoint :: "Endpoint \<Rightarrow> json" where
  "enc_Endpoint e = JObj
    ([(''id'', enc_string (ep_ID e)), (''transport'', enc_string (ep_Transport e)),
      (''address'', enc_string (ep_Address e))] @
     (if ep_ServerName e = [] then [] else [(''server_name'', enc_string (ep_ServerName e))]) @
     [(''credential_ref'', enc_string (ep_CredentialRef e)), (''priority'', enc_uint (ep_Priority e))])"

definition Endpoint_fields :: "Endpoint field list" where
  "Endpoint_fields =
    [(''id'', field_of dec_string ep_ID (\<lambda>x. ep_ID_update (\<lambda>_. x))),
     (''transport'', field_of dec_string ep_Transport (\<lambda>x. ep_Transport_update (\<lambda>_. x))),
     (''address'', field_of dec_string ep_Address (\<lambda>x. ep_Address_update (\<lambda>_. x))),
     (''server_name'', field_of dec_string ep_ServerName (\<lambda>x. ep_ServerName_update (\<lambda>_. x))),
     (''credential_ref'', field_of dec_string ep_CredentialRef (\<lambda>x. ep_CredentialRef_update (\<lambda>_. x))),
     (''priority'', field_of dec_uint ep_Priority (\<lambda>x. ep_Priority_update (\<lambda>_. x)))]"

definition dec_Endpoint :: "json \<Rightarrow> Endpoint \<Rightarrow> Endpoint option" where
  "dec_Endpoint = dec_struct Endpoint_fields"

definition enc_Node :: "Node \<Rightarrow> json" where
  "enc_Node n = JObj
    [(''id'', enc_string (node_ID n)), (''region'', enc_string (node_Region n)),
     (''country_code'', enc_string (node_CountryCode n)), (''provider'', enc_string (node_Provider n)),
     (''asn'', enc_uint (node_ASN n)), (''endpoints'', enc_list enc_Endpoint (node_Endpoints n))]"

definition Node_fields :: "Node field list" where
  "Node_fields =
    [(''id'', field_of dec_string node_ID (\<lambda>x. node_ID_update (\<lambda>_. x))),
     (''region'', field_of dec_string node_Region (\<lambda>x. node_Region_update (\<lambda>_. x))),
     (''country_code'', field_of dec_string node_CountryCode (\<lambda>x. node_CountryCode_update (\<lambda>_. x))),
     (''provider'', field_of dec_string node_Provider (\<lambda>x. node_Provider_update (\<lambda>_. x))),
     (''asn'', field_of dec_uint node_ASN (\<lambda>x. node_ASN_update (\<lambda>_. x))),
     (''endpoints'', field_of (dec_list dec_Endpoint zero_Endpoint) node_Endpoints
        (\<lambda>x. node_Endpoints_update (\<lambda>_. x)))]"

definition dec_Node :: "json \<Rightarrow> Node \<Rightarrow> Node option" where
  "dec_Node = dec_struct Node_fields"

text \<open>The slice of nodes is made with its length, so it is an array also when it is empty.\<close>

definition enc_nodes :: "Node list \<Rightarrow> json" where
  "enc_nodes ns = JArr (map enc_Node ns)"

definition enc_Document :: "Document \<Rightarrow> json" where
  "enc_Document d = JObj
    [(''schema_version'', enc_int (doc_SchemaVersion d)), (''version'', enc_uint (doc_Version d)),
     (''catalog_revision'', enc_uint (doc_CatalogRevision d)), (''issued_at'', enc_time (doc_IssuedAt d)),
     (''expires_at'', enc_time (doc_ExpiresAt d)), (''key_policy'', enc_KeyPolicy (doc_KeyPolicy d)),
     (''discovery'', enc_list enc_DiscoveryEndpoint (doc_Discovery d)),
     (''nodes'', enc_nodes (doc_Nodes d))]"

definition Document_fields :: "Document field list" where
  "Document_fields =
    [(''schema_version'', field_of dec_int doc_SchemaVersion (\<lambda>x. doc_SchemaVersion_update (\<lambda>_. x))),
     (''version'', field_of dec_uint doc_Version (\<lambda>x. doc_Version_update (\<lambda>_. x))),
     (''catalog_revision'', field_of dec_uint doc_CatalogRevision (\<lambda>x. doc_CatalogRevision_update (\<lambda>_. x))),
     (''issued_at'', field_of dec_time doc_IssuedAt (\<lambda>x. doc_IssuedAt_update (\<lambda>_. x))),
     (''expires_at'', field_of dec_time doc_ExpiresAt (\<lambda>x. doc_ExpiresAt_update (\<lambda>_. x))),
     (''key_policy'', field_of dec_KeyPolicy doc_KeyPolicy (\<lambda>x. doc_KeyPolicy_update (\<lambda>_. x))),
     (''discovery'', field_of (dec_list dec_DiscoveryEndpoint zero_DiscoveryEndpoint) doc_Discovery
        (\<lambda>x. doc_Discovery_update (\<lambda>_. x))),
     (''nodes'', field_of (dec_list dec_Node zero_Node) doc_Nodes (\<lambda>x. doc_Nodes_update (\<lambda>_. x)))]"

definition dec_Document :: "json \<Rightarrow> Document \<Rightarrow> Document option" where
  "dec_Document = dec_struct Document_fields"

text \<open>\<open>json.Marshal\<close> fails on a year outside 0 to 9999.\<close>

definition marshal_Document :: "Document \<Rightarrow> bytes option" where
  "marshal_Document d =
    (if time_in_range (doc_IssuedAt d) \<and> time_in_range (doc_ExpiresAt d)
     then Some (print_json (enc_Document d)) else None)"

definition enc_Catalog :: "Catalog \<Rightarrow> json" where
  "enc_Catalog c = JObj
    [(''revision'', enc_uint (cat_Revision c)),
     (''discovery'', enc_list enc_DiscoveryEndpoint (cat_Discovery c)),
     (''nodes'', enc_nodes (cat_Nodes c))]"

definition Catalog_fields :: "Catalog field list" where
  "Catalog_fields =
    [(''revision'', field_of dec_uint cat_Revision (\<lambda>x. cat_Revision_update (\<lambda>_. x))),
     (''discovery'', field_of (dec_list dec_DiscoveryEndpoint zero_DiscoveryEndpoint) cat_Discovery
        (\<lambda>x. cat_Discovery_update (\<lambda>_. x))),
     (''nodes'', field_of (dec_list dec_Node zero_Node) cat_Nodes (\<lambda>x. cat_Nodes_update (\<lambda>_. x)))]"

definition dec_Catalog :: "json \<Rightarrow> Catalog \<Rightarrow> Catalog option" where
  "dec_Catalog = dec_struct Catalog_fields"

definition enc_Envelope :: "Envelope \<Rightarrow> json" where
  "enc_Envelope e = JObj
    [(''algorithm'', enc_string (env_Algorithm e)), (''key_id'', enc_string (env_KeyID e)),
     (''payload'', enc_string (env_Payload e)), (''signature'', enc_string (env_Signature e))]"

definition Envelope_fields :: "Envelope field list" where
  "Envelope_fields =
    [(''algorithm'', field_of dec_string env_Algorithm (\<lambda>x. env_Algorithm_update (\<lambda>_. x))),
     (''key_id'', field_of dec_string env_KeyID (\<lambda>x. env_KeyID_update (\<lambda>_. x))),
     (''payload'', field_of dec_string env_Payload (\<lambda>x. env_Payload_update (\<lambda>_. x))),
     (''signature'', field_of dec_string env_Signature (\<lambda>x. env_Signature_update (\<lambda>_. x)))]"

definition dec_Envelope :: "json \<Rightarrow> Envelope \<Rightarrow> Envelope option" where
  "dec_Envelope = dec_struct Envelope_fields"

subsection \<open>Canonical order\<close>

definition discoveryLess :: "DiscoveryEndpoint \<Rightarrow> DiscoveryEndpoint \<Rightarrow> bool" where
  "discoveryLess a b =
    (if disc_Priority a = disc_Priority b then disc_ID a < disc_ID b
     else disc_Priority a < disc_Priority b)"

definition endpointLess :: "Endpoint \<Rightarrow> Endpoint \<Rightarrow> bool" where
  "endpointLess left right =
    (if ep_Priority left = ep_Priority right then ep_ID left < ep_ID right
     else ep_Priority left < ep_Priority right)"

definition nodeLess :: "Node \<Rightarrow> Node \<Rightarrow> bool" where
  "nodeLess a b = (node_ID a < node_ID b)"

definition canonicalDiscovery :: "DiscoveryEndpoint list \<Rightarrow> DiscoveryEndpoint list" where
  "canonicalDiscovery discovery = sort_slice discoveryLess discovery"

definition canonicalNodes :: "Node list \<Rightarrow> Node list" where
  "canonicalNodes nodes =
    sort_slice nodeLess
      (map (\<lambda>node. node\<lparr>node_Endpoints := sort_slice endpointLess (node_Endpoints node)\<rparr>) nodes)"

subsection \<open>Validation\<close>

definition validHost :: "string \<Rightarrow> bool" where
  "validHost host = (if ParseIP host \<noteq> None then True else length host \<le> 253 \<and> match_string hostnamePattern host)"

definition valid_port :: "string \<Rightarrow> bool" where
  "valid_port portText = (case atoi portText of None \<Rightarrow> False | Some port \<Rightarrow> \<not> (port < 1 \<or> port > 65535))"

definition validateEndpoint :: "Endpoint \<Rightarrow> endpoint_error option" where
  "validateEndpoint endpoint =
    (if \<not> match_string idPattern (ep_ID endpoint) then Some (EndpointInvalidID (ep_ID endpoint))
     else case SplitHostPort (ep_Address endpoint) of
       None \<Rightarrow> Some (EndpointAddress (ep_Address endpoint))
     | Some (host, portText) \<Rightarrow>
         if \<not> validHost host then Some (EndpointAddress (ep_Address endpoint))
         else if \<not> valid_port portText then Some (EndpointPort (ep_Address endpoint))
         else if \<not> match_string credentialPattern (ep_CredentialRef endpoint) then Some EndpointCredentialRef
         else if ep_Priority endpoint = 0 \<or> ep_Priority endpoint > 1000 then Some EndpointPriority
         else if ep_Transport endpoint = TransportAmneziaWG then
           (if ep_ServerName endpoint \<noteq> [] then Some ServerNameNotValid else None)
         else if ep_Transport endpoint = TransportReality then
           (if length (ep_ServerName endpoint) > 253 \<or> ParseIP (ep_ServerName endpoint) \<noteq> None \<or>
               \<not> match_string hostnamePattern (ep_ServerName endpoint)
            then Some ServerNameRequired else None)
         else Some (UnsupportedTransport (ep_Transport endpoint)))"

fun discovery_loop :: "nat \<Rightarrow> string list \<Rightarrow> DiscoveryEndpoint list \<Rightarrow> discovery_error option" where
  "discovery_loop index ids [] = None"
| "discovery_loop index ids (source # rest) =
    (if \<not> match_string idPattern (disc_ID source) then Some (DiscoveryInvalidID index (disc_ID source))
     else if disc_ID source \<in> set ids then Some (DuplicateDiscovery (disc_ID source))
     else if disc_Priority source = 0 \<or> disc_Priority source > 1000 then Some (DiscoveryPriority (disc_ID source))
     else case ParseRequestURI (disc_URL source) of
       None \<Rightarrow> Some (DiscoveryURL (disc_ID source))
     | Some parsed \<Rightarrow>
         if u_Scheme parsed \<noteq> ''https'' \<or> u_Host parsed = [] \<or> u_User parsed \<noteq> None \<or>
            u_RawQuery parsed \<noteq> [] \<or> u_Fragment parsed \<noteq> []
         then Some (DiscoveryURL (disc_ID source))
         else if \<not> validHost (Hostname parsed) then Some (DiscoveryHost (disc_ID source))
         else if Port parsed \<noteq> [] \<and> \<not> valid_port (Port parsed) then Some (DiscoveryPort (disc_ID source))
         else discovery_loop (index + 1) (disc_ID source # ids) rest)"

definition validateDiscovery :: "DiscoveryEndpoint list \<Rightarrow> discovery_error option" where
  "validateDiscovery discovery =
    (if length discovery = 0 \<or> length discovery > 16 then Some DiscoveryCount
     else discovery_loop 0 [] discovery)"

text \<open>The inner loop returns the grown map \<open>endpointIDs\<close>.\<close>

fun endpoint_loop :: "string \<Rightarrow> nat \<Rightarrow> string list \<Rightarrow> Endpoint list \<Rightarrow> catalog_error + string list" where
  "endpoint_loop nodeID index endpointIDs [] = Inr endpointIDs"
| "endpoint_loop nodeID index endpointIDs (endpoint # rest) =
    (case validateEndpoint endpoint of
       Some e \<Rightarrow> Inl (NodeEndpoint nodeID index e)
     | None \<Rightarrow>
         if ep_ID endpoint \<in> set endpointIDs then Inl (DuplicateEndpoint (ep_ID endpoint))
         else endpoint_loop nodeID (index + 1) (ep_ID endpoint # endpointIDs) rest)"

fun node_loop :: "nat \<Rightarrow> string list \<Rightarrow> string list \<Rightarrow> Node list \<Rightarrow> catalog_error option" where
  "node_loop index nodeIDs endpointIDs [] = None"
| "node_loop index nodeIDs endpointIDs (node # rest) =
    (if \<not> match_string idPattern (node_ID node) then Some (NodeInvalidID index (node_ID node))
     else if node_ID node \<in> set nodeIDs then Some (DuplicateNode (node_ID node))
     else if \<not> match_string regionPattern (node_Region node) then Some (NodeRegion (node_ID node))
     else if \<not> match_string countryPattern (node_CountryCode node) then Some (NodeCountryCode (node_ID node))
     else if \<not> match_string idPattern (node_Provider node) then Some (NodeProvider (node_ID node))
     else if node_ASN node = 0 then Some (NodeASN (node_ID node))
     else if length (node_Endpoints node) = 0 \<or> length (node_Endpoints node) > 16
     then Some (NodeEndpointCount (node_ID node))
     else case endpoint_loop (node_ID node) 0 endpointIDs (node_Endpoints node) of
       Inl e \<Rightarrow> Some e
     | Inr endpointIDs' \<Rightarrow> node_loop (index + 1) (node_ID node # nodeIDs) endpointIDs' rest)"

definition validateCatalogContents :: "DiscoveryEndpoint list \<Rightarrow> Node list \<Rightarrow> catalog_error option" where
  "validateCatalogContents discovery nodes =
    (case validateDiscovery discovery of
       Some e \<Rightarrow> Some (DiscoveryError e)
     | None \<Rightarrow>
         if length nodes = 0 \<or> length nodes > 1000 then Some NodesCount
         else node_loop 0 [] [] nodes)"

definition Validate :: "crypto \<Rightarrow> Document \<Rightarrow> document_error option" where
  "Validate c document =
    (if doc_SchemaVersion document \<noteq> SchemaVersion then Some (SchemaUnsupported (doc_SchemaVersion document))
     else if doc_Version document = 0 then Some VersionZero
     else if doc_CatalogRevision document = 0 then Some CatalogRevisionZero
     else if is_zero (doc_IssuedAt document) \<or> is_zero (doc_ExpiresAt document) then Some TimesRequired
     else if \<not> doc_ExpiresAt document > doc_IssuedAt document then Some ExpiryNotAfterIssuance
     else if time_sub (doc_ExpiresAt document) (doc_IssuedAt document) > maxManifestLife then Some LifetimeExceeded
     else if kp_Signature (doc_KeyPolicy document) = [] then Some SignedPolicyRequired
     else case validateKeyPolicyShape c (doc_KeyPolicy document) of
       Some e \<Rightarrow> Some (DocumentPolicy e)
     | None \<Rightarrow> map_option DocumentCatalog (validateCatalogContents (doc_Discovery document) (doc_Nodes document)))"

definition validSHA256Digest :: "string \<Rightarrow> bool" where
  "validSHA256Digest encoded =
    (case raw_url_decode encoded of None \<Rightarrow> False | Some raw \<Rightarrow> length raw = sha256_size)"

definition validateStateTransition :: "TrustedState \<Rightarrow> TrustedState \<Rightarrow> state_error option" where
  "validateStateTransition trusted candidate =
    (if ts_Version trusted = 0 then
       (if ts_PayloadSHA256 trusted \<noteq> [] \<or> \<not> is_zero (ts_IssuedAt trusted) \<or> ts_PolicyVersion trusted \<noteq> 0 \<or>
           ts_PolicySHA256 trusted \<noteq> [] \<or> ts_SigningKeyID trusted \<noteq> [] \<or> ts_SigningKeyEpoch trusted \<noteq> 0
        then Some StateInconsistent else None)
     else if ts_PayloadSHA256 trusted = [] \<or> is_zero (ts_IssuedAt trusted) \<or> ts_PolicyVersion trusted = 0 \<or>
       ts_PolicySHA256 trusted = [] \<or> ts_SigningKeyID trusted = [] \<or> ts_SigningKeyEpoch trusted = 0
     then Some StateIncomplete
     else if \<not> validSHA256Digest (ts_PayloadSHA256 trusted) \<or> \<not> validSHA256Digest (ts_PolicySHA256 trusted) \<or>
       length (ts_SigningKeyID trusted) \<noteq> encoded_len sha256_size
     then Some StateInvalidDigests
     else if ts_PolicyVersion candidate < ts_PolicyVersion trusted
     then Some (PolicyOlder (ts_PolicyVersion candidate) (ts_PolicyVersion trusted))
     else if ts_PolicyVersion candidate = ts_PolicyVersion trusted \<and> ts_PolicySHA256 candidate \<noteq> ts_PolicySHA256 trusted
     then Some PolicyEquivocation
     else if ts_Version candidate < ts_Version trusted
     then Some (VersionOlder (ts_Version candidate) (ts_Version trusted))
     else if ts_Version candidate = ts_Version trusted then
       (if ts_PayloadSHA256 candidate \<noteq> ts_PayloadSHA256 trusted \<or> ts_IssuedAt candidate \<noteq> ts_IssuedAt trusted
        then Some PayloadEquivocation else None)
     else if ts_IssuedAt candidate < ts_IssuedAt trusted then Some IssuanceBackwards
     else if ts_SigningKeyEpoch candidate < ts_SigningKeyEpoch trusted then Some EpochBackwards
     else if ts_SigningKeyID candidate = ts_SigningKeyID trusted \<and>
       ts_SigningKeyEpoch candidate \<noteq> ts_SigningKeyEpoch trusted then Some EpochChangedWithoutKey
     else if ts_SigningKeyID candidate \<noteq> ts_SigningKeyID trusted \<and>
       ts_SigningKeyEpoch candidate \<le> ts_SigningKeyEpoch trusted then Some KeyChangedWithoutEpoch
     else None)"

subsection \<open>Operations\<close>

definition issuedDocument :: "Catalog \<Rightarrow> uint64 \<Rightarrow> KeyPolicy \<Rightarrow> time \<Rightarrow> duration \<Rightarrow> Document" where
  "issuedDocument catalog version keyPolicy now ttl =
    \<lparr>doc_SchemaVersion = SchemaVersion, doc_Version = version, doc_CatalogRevision = cat_Revision catalog,
     doc_IssuedAt = truncate_second now, doc_ExpiresAt = truncate_second now + ttl,
     doc_KeyPolicy = canonicalKeyPolicy keyPolicy,
     doc_Discovery = canonicalDiscovery (cat_Discovery catalog),
     doc_Nodes = canonicalNodes (cat_Nodes catalog)\<rparr>"

definition Issue ::
  "crypto \<Rightarrow> Catalog \<Rightarrow> uint64 \<Rightarrow> KeyPolicy \<Rightarrow> bytes \<Rightarrow> time \<Rightarrow> duration \<Rightarrow> bytes \<Rightarrow> issue_error + Envelope" where
  "Issue c catalog version keyPolicy rootPublicKey now ttl privateKey =
    (if \<not> validEd25519PrivateKey c privateKey then Inl InvalidPrivateKey
     else if version = 0 then Inl IssuedVersionZero
     else if ttl < minute \<or> ttl > maxManifestLife then Inl TTLRange
     else case ValidateKeyPolicy c keyPolicy rootPublicKey of
       Inl e \<Rightarrow> Inl (IssuePolicy e)
     | Inr _ \<Rightarrow>
         (case KeyPolicyGrant keyPolicy (KeyID c (public_of privateKey)) version of
            Inl e \<Rightarrow> Inl (IssuePolicy e)
          | Inr _ \<Rightarrow>
              (case Validate c (issuedDocument catalog version keyPolicy now ttl) of
                 Some e \<Rightarrow> Inl (IssueDocument e)
               | None \<Rightarrow>
                   (case marshal_Document (issuedDocument catalog version keyPolicy now ttl) of
                      None \<Rightarrow> Inl EncodePayload
                    | Some payload \<Rightarrow>
                        if length payload > maxManifestBytes then Inl PayloadTooLarge
                        else Inr \<lparr>env_Algorithm = Algorithm, env_KeyID = KeyID c (public_of privateKey),
                          env_Payload = raw_url_encode payload,
                          env_Signature = raw_url_encode (ed25519_sign c privateKey payload)\<rparr>))))"

definition DecodeEnvelope :: "reader \<Rightarrow> envelope_error + Envelope" where
  "DecodeEnvelope rd =
    (let maxEnvelopeBytes = encoded_len maxManifestBytes + 1024 in
     case read_limited rd (maxEnvelopeBytes + 1) of
       None \<Rightarrow> Inl EnvelopeRead
     | Some data \<Rightarrow>
         if length data = 0 \<or> length data > maxEnvelopeBytes then Inl EnvelopeSize
         else case decodeStrict dec_Envelope zero_Envelope data of
           Inl e \<Rightarrow> Inl (EnvelopeDecode e)
         | Inr envelope \<Rightarrow> Inr envelope)"

text \<open>
  \<open>Verify\<close> returns the document or the error, and the trusted state the caller holds from
  then on: the old one on every error and for an accepted repetition of the trusted version.
\<close>

definition candidateState :: "crypto \<Rightarrow> bytes \<Rightarrow> Document \<Rightarrow> string \<Rightarrow> KeyGrant \<Rightarrow> TrustedState" where
  "candidateState c payload document policyDigest grant =
    \<lparr>ts_Version = doc_Version document, ts_IssuedAt = doc_IssuedAt document,
     ts_PayloadSHA256 = raw_url_encode (sha256_sum c payload),
     ts_PolicyVersion = kp_Version (doc_KeyPolicy document), ts_PolicySHA256 = policyDigest,
     ts_SigningKeyID = kg_KeyID grant, ts_SigningKeyEpoch = kg_Epoch grant\<rparr>"

text \<open>The first part of \<open>Verify\<close> opens the envelope: payload, signature and document.\<close>

definition openEnvelope :: "Envelope \<Rightarrow> bytes \<Rightarrow> verify_error + (bytes \<times> bytes \<times> Document)" where
  "openEnvelope envelope rootPublicKey =
    (if length rootPublicKey \<noteq> public_key_size then Inl VerifyRootPublicKey
     else if env_Algorithm envelope \<noteq> Algorithm then Inl (UnsupportedAlgorithm (env_Algorithm envelope))
     else if env_KeyID envelope = [] then Inl SigningKeyIDRequired
     else if length (env_Payload envelope) = 0 \<or> length (env_Payload envelope) > encoded_len maxManifestBytes
     then Inl EncodedPayloadSize
     else if length (env_Signature envelope) \<noteq> encoded_len signature_size then Inl EncodedSignatureSize
     else case raw_url_decode (env_Payload envelope) of
       None \<Rightarrow> Inl PayloadBase64
     | Some payload \<Rightarrow>
         if length payload = 0 \<or> length payload > maxManifestBytes then Inl PayloadSize
         else case raw_url_decode (env_Signature envelope) of
           None \<Rightarrow> Inl SignatureBase64
         | Some signature \<Rightarrow>
             (case decodeStrict dec_Document zero_Document payload of
                Inl e \<Rightarrow> Inl (DocumentDecode e)
              | Inr document \<Rightarrow> Inr (payload, signature, document)))"

text \<open>The second part authenticates the document: policy digest and grant of the signing key.\<close>

definition authenticate ::
  "crypto \<Rightarrow> Envelope \<Rightarrow> bytes \<Rightarrow> bytes \<Rightarrow> bytes \<Rightarrow> Document \<Rightarrow> verify_error + (string \<times> KeyGrant)" where
  "authenticate c envelope rootPublicKey payload signature document =
    (case Validate c document of
       Some e \<Rightarrow> Inl (VerifyDocument e)
     | None \<Rightarrow>
         (case ValidateKeyPolicy c (doc_KeyPolicy document) rootPublicKey of
            Inl e \<Rightarrow> Inl (VerifyPolicy e)
          | Inr policyDigest \<Rightarrow>
              (case KeyPolicyGrant (doc_KeyPolicy document) (env_KeyID envelope) (doc_Version document) of
                 Inl e \<Rightarrow> Inl (VerifyPolicy e)
               | Inr (grant, signingPublicKey) \<Rightarrow>
                   if length signature \<noteq> signature_size \<or> \<not> ed25519_verify c signingPublicKey payload signature
                   then Inl SignatureVerification
                   else Inr (policyDigest, grant))))"

definition Verify ::
  "crypto \<Rightarrow> Envelope \<Rightarrow> bytes \<Rightarrow> time \<Rightarrow> TrustedState \<Rightarrow> (verify_error + Document) \<times> TrustedState" where
  "Verify c envelope rootPublicKey now trusted =
    (case openEnvelope envelope rootPublicKey of
       Inl e \<Rightarrow> (Inl e, trusted)
     | Inr (payload, signature, document) \<Rightarrow>
         (case authenticate c envelope rootPublicKey payload signature document of
            Inl e \<Rightarrow> (Inl e, trusted)
          | Inr (policyDigest, grant) \<Rightarrow>
              if now < doc_IssuedAt document - allowedClockSkew then (Inl NotValidYet, trusted)
              else if \<not> now < doc_ExpiresAt document then (Inl Expired, trusted)
              else
                (let candidate = candidateState c payload document policyDigest grant in
                 case validateStateTransition trusted candidate of
                   Some e \<Rightarrow> (Inl (VerifyState e), trusted)
                 | None \<Rightarrow>
                     if ts_Version trusted = ts_Version candidate then (Inr document, trusted)
                     else (Inr document, candidate))))"

definition CatalogDigest :: "crypto \<Rightarrow> Catalog \<Rightarrow> catalog_error + string" where
  "CatalogDigest c catalog =
    (let discovery = canonicalDiscovery (cat_Discovery catalog); nodes = canonicalNodes (cat_Nodes catalog) in
     case validateCatalogContents discovery nodes of
       Some e \<Rightarrow> Inl e
     | None \<Rightarrow> Inr (raw_url_encode (sha256_sum c (print_json (enc_Catalog
         \<lparr>cat_Revision = cat_Revision catalog, cat_Discovery = discovery, cat_Nodes = nodes\<rparr>)))))"

end
