(* ===== verification/ManifestCatalog.thy ===== *)
theory ManifestCatalog
  imports Manifest
begin

text \<open>
  The catalog side of \<open>manifest.go\<close>: the validators meet a declarative specification, the
  canonical form does not depend on the order of the input, validated contents survive their
  JSON form, and so the catalog digest identifies the catalog's contents.
\<close>

subsection \<open>Codecs\<close>

definition disc_wf :: "DiscoveryEndpoint \<Rightarrow> bool" where
  "disc_wf d \<longleftrightarrow> valid_utf8 (disc_ID d) \<and> valid_utf8 (disc_URL d)"

definition endpoint_wf :: "Endpoint \<Rightarrow> bool" where
  "endpoint_wf e \<longleftrightarrow> valid_utf8 (ep_ID e) \<and> valid_utf8 (ep_Transport e) \<and> valid_utf8 (ep_Address e) \<and>
     valid_utf8 (ep_ServerName e) \<and> valid_utf8 (ep_CredentialRef e)"

definition node_wf :: "Node \<Rightarrow> bool" where
  "node_wf n \<longleftrightarrow> valid_utf8 (node_ID n) \<and> valid_utf8 (node_Region n) \<and> valid_utf8 (node_CountryCode n) \<and>
     valid_utf8 (node_Provider n) \<and> list_all endpoint_wf (node_Endpoints n)"

definition document_wf :: "Document \<Rightarrow> bool" where
  "document_wf d \<longleftrightarrow> doc_SchemaVersion d = SchemaVersion \<and> time_in_range (doc_IssuedAt d) \<and>
     time_in_range (doc_ExpiresAt d) \<and> KeyPolicy_wf (doc_KeyPolicy d) \<and>
     list_all disc_wf (doc_Discovery d) \<and> list_all node_wf (doc_Nodes d)"

definition catalog_wf :: "Catalog \<Rightarrow> bool" where
  "catalog_wf k \<longleftrightarrow> list_all disc_wf (cat_Discovery k) \<and> list_all node_wf (cat_Nodes k)"

definition envelope_wf :: "Envelope \<Rightarrow> bool" where
  "envelope_wf e \<longleftrightarrow> valid_utf8 (env_Algorithm e) \<and> valid_utf8 (env_KeyID e) \<and>
     valid_utf8 (env_Payload e) \<and> valid_utf8 (env_Signature e)"

interpretation disc_codec: json_codec enc_DiscoveryEndpoint dec_DiscoveryEndpoint zero_DiscoveryEndpoint disc_wf
  by unfold_locales
    (simp_all add: enc_DiscoveryEndpoint_def dec_DiscoveryEndpoint_def DiscoveryEndpoint_fields_def
      zero_DiscoveryEndpoint_def disc_wf_def codec_simps)

interpretation endpoint_codec: json_codec enc_Endpoint dec_Endpoint zero_Endpoint endpoint_wf
  by unfold_locales
    (simp_all add: enc_Endpoint_def dec_Endpoint_def Endpoint_fields_def zero_Endpoint_def
      endpoint_wf_def codec_simps)

interpretation node_codec: json_codec enc_Node dec_Node zero_Node node_wf
  by unfold_locales
    (simp_all add: enc_Node_def dec_Node_def Node_fields_def zero_Node_def node_wf_def codec_simps
      endpoint_codec.dec_list_enc endpoint_codec.list_enc_ok)

lemma dec_enc_nodes: "list_all node_wf ns \<Longrightarrow> dec_list dec_Node zero_Node (enc_nodes ns) [] = Some ns"
  by (simp add: enc_nodes_def node_codec.dec_elems_enc)

lemma enc_nodes_ok: "list_all node_wf ns \<Longrightarrow> json_ok (enc_nodes ns)"
  by (auto simp: enc_nodes_def list_all_iff node_codec.enc_ok)

interpretation catalog_codec: json_codec enc_Catalog dec_Catalog zero_Catalog catalog_wf
  by unfold_locales
    (simp_all add: enc_Catalog_def dec_Catalog_def Catalog_fields_def zero_Catalog_def catalog_wf_def codec_simps
      disc_codec.dec_list_enc disc_codec.list_enc_ok dec_enc_nodes enc_nodes_ok)

interpretation document_codec: json_codec enc_Document dec_Document zero_Document document_wf
  by unfold_locales
    (simp_all add: enc_Document_def dec_Document_def Document_fields_def zero_Document_def document_wf_def
      codec_simps disc_codec.dec_list_enc disc_codec.list_enc_ok dec_enc_nodes enc_nodes_ok
      policy_codec.enc_ok policy_codec.dec_enc dec_enc_int json_ok_enc_int SchemaVersion_def)

interpretation envelope_codec: json_codec enc_Envelope dec_Envelope zero_Envelope envelope_wf
  by unfold_locales
    (simp_all add: enc_Envelope_def dec_Envelope_def Envelope_fields_def zero_Envelope_def envelope_wf_def
      codec_simps)

subsection \<open>What the validators accept\<close>

definition port_ok :: "string \<Rightarrow> bool" where
  "port_ok t \<longleftrightarrow> (\<exists>port. atoi t = Some port \<and> port \<in> {1..65535})"

definition source_ok :: "DiscoveryEndpoint \<Rightarrow> bool" where
  "source_ok d \<longleftrightarrow>
    match_string idPattern (disc_ID d) \<and> unat (disc_Priority d) \<in> {1..1000} \<and>
    (\<exists>u. ParseRequestURI (disc_URL d) = Some u \<and> u_Scheme u = ''https'' \<and> u_Host u \<noteq> [] \<and> u_User u = None \<and>
      u_RawQuery u = [] \<and> validHost (Hostname u) \<and> (Port u = [] \<or> port_ok (Port u)))"

definition endpoint_ok :: "Endpoint \<Rightarrow> bool" where
  "endpoint_ok e \<longleftrightarrow>
    match_string idPattern (ep_ID e) \<and>
    (\<exists>host portText. SplitHostPort (ep_Address e) = Some (host, portText) \<and> validHost host \<and> port_ok portText) \<and>
    match_string credentialPattern (ep_CredentialRef e) \<and> unat (ep_Priority e) \<in> {1..1000} \<and>
    (ep_Transport e = TransportAmneziaWG \<and> ep_ServerName e = [] \<or>
     ep_Transport e = TransportReality \<and> length (ep_ServerName e) \<le> 253 \<and> ParseIP (ep_ServerName e) = None \<and>
       match_string hostnamePattern (ep_ServerName e))"

definition node_ok :: "Node \<Rightarrow> bool" where
  "node_ok n \<longleftrightarrow>
    match_string idPattern (node_ID n) \<and> match_string regionPattern (node_Region n) \<and>
    match_string countryPattern (node_CountryCode n) \<and> match_string idPattern (node_Provider n) \<and>
    node_ASN n \<noteq> 0 \<and> length (node_Endpoints n) \<in> {1..16} \<and> list_all endpoint_ok (node_Endpoints n)"

definition catalog_spec :: "DiscoveryEndpoint list \<Rightarrow> Node list \<Rightarrow> bool" where
  "catalog_spec ds ns \<longleftrightarrow>
    length ds \<in> {1..16} \<and> list_all source_ok ds \<and> distinct (map disc_ID ds) \<and>
    length ns \<in> {1..1000} \<and> list_all node_ok ns \<and> distinct (map node_ID ns) \<and>
    distinct (map ep_ID (concat (map node_Endpoints ns)))"

lemma priority_iff: "\<not> (p = 0 \<or> p > 1000) \<longleftrightarrow> unat p \<in> {1..1000}" for p :: uint16
  by (auto simp: word_less_nat_alt unat_gt_0 Suc_le_eq)

lemma valid_port_iff: "valid_port t \<longleftrightarrow> port_ok t"
  by (auto simp: valid_port_def port_ok_def split: option.splits)

lemma transports_differ: "TransportReality \<noteq> TransportAmneziaWG"
  by (simp add: TransportReality_def TransportAmneziaWG_def)

lemma validateEndpoint_iff: "validateEndpoint e = None \<longleftrightarrow> endpoint_ok e"
  unfolding endpoint_ok_def priority_iff [symmetric] valid_port_iff [symmetric] validateEndpoint_def
  using transports_differ by (auto simp: not_less split: option.splits prod.splits)

lemma discovery_loop_iff:
  "discovery_loop i ids ds = None \<longleftrightarrow>
    list_all source_ok ds \<and> distinct (map disc_ID ds) \<and> set (map disc_ID ds) \<inter> set ids = {}"
proof (induction i ids ds rule: discovery_loop.induct)
  case (2 i ids d ds)
  have step: "discovery_loop i ids (d # ds) = None \<longleftrightarrow>
    source_ok d \<and> disc_ID d \<notin> set ids \<and> discovery_loop (i + 1) (disc_ID d # ids) ds = None"
    unfolding source_ok_def priority_iff [symmetric] valid_port_iff [symmetric]
    by (auto split: option.splits dest: ParseRequestURI_fragment)
  show ?case
  proof (cases "source_ok d \<and> disc_ID d \<notin> set ids")
    case True
    then obtain u where "match_string idPattern (disc_ID d)" "\<not> (disc_Priority d = 0 \<or> disc_Priority d > 1000)"
      "ParseRequestURI (disc_URL d) = Some u" "u_Scheme u = ''https''" "u_Host u \<noteq> []" "u_User u = None"
      "u_RawQuery u = []" "u_Fragment u = []" "validHost (Hostname u)" "\<not> (Port u \<noteq> [] \<and> \<not> valid_port (Port u))"
      unfolding priority_iff valid_port_iff source_ok_def using ParseRequestURI_fragment by blast
    with 2 True have "discovery_loop (i + 1) (disc_ID d # ids) ds = None \<longleftrightarrow>
        list_all source_ok ds \<and> distinct (map disc_ID ds) \<and> set (map disc_ID ds) \<inter> set (disc_ID d # ids) = {}"
      by auto
    then show ?thesis using True unfolding step by auto
  qed (use step in auto)
qed simp

lemma endpoint_loop_iff:
  "endpoint_loop n i ids es = Inr ids' \<longleftrightarrow>
    list_all endpoint_ok es \<and> distinct (map ep_ID es) \<and> set (map ep_ID es) \<inter> set ids = {} \<and>
    ids' = rev (map ep_ID es) @ ids"
proof (induction es arbitrary: i ids)
  case (Cons e es)
  have "endpoint_loop n i ids (e # es) = Inr ids' \<longleftrightarrow>
      endpoint_ok e \<and> ep_ID e \<notin> set ids \<and> endpoint_loop n (i + 1) (ep_ID e # ids) es = Inr ids'"
    by (auto simp: validateEndpoint_iff [symmetric] split: option.splits)
  then show ?case unfolding Cons by auto
qed auto

lemma node_loop_iff:
  "node_loop i nids eids ns = None \<longleftrightarrow>
    list_all node_ok ns \<and> distinct (map node_ID ns) \<and> set (map node_ID ns) \<inter> set nids = {} \<and>
    distinct (map ep_ID (concat (map node_Endpoints ns))) \<and>
    set (map ep_ID (concat (map node_Endpoints ns))) \<inter> set eids = {}"
proof (induction ns arbitrary: i nids eids)
  case (Cons n ns)
  let ?ids = "map ep_ID (node_Endpoints n)" and ?rest = "map ep_ID (concat (map node_Endpoints ns))"
  let ?attrs = "match_string idPattern (node_ID n) \<and> match_string regionPattern (node_Region n) \<and>
    match_string countryPattern (node_CountryCode n) \<and> match_string idPattern (node_Provider n) \<and>
    node_ASN n \<noteq> 0 \<and> length (node_Endpoints n) \<in> {1..16}"
  have "node_loop i nids eids (n # ns) = None \<longleftrightarrow>
      ?attrs \<and> node_ID n \<notin> set nids \<and>
      (\<exists>ids. endpoint_loop (node_ID n) 0 eids (node_Endpoints n) = Inr ids \<and>
        node_loop (i + 1) (node_ID n # nids) ids ns = None)"
    by (simp add: Suc_le_eq not_less split: sum.splits)
  also have "\<dots> \<longleftrightarrow> node_ok n \<and> node_ID n \<notin> set nids \<and> distinct ?ids \<and> set ?ids \<inter> set eids = {} \<and>
      node_loop (i + 1) (node_ID n # nids) (rev ?ids @ eids) ns = None"
    unfolding endpoint_loop_iff node_ok_def by blast
  also have "\<dots> \<longleftrightarrow> node_ok n \<and> node_ID n \<notin> set nids \<and> distinct ?ids \<and> set ?ids \<inter> set eids = {} \<and>
      list_all node_ok ns \<and> distinct (map node_ID ns) \<and>
      set (map node_ID ns) \<inter> insert (node_ID n) (set nids) = {} \<and>
      distinct ?rest \<and> set ?rest \<inter> (set ?ids \<union> set eids) = {}"
    unfolding Cons by simp
  finally show ?case
    by (simp only: list.map concat.simps map_append distinct_append set_append list.pred_inject
        distinct.simps list.set) blast
qed simp

lemma validateCatalogContents_iff: "validateCatalogContents ds ns = None \<longleftrightarrow> catalog_spec ds ns"
  unfolding validateCatalogContents_def validateDiscovery_def catalog_spec_def
  using discovery_loop_iff [of 0 "[]" ds] node_loop_iff [of 0 "[]" "[]" ns]
  by (auto simp: Suc_le_eq split: option.splits)

subsection \<open>The canonical order\<close>

interpretation disc_order: slice_order discoveryLess "\<lambda>d. (disc_Priority d, disc_ID d)"
  by unfold_locales (auto simp: discoveryLess_def less_prod_def)

interpretation endpoint_order: slice_order endpointLess "\<lambda>e. (ep_Priority e, ep_ID e)"
  by unfold_locales (auto simp: endpointLess_def less_prod_def)

interpretation node_order: slice_order nodeLess node_ID
  by unfold_locales (simp add: nodeLess_def)

lemma distinct_pair_keyI: "distinct (map g xs) \<Longrightarrow> distinct (map (\<lambda>x. (f x, g x)) xs)"
  by (induction xs) auto

definition canonNode :: "Node \<Rightarrow> Node" where
  "canonNode n = n\<lparr>node_Endpoints := sort_slice endpointLess (node_Endpoints n)\<rparr>"

lemma canonicalNodes_eq: "canonicalNodes ns = sort_slice nodeLess (map canonNode ns)"
  by (simp add: canonicalNodes_def canonNode_def [abs_def])

lemma mset_canonicalNodes [simp]: "mset (canonicalNodes ns) = mset (map canonNode ns)"
  by (simp add: canonicalNodes_eq)

lemma mset_canonicalDiscovery [simp]: "mset (canonicalDiscovery ds) = mset ds"
  by (simp add: canonicalDiscovery_def)

text \<open>What a node is, apart from the order of its endpoints.\<close>

definition node_view :: "Node \<Rightarrow> Node \<times> Endpoint multiset" where
  "node_view n = (n\<lparr>node_Endpoints := []\<rparr>, mset (node_Endpoints n))"

definition same_contents :: "Catalog \<Rightarrow> Catalog \<Rightarrow> bool" where
  "same_contents a b \<longleftrightarrow> cat_Revision a = cat_Revision b \<and> mset (cat_Discovery a) = mset (cat_Discovery b) \<and>
     image_mset node_view (mset (cat_Nodes a)) = image_mset node_view (mset (cat_Nodes b))"

lemma node_view_canonNode [simp]: "node_view (canonNode n) = node_view n"
  by (simp add: node_view_def canonNode_def)

lemma canonNode_view:
  assumes "node_view m = node_view n" and "distinct (map ep_ID (node_Endpoints m))"
  shows "canonNode m = canonNode n"
proof -
  have es: "mset (node_Endpoints m) = mset (node_Endpoints n)"
    and rest: "m\<lparr>node_Endpoints := []\<rparr> = n\<lparr>node_Endpoints := []\<rparr>"
    using assms(1) unfolding node_view_def prod.inject by blast+
  have "m\<lparr>node_Endpoints := es\<rparr> = n\<lparr>node_Endpoints := es\<rparr>" for es
    using arg_cong [OF rest, of "node_Endpoints_update (\<lambda>_. es)"] by simp
  moreover have "sort_slice endpointLess (node_Endpoints m) = sort_slice endpointLess (node_Endpoints n)"
    by (rule endpoint_order.sort_slice_perm [OF es distinct_pair_keyI [OF assms(2)]])
  ultimately show ?thesis unfolding canonNode_def by (simp only:)
qed

lemma image_mset_through:
  assumes "image_mset v A = image_mset v B"
    and "\<And>x y. x \<in># A \<Longrightarrow> y \<in># B \<Longrightarrow> v x = v y \<Longrightarrow> f x = f y"
  shows "image_mset f A = image_mset f B"
  using assms
proof (induction A arbitrary: B)
  case (add x A)
  then obtain y where y: "y \<in># B" "v x = v y"
    by (metis image_iff image_mset_add_mset in_image_mset union_single_eq_member)
  then obtain B' where B: "B = add_mset y B'" by (meson mset_add)
  have "image_mset v A = image_mset v B'" using add.prems(1) y(2) by (simp add: B)
  then have "image_mset f A = image_mset f B'" by (rule add.IH) (simp add: add.prems(2) B)
  then show ?case using add.prems(2) [of x y] y by (simp add: B)
qed simp

lemma distinct_concatD: "distinct (map f (concat (map g xs))) \<Longrightarrow> x \<in> set xs \<Longrightarrow> distinct (map f (g x))"
  by (induction xs) auto

lemma mset_concat_map: "mset (concat (map g xs)) = \<Sum>\<^sub># (image_mset (\<lambda>x. mset (g x)) (mset xs))"
  by (induction xs) simp_all

lemma endpoints_canonical: "mset (concat (map node_Endpoints (canonicalNodes ns))) =
    mset (concat (map node_Endpoints ns))"
  by (simp add: mset_concat_map multiset.map_comp comp_def canonNode_def)

lemma node_IDs_canonical: "mset (map node_ID (canonicalNodes ns)) = mset (map node_ID ns)"
  by (simp add: multiset.map_comp comp_def canonNode_def)

lemma node_ok_canonNode [simp]: "node_ok (canonNode n) \<longleftrightarrow> node_ok n"
  by (simp add: node_ok_def canonNode_def list_all_iff)

lemma set_canonicalNodes: "set (canonicalNodes ns) = canonNode ` set ns"
  by (simp add: canonicalNodes_eq)

lemma length_canonicalNodes [simp]: "length (canonicalNodes ns) = length ns"
  by (simp add: canonicalNodes_eq)

lemma catalog_spec_canonical:
  "catalog_spec (canonicalDiscovery ds) (canonicalNodes ns) \<longleftrightarrow> catalog_spec ds ns"
proof -
  have "distinct (map node_ID (canonicalNodes ns)) \<longleftrightarrow> distinct (map node_ID ns)"
    by (rule mset_eq_imp_distinct_iff [OF node_IDs_canonical])
  moreover have "distinct (map ep_ID (concat (map node_Endpoints (canonicalNodes ns)))) \<longleftrightarrow>
      distinct (map ep_ID (concat (map node_Endpoints ns)))"
    using endpoints_canonical [of ns] by (intro mset_eq_imp_distinct_iff) (simp only: mset_map)
  ultimately show ?thesis
    by (simp add: catalog_spec_def canonicalDiscovery_def list_all_iff set_canonicalNodes)
qed

lemma canonical_same_contents:
  assumes "same_contents a b" and "catalog_spec (cat_Discovery a) (cat_Nodes a)"
  shows "canonicalDiscovery (cat_Discovery a) = canonicalDiscovery (cat_Discovery b) \<and>
    canonicalNodes (cat_Nodes a) = canonicalNodes (cat_Nodes b)"
proof
  show "canonicalDiscovery (cat_Discovery a) = canonicalDiscovery (cat_Discovery b)"
    unfolding canonicalDiscovery_def using assms
    by (intro disc_order.sort_slice_perm distinct_pair_keyI) (simp_all add: same_contents_def catalog_spec_def)
  have "image_mset canonNode (mset (cat_Nodes a)) = image_mset canonNode (mset (cat_Nodes b))"
  proof (rule image_mset_through [of node_view])
    show "image_mset node_view (mset (cat_Nodes a)) = image_mset node_view (mset (cat_Nodes b))"
      using assms(1) unfolding same_contents_def by blast
    fix m n assume "m \<in># mset (cat_Nodes a)" and view: "node_view m = node_view n"
    then have "m \<in> set (cat_Nodes a)" by simp
    moreover have "distinct (map ep_ID (concat (map node_Endpoints (cat_Nodes a))))"
      using assms(2) unfolding catalog_spec_def by blast
    ultimately show "canonNode m = canonNode n"
      by (intro canonNode_view [OF view]) (rule distinct_concatD)
  qed
  moreover have "distinct (map node_ID (map canonNode (cat_Nodes a)))"
    using assms(2) by (simp add: catalog_spec_def comp_def canonNode_def)
  ultimately show "canonicalNodes (cat_Nodes a) = canonicalNodes (cat_Nodes b)"
    unfolding canonicalNodes_eq by (intro node_order.sort_slice_perm) simp_all
qed

lemma same_contents_canonical:
  assumes "cat_Revision a = cat_Revision b"
    and "canonicalDiscovery (cat_Discovery a) = canonicalDiscovery (cat_Discovery b)"
    and "canonicalNodes (cat_Nodes a) = canonicalNodes (cat_Nodes b)"
  shows "same_contents a b"
proof -
  have "image_mset node_view (mset (canonicalNodes ns)) = image_mset node_view (mset ns)" for ns
    by (simp add: multiset.map_comp comp_def)
  then show ?thesis
    unfolding same_contents_def using assms by (metis mset_canonicalDiscovery)
qed

subsection \<open>Validated contents survive their JSON form\<close>

lemma pattern_classes:
  "\<not> in_cls (rx_classes idPattern) 0xFFFD" "\<not> in_cls (rx_classes regionPattern) 0xFFFD"
  "\<not> in_cls (rx_classes countryPattern) 0xFFFD" "\<not> in_cls (rx_classes hostnamePattern) 0xFFFD"
  "\<not> in_cls (rx_classes credentialPattern) 0xFFFD"
  by (simp_all add: idPattern_def regionPattern_def countryPattern_def hostnamePattern_def host_label_def
      credentialPattern_def lower_digit_def dash_def dot_def host_class_def in_cls_def numeral_2_eq_2)

lemmas pattern_utf8 = match_string_utf8 [OF _ pattern_classes(1)] match_string_utf8 [OF _ pattern_classes(2)]
  match_string_utf8 [OF _ pattern_classes(3)] match_string_utf8 [OF _ pattern_classes(4)]
  match_string_utf8 [OF _ pattern_classes(5)]

lemma validHost_utf8: "validHost h \<Longrightarrow> valid_utf8 h"
  by (auto simp: validHost_def split: if_splits intro: pattern_utf8 ascii_valid_utf8 dest: ParseIP_ascii)

lemma address_utf8:
  assumes "SplitHostPort a = Some (h, p)" "validHost h" "port_ok p"
  shows "valid_utf8 a"
proof -
  have hp: "valid_utf8 h" "valid_utf8 p"
    using assms(2,3) by (auto intro: validHost_utf8 ascii_valid_utf8 dest: atoi_ascii simp: port_ok_def)
  then have "valid_utf8 (h @ ('':'' @ p))" "valid_utf8 (''['' @ (h @ ('']:'' @ p)))"
    by (intro valid_utf8_append; simp)+
  then show ?thesis using SplitHostPort_form [OF assms(1)] by auto
qed

lemma endpoint_ok_wf: "endpoint_ok e \<Longrightarrow> endpoint_wf e"
proof -
  assume e: "endpoint_ok e"
  then have "valid_utf8 (ep_Transport e)" "valid_utf8 (ep_ServerName e)"
    unfolding endpoint_ok_def TransportAmneziaWG_def TransportReality_def by (auto intro: pattern_utf8)
  with e show ?thesis
    unfolding endpoint_wf_def endpoint_ok_def by (blast intro: pattern_utf8 address_utf8)
qed

lemma node_ok_wf: "node_ok n \<Longrightarrow> node_wf n"
  unfolding node_ok_def node_wf_def list_all_iff by (blast intro: pattern_utf8 endpoint_ok_wf)

definition urls_utf8 :: "DiscoveryEndpoint list \<Rightarrow> bool" where
  "urls_utf8 ds \<longleftrightarrow> list_all (\<lambda>d. valid_utf8 (disc_URL d)) ds"

lemma catalog_spec_wf:
  assumes "catalog_spec ds ns" and "urls_utf8 ds"
  shows "list_all disc_wf ds" and "list_all node_wf ns"
proof -
  show "list_all disc_wf ds"
    using assms unfolding catalog_spec_def urls_utf8_def source_ok_def disc_wf_def list_all_iff
    by (blast intro: pattern_utf8)
  show "list_all node_wf ns"
    using assms unfolding catalog_spec_def list_all_iff by (blast intro: node_ok_wf)
qed

lemma urls_utf8_canonical [simp]: "urls_utf8 (canonicalDiscovery ds) \<longleftrightarrow> urls_utf8 ds"
  by (simp add: urls_utf8_def canonicalDiscovery_def list_all_iff)

subsection \<open>The catalog digest\<close>

definition canonicalCatalog :: "Catalog \<Rightarrow> Catalog" where
  "canonicalCatalog k = \<lparr>cat_Revision = cat_Revision k, cat_Discovery = canonicalDiscovery (cat_Discovery k),
     cat_Nodes = canonicalNodes (cat_Nodes k)\<rparr>"

definition catalog_bytes :: "Catalog \<Rightarrow> bytes" where
  "catalog_bytes k = print_json (enc_Catalog (canonicalCatalog k))"

lemma CatalogDigest_iff:
  "CatalogDigest c k = Inr d \<longleftrightarrow>
    catalog_spec (cat_Discovery k) (cat_Nodes k) \<and> d = raw_url_encode (sha256_sum c (catalog_bytes k))"
proof (cases "validateCatalogContents (canonicalDiscovery (cat_Discovery k)) (canonicalNodes (cat_Nodes k))")
  case None
  then have "catalog_spec (cat_Discovery k) (cat_Nodes k)"
    by (simp add: validateCatalogContents_iff catalog_spec_canonical)
  with None show ?thesis
    by (auto simp: CatalogDigest_def Let_def catalog_bytes_def canonicalCatalog_def)
next
  case (Some e)
  then have "\<not> catalog_spec (cat_Discovery k) (cat_Nodes k)"
    using validateCatalogContents_iff [of "canonicalDiscovery (cat_Discovery k)" "canonicalNodes (cat_Nodes k)"]
    by (simp add: catalog_spec_canonical)
  with Some show ?thesis by (auto simp: CatalogDigest_def Let_def)
qed

lemma catalog_bytes_inject:
  assumes "catalog_spec (cat_Discovery a) (cat_Nodes a)" "urls_utf8 (cat_Discovery a)"
    and "catalog_spec (cat_Discovery b) (cat_Nodes b)" "urls_utf8 (cat_Discovery b)"
  shows "catalog_bytes a = catalog_bytes b \<longleftrightarrow> canonicalCatalog a = canonicalCatalog b"
proof -
  have "catalog_wf (canonicalCatalog k)"
    if "catalog_spec (cat_Discovery k) (cat_Nodes k)" "urls_utf8 (cat_Discovery k)" for k
    using that catalog_spec_wf [of "canonicalDiscovery (cat_Discovery k)" "canonicalNodes (cat_Nodes k)"]
    by (simp add: catalog_wf_def canonicalCatalog_def catalog_spec_canonical)
  then show ?thesis
    unfolding catalog_bytes_def using assms by (intro catalog_codec.print_inject)
qed

lemma catalog_spec_same:
  assumes "same_contents a b" and "catalog_spec (cat_Discovery a) (cat_Nodes a)"
  shows "catalog_spec (cat_Discovery b) (cat_Nodes b)"
  using canonical_same_contents [OF assms] assms(2) catalog_spec_canonical by metis

lemma canonicalCatalog_eq_iff:
  assumes "catalog_spec (cat_Discovery a) (cat_Nodes a)"
  shows "canonicalCatalog a = canonicalCatalog b \<longleftrightarrow> same_contents a b"
proof -
  have "canonicalCatalog a = canonicalCatalog b \<longleftrightarrow> cat_Revision a = cat_Revision b \<and>
      canonicalDiscovery (cat_Discovery a) = canonicalDiscovery (cat_Discovery b) \<and>
      canonicalNodes (cat_Nodes a) = canonicalNodes (cat_Nodes b)"
    by (simp add: canonicalCatalog_def)
  moreover have "same_contents a b \<Longrightarrow> cat_Revision a = cat_Revision b" by (simp add: same_contents_def)
  ultimately show ?thesis
    using canonical_same_contents [OF _ assms, of b] same_contents_canonical [of a b] by blast
qed

subsection \<open>A sample catalog\<close>

definition sample_catalog :: "uint64 \<Rightarrow> Catalog" where
  "sample_catalog r = \<lparr>cat_Revision = r,
     cat_Discovery = [\<lparr>disc_ID = ''d'', disc_URL = ''https://h/m'', disc_Priority = 1\<rparr>],
     cat_Nodes = [\<lparr>node_ID = ''n'', node_Region = ''r'', node_CountryCode = ''NL'', node_Provider = ''p'',
       node_ASN = 1, node_Endpoints =
         [\<lparr>ep_ID = ''e'', ep_Transport = ''amneziawg'', ep_Address = ''h:1'', ep_ServerName = [],
            ep_CredentialRef = ''c'', ep_Priority = 1\<rparr>]\<rparr>]\<rparr>"

lemmas host_defs = validHost_def hostnamePattern_def host_label_def host_class_def lower_digit_def dash_def
  dot_def match_string_def in_cls_def

lemma sample_patterns:
  "match_string idPattern ''d''" "match_string idPattern ''n''" "match_string idPattern ''p''"
  "match_string idPattern ''e''" "match_string regionPattern ''r''" "match_string countryPattern ''NL''"
  "match_string credentialPattern ''c''"
  by (simp_all add: idPattern_def regionPattern_def credentialPattern_def countryPattern_def match_head_upto
      match_times_cls lower_digit_def dash_def in_cls_def)

lemma sample_host: "validHost ''h''"
  by (simp add: host_defs)

lemma sample_url: "ParseRequestURI ''https://h/m'' =
    Some \<lparr>u_Scheme = ''https'', u_Opaque = [], u_User = None, u_Host = ''h'', u_Path = ''/m'', u_RawQuery = [],
      u_Fragment = []\<rparr>"
  by code_simp

lemma sample_address: "SplitHostPort ''h:1'' = Some (''h'', ''1'')" "port_ok ''1''" "Hostname
    \<lparr>u_Scheme = ''https'', u_Opaque = [], u_User = None, u_Host = ''h'', u_Path = ''/m'', u_RawQuery = [],
      u_Fragment = []\<rparr> = ''h''" "Port
    \<lparr>u_Scheme = ''https'', u_Opaque = [], u_User = None, u_Host = ''h'', u_Path = ''/m'', u_RawQuery = [],
      u_Fragment = []\<rparr> = []"
  by (simp_all add: SplitHostPort_def has_prefix_def port_ok_def atoi_def digits_value_def is_digit_def
      Hostname_def Port_def split_url_host_def)

lemma sample_catalog_spec: "catalog_spec (cat_Discovery (sample_catalog r)) (cat_Nodes (sample_catalog r))"
  by (simp add: sample_catalog_def catalog_spec_def source_ok_def node_ok_def endpoint_ok_def sample_patterns
      sample_host sample_url sample_address TransportAmneziaWG_def)

lemma sample_catalog_utf8: "urls_utf8 (cat_Discovery (sample_catalog r))"
  by (simp add: sample_catalog_def urls_utf8_def)

subsection \<open>Properties\<close>

text \<open>
  C7. The catalog validators, with their loops and maps, accept contents exactly when they
  meet the specification: 1 to 16 discovery sources and 1 to 1000 nodes with 1 to 16
  endpoints each, identifiers distinct within the sources, within the nodes and over all
  endpoints of all nodes, and every source, node and endpoint well-formed on its own.
\<close>
theorem validateCatalogContents_refines:
  "validateCatalogContents discovery nodes = None \<longleftrightarrow> catalog_spec discovery nodes"
  by (rule validateCatalogContents_iff)

text \<open>
  C8. The catalog digest identifies the catalog: two accepted catalogs with UTF-8 URLs have
  the same digest exactly when they have the same revision and the same contents up to the
  order of sources, nodes and endpoints, unless SHA-256 maps their two canonical encodings to
  one value.
\<close>
theorem CatalogDigest_identifies:
  assumes "CatalogDigest c a = Inr d" and "CatalogDigest c b = Inr d'"
    and "urls_utf8 (cat_Discovery a)" and "urls_utf8 (cat_Discovery b)"
    and "sha256_sum c (catalog_bytes a) = sha256_sum c (catalog_bytes b) \<longrightarrow> catalog_bytes a = catalog_bytes b"
  shows "d = d' \<longleftrightarrow> same_contents a b"
proof -
  have spec: "catalog_spec (cat_Discovery a) (cat_Nodes a)" "catalog_spec (cat_Discovery b) (cat_Nodes b)"
    and "d = d' \<longleftrightarrow> sha256_sum c (catalog_bytes a) = sha256_sum c (catalog_bytes b)"
    using assms(1,2) by (auto simp: CatalogDigest_iff)
  then have "d = d' \<longleftrightarrow> catalog_bytes a = catalog_bytes b" using assms(5) by metis
  also have "\<dots> \<longleftrightarrow> same_contents a b"
    using catalog_bytes_inject [OF spec(1) assms(3) spec(2) assms(4)] canonicalCatalog_eq_iff [OF spec(1)]
    by blast
  finally show ?thesis .
qed

theorem CatalogDigest_identifies_witness:
  "\<exists>d d'. CatalogDigest sample_crypto (sample_catalog 1) = Inr d \<and>
     CatalogDigest sample_crypto (sample_catalog 2) = Inr d' \<and>
     (d = d' \<longleftrightarrow> same_contents (sample_catalog 1) (sample_catalog 2)) \<and>
     \<not> same_contents (sample_catalog 1) (sample_catalog 2)"
proof -
  let ?a = "sample_catalog 1" and ?b = "sample_catalog 2"
  obtain d d' where d: "CatalogDigest sample_crypto ?a = Inr d" "CatalogDigest sample_crypto ?b = Inr d'"
    using CatalogDigest_iff sample_catalog_spec by metis
  have differ: "sha256_sum sample_crypto (catalog_bytes ?a) \<noteq> sha256_sum sample_crypto (catalog_bytes ?b)"
  proof -
    have "take 13 (sha256_sum sample_crypto (catalog_bytes (sample_catalog r))) = take 13 (catalog_bytes (sample_catalog r))" for r
    proof -
      have "13 \<le> length (catalog_bytes (sample_catalog r))"
        by (simp add: catalog_bytes_def canonicalCatalog_def enc_Catalog_def)
      then show ?thesis by (simp add: sample_crypto_def pad_to_def)
    qed
    moreover have "take 13 (catalog_bytes ?a) \<noteq> take 13 (catalog_bytes ?b)"
      by (simp add: catalog_bytes_def canonicalCatalog_def enc_Catalog_def sample_catalog_def enc_uint_def
          dec_text.simps digit_char_def)
    ultimately show ?thesis by metis
  qed
  have "\<not> same_contents ?a ?b" by (simp add: same_contents_def sample_catalog_def)
  moreover have "d = d' \<longleftrightarrow> same_contents ?a ?b"
    by (rule CatalogDigest_identifies [OF d sample_catalog_utf8 sample_catalog_utf8]) (use differ in simp)
  ultimately show ?thesis using d by blast
qed

end
