(* ===== verification/ManifestVerify.thy ===== *)
theory ManifestVerify
  imports ManifestCatalog
begin

text \<open>
  The signing side of \<open>manifest.go\<close>. What \<open>Issue\<close> signs, \<open>Verify\<close> accepts and returns; what
  \<open>Verify\<close> accepts was signed by the one key the root granted for its version and is fresh;
  and the trusted state of a client only moves forward, over single calls and whole runs.
\<close>

subsection \<open>Accepted envelopes\<close>

lemma openEnvelope_Inr:
  assumes "openEnvelope env root = Inr (payload, sg, doc)"
  shows "length root = public_key_size" "env_Algorithm env = Algorithm"
    "raw_url_decode (env_Payload env) = Some payload" "length payload \<le> maxManifestBytes"
    "raw_url_decode (env_Signature env) = Some sg" "decodeStrict dec_Document zero_Document payload = Inr doc"
  using assms by (auto simp: openEnvelope_def split: if_splits option.splits sum.splits)

lemma authenticate_Inr:
  assumes "authenticate c env root payload sg doc = Inr (digest, grant)"
  shows "Validate c doc = None" "ValidateKeyPolicy c (doc_KeyPolicy doc) root = Inr digest"
    "\<exists>pk. KeyPolicyGrant (doc_KeyPolicy doc) (env_KeyID env) (doc_Version doc) = Inr (grant, pk) \<and>
      ed25519_verify c pk payload sg"
  using assms by (auto simp: authenticate_def split: if_splits option.splits sum.splits)

text \<open>The candidate state of an accepted envelope and everything checked on the way to it.\<close>

definition accepts ::
  "crypto \<Rightarrow> Envelope \<Rightarrow> bytes \<Rightarrow> time \<Rightarrow> bytes \<Rightarrow> Document \<Rightarrow> TrustedState \<Rightarrow> bool" where
  "accepts c env root now payload doc cand \<longleftrightarrow>
    (\<exists>sg digest grant. openEnvelope env root = Inr (payload, sg, doc) \<and>
      authenticate c env root payload sg doc = Inr (digest, grant) \<and>
      cand = candidateState c payload doc digest grant) \<and>
    doc_IssuedAt doc - allowedClockSkew \<le> now \<and> now < doc_ExpiresAt doc"

lemma Verify_accepts:
  assumes "accepts c env root now payload doc cand"
  shows "Verify c env root now trusted =
    (case validateStateTransition trusted cand of
       Some e \<Rightarrow> (Inl (VerifyState e), trusted)
     | None \<Rightarrow> (Inr doc, if ts_Version trusted = ts_Version cand then trusted else cand))"
proof -
  obtain sg digest grant where "openEnvelope env root = Inr (payload, sg, doc)"
    "authenticate c env root payload sg doc = Inr (digest, grant)"
    "cand = candidateState c payload doc digest grant"
    "\<not> now < doc_IssuedAt doc - allowedClockSkew" "now < doc_ExpiresAt doc"
    using assms unfolding accepts_def not_less by blast
  then show ?thesis by (simp add: Verify_def Let_def split: option.split)
qed

text \<open>Either the envelope is refused before its state is looked at, or it is acceptable.\<close>

lemma Verify_cases:
  obtains (refused) e where "Verify c env root now trusted = (Inl e, trusted)"
  | (accepted) payload doc cand where "accepts c env root now payload doc cand"
proof (cases "openEnvelope env root")
  case (Inl e)
  then show thesis by (intro refused [of e]) (simp add: Verify_def)
next
  case (Inr x)
  obtain payload sg doc where x: "x = (payload, sg, doc)" by (cases x) auto
  show thesis
  proof (cases "authenticate c env root payload sg doc")
    case (Inl e)
    then show thesis by (intro refused [of e]) (simp add: Verify_def Inr x)
  next
    case auth: (Inr y)
    obtain digest grant where y: "y = (digest, grant)" by (cases y) auto
    consider "now < doc_IssuedAt doc - allowedClockSkew" | "\<not> now < doc_ExpiresAt doc"
      | "doc_IssuedAt doc - allowedClockSkew \<le> now" "now < doc_ExpiresAt doc" by linarith
    then show thesis
    proof cases
      case 1
      then show thesis by (intro refused [of NotValidYet]) (simp add: Verify_def Inr x auth y)
    next
      case 2
      then show thesis
        by (cases "now < doc_IssuedAt doc - allowedClockSkew")
          (auto intro: refused simp: Verify_def Inr x auth y)
    next
      case 3
      then show thesis
        using Inr x auth y by (intro accepted [of payload doc]) (auto simp: accepts_def)
    qed
  qed
qed

lemma Verify_Inr:
  assumes "Verify c env root now trusted = (Inr doc, st)"
  obtains payload cand where "accepts c env root now payload doc cand"
    and "validateStateTransition trusted cand = None"
    and "st = (if ts_Version trusted = ts_Version cand then trusted else cand)"
proof (rule Verify_cases [of c env root now trusted])
  fix payload d cand assume acc: "accepts c env root now payload d cand"
  from assms Verify_accepts [OF acc, of trusted] show thesis
    by (intro that [of payload cand]) (use acc in \<open>auto split: option.splits\<close>)
qed (use assms in simp)

lemma Verify_Inl:
  assumes "Verify c env root now trusted = (Inl e, st)"
  shows "st = trusted"
proof (rule Verify_cases [of c env root now trusted])
  fix payload d cand assume "accepts c env root now payload d cand"
  from assms Verify_accepts [OF this, of trusted] show ?thesis by (simp split: option.splits)
qed (use assms in simp)

lemma Validate_None:
  assumes "Validate c doc = None"
  shows "doc_SchemaVersion doc = SchemaVersion" "doc_Version doc \<noteq> 0" "doc_CatalogRevision doc \<noteq> 0"
    "\<not> is_zero (doc_IssuedAt doc)" "doc_IssuedAt doc < doc_ExpiresAt doc"
    "doc_ExpiresAt doc - doc_IssuedAt doc \<le> maxManifestLife"
    "validateKeyPolicyShape c (doc_KeyPolicy doc) = None" "catalog_spec (doc_Discovery doc) (doc_Nodes doc)"
proof -
  have "time_sub (doc_ExpiresAt doc) (doc_IssuedAt doc) \<le> maxManifestLife"
    using assms by (simp add: Validate_def not_less split: if_splits)
  then show "doc_ExpiresAt doc - doc_IssuedAt doc \<le> maxManifestLife"
    by (simp add: time_sub_le_iff maxManifestLife_def duration_defs)
qed (use assms in \<open>simp_all add: Validate_def validateCatalogContents_iff [symmetric] split: if_splits option.splits\<close>)

subsection \<open>The trusted state\<close>

definition state_complete :: "TrustedState \<Rightarrow> bool" where
  "state_complete s \<longleftrightarrow> ts_Version s \<noteq> 0 \<and> \<not> is_zero (ts_IssuedAt s) \<and> ts_PolicyVersion s \<noteq> 0 \<and>
     ts_SigningKeyEpoch s \<noteq> 0 \<and> validSHA256Digest (ts_PayloadSHA256 s) \<and>
     validSHA256Digest (ts_PolicySHA256 s) \<and> length (ts_SigningKeyID s) = encoded_len sha256_size"

definition state_ok :: "TrustedState \<Rightarrow> bool" where
  "state_ok s \<longleftrightarrow> s = zero_TrustedState \<or> state_complete s"

text \<open>\<open>s\<close> may be followed by \<open>t\<close>: unchanged, or a later version that moves nothing back.\<close>

definition state_le :: "TrustedState \<Rightarrow> TrustedState \<Rightarrow> bool" where
  "state_le s t \<longleftrightarrow> s = t \<or>
     ts_Version s < ts_Version t \<and> ts_PolicyVersion s \<le> ts_PolicyVersion t \<and>
     ts_SigningKeyEpoch s \<le> ts_SigningKeyEpoch t \<and> (ts_Version s \<noteq> 0 \<longrightarrow> ts_IssuedAt s \<le> ts_IssuedAt t)"

lemma state_le_trans:
  assumes "state_le s t" and "state_le t u"
  shows "state_le s u"
proof (cases "s = t \<or> t = u")
  case True
  then show ?thesis using assms by auto
next
  case False
  then have st: "ts_Version s < ts_Version t" "ts_PolicyVersion s \<le> ts_PolicyVersion t"
      "ts_SigningKeyEpoch s \<le> ts_SigningKeyEpoch t" "ts_Version s \<noteq> 0 \<longrightarrow> ts_IssuedAt s \<le> ts_IssuedAt t"
    and tu: "ts_Version t < ts_Version u" "ts_PolicyVersion t \<le> ts_PolicyVersion u"
      "ts_SigningKeyEpoch t \<le> ts_SigningKeyEpoch u" "ts_Version t \<noteq> 0 \<longrightarrow> ts_IssuedAt t \<le> ts_IssuedAt u"
    using assms unfolding state_le_def by blast+
  have "ts_Version t \<noteq> 0" using st(1) by auto
  then have "ts_Version s \<noteq> 0 \<longrightarrow> ts_IssuedAt s \<le> ts_IssuedAt u" using st(4) tu(4) by linarith
  with less_trans [OF st(1) tu(1)] order_trans [OF st(2) tu(2)] order_trans [OF st(3) tu(3)]
  show ?thesis unfolding state_le_def by blast
qed

lemma digest_facts [simp]:
  "validSHA256Digest []  = False"
  "length d = sha256_size \<Longrightarrow> validSHA256Digest (raw_url_encode d)"
  by (simp_all add: validSHA256Digest_def) (simp add: raw_url_decode_def)

lemma candidate_complete:
  assumes "crypto_ok c" and "accepts c env root now payload doc cand"
  shows "state_complete cand" and "ts_Version cand = doc_Version doc"
    and "ts_PayloadSHA256 cand = raw_url_encode (sha256_sum c payload)"
proof -
  obtain sg digest grant where auth: "authenticate c env root payload sg doc = Inr (digest, grant)"
    and cand: "cand = candidateState c payload doc digest grant"
    using assms(2) unfolding accepts_def by blast
  obtain pk where grant: "KeyPolicyGrant (doc_KeyPolicy doc) (env_KeyID env) (doc_Version doc) = Inr (grant, pk)"
    using authenticate_Inr(3) [OF auth] by blast
  note doc = Validate_None [OF authenticate_Inr(1) [OF auth]]
  have digest: "digest = raw_url_encode (sha256_sum c (print_json (enc_KeyPolicy (canonicalKeyPolicy (doc_KeyPolicy doc)))))"
    using ValidateKeyPolicy_ok(5) [OF authenticate_Inr(2) [OF auth]] .
  have key: "kg_KeyID grant = KeyID c pk" "kg_Epoch grant \<noteq> 0"
    using KeyPolicyGrant_key [OF doc(7) grant] KeyPolicyGrant_iff [OF doc(7)] grant by auto
  have "kp_Version (doc_KeyPolicy doc) \<noteq> 0"
    using doc(7) by (auto simp: validateKeyPolicyShape_def split: if_splits)
  then show "state_complete cand"
    using doc key assms(1)
    by (simp add: state_complete_def cand candidateState_def digest crypto_okD(1) length_KeyID)
  show "ts_Version cand = doc_Version doc" "ts_PayloadSHA256 cand = raw_url_encode (sha256_sum c payload)"
    by (simp_all add: cand candidateState_def)
qed

lemma transition_zero: "validateStateTransition zero_TrustedState cand = None"
  by (simp add: validateStateTransition_def zero_TrustedState_def is_zero_def)

lemma transition_complete:
  assumes "state_complete s" and "validateStateTransition s cand = None"
  shows "ts_PolicyVersion s \<le> ts_PolicyVersion cand" and "ts_Version s \<le> ts_Version cand"
    and "ts_Version s = ts_Version cand \<Longrightarrow> ts_PayloadSHA256 cand = ts_PayloadSHA256 s"
    and "ts_Version s < ts_Version cand \<Longrightarrow> ts_IssuedAt s \<le> ts_IssuedAt cand \<and>
      ts_SigningKeyEpoch s \<le> ts_SigningKeyEpoch cand"
  using assms unfolding validateStateTransition_def state_complete_def
  by (simp_all add: not_less split: if_split_asm)

lemma transition_le:
  assumes "state_ok s" "validateStateTransition s cand = None" "state_complete cand"
  shows "state_le s (if ts_Version s = ts_Version cand then s else cand)"
proof (cases "s = zero_TrustedState")
  case True
  then have "ts_Version s = 0" "ts_PolicyVersion s = 0" "ts_SigningKeyEpoch s = 0"
    by (simp_all add: zero_TrustedState_def)
  with assms(3) show ?thesis by (simp add: state_le_def state_complete_def word_pos_iff)
next
  case False
  then have "state_complete s" using assms(1) by (simp add: state_ok_def)
  from transition_complete [OF this assms(2)] show ?thesis
    by (auto simp: state_le_def order.order_iff_strict)
qed

subsection \<open>Runs of a client\<close>

definition client_step :: "crypto \<Rightarrow> bytes \<Rightarrow> TrustedState \<Rightarrow> Envelope \<times> time \<Rightarrow> TrustedState" where
  "client_step c root s input = snd (Verify c (fst input) root (snd input) s)"

lemma client_step_state:
  assumes "crypto_ok c" "state_ok s"
  shows "state_ok (client_step c root s i)" and "state_le s (client_step c root s i)"
proof -
  have "state_ok (client_step c root s i) \<and> state_le s (client_step c root s i)"
  proof (rule Verify_cases [of c "fst i" root "snd i" s])
    fix payload doc cand assume acc: "accepts c (fst i) root (snd i) payload doc cand"
    note cand = candidate_complete(1) [OF assms(1) acc]
    show ?thesis
    proof (cases "validateStateTransition s cand")
      case None
      then have "client_step c root s i = (if ts_Version s = ts_Version cand then s else cand)"
        by (simp add: client_step_def Verify_accepts [OF acc])
      then show ?thesis
        using transition_le [OF assms(2) None cand] assms(2) cand by (simp add: state_ok_def)
    qed (use assms(2) in \<open>simp add: client_step_def Verify_accepts [OF acc] state_le_def\<close>)
  qed (use assms(2) in \<open>simp add: client_step_def state_le_def\<close>)
  then show "state_ok (client_step c root s i)" "state_le s (client_step c root s i)" by simp_all
qed

interpretation client: ratchet "client_step c root" state_le "\<lambda>s. crypto_ok c \<and> state_ok s" for c root
proof unfold_locales
  show "state_le s s" for s by (simp add: state_le_def)
  show "state_le s u" if "state_le s t" "state_le t u" for s t u using that by (rule state_le_trans)
qed (simp_all add: client_step_state)

text \<open>The documents a client accepts on the way, each with the payload it was decoded from.\<close>

definition payload_of :: "Envelope \<Rightarrow> bytes" where
  "payload_of env = (case raw_url_decode (env_Payload env) of Some p \<Rightarrow> p | None \<Rightarrow> [])"

fun client_log :: "crypto \<Rightarrow> bytes \<Rightarrow> TrustedState \<Rightarrow> (Envelope \<times> time) list \<Rightarrow> (bytes \<times> Document) list" where
  "client_log c root s [] = []"
| "client_log c root s (i # is) =
    (case Verify c (fst i) root (snd i) s of
       (Inr doc, s') \<Rightarrow> (payload_of (fst i), doc) # client_log c root s' is
     | (Inl _, s') \<Rightarrow> client_log c root s' is)"

lemma Verify_state:
  assumes "crypto_ok c" "state_ok s" "Verify c env root now s = (Inr doc, s')"
  shows "state_complete s'" and "ts_Version s' = doc_Version doc" and "ts_Version s \<le> doc_Version doc"
    and "ts_PayloadSHA256 s' = raw_url_encode (sha256_sum c (payload_of env))"
    and "doc_Version doc = ts_Version s \<Longrightarrow> s' = s"
    and "decodeStrict dec_Document zero_Document (payload_of env) = Inr doc"
proof -
  obtain payload cand where acc: "accepts c env root now payload doc cand"
    and tr: "validateStateTransition s cand = None"
    and s': "s' = (if ts_Version s = ts_Version cand then s else cand)"
    using assms(3) by (rule Verify_Inr)
  note cand = candidate_complete [OF assms(1) acc]
  obtain sg where op: "openEnvelope env root = Inr (payload, sg, doc)"
    using acc unfolding accepts_def by blast
  have payload: "payload_of env = payload"
    using openEnvelope_Inr(3) [OF op] by (simp add: payload_of_def)
  show "decodeStrict dec_Document zero_Document (payload_of env) = Inr doc"
    using openEnvelope_Inr(6) [OF op] payload by simp
  have sc: "s = zero_TrustedState \<or> state_complete s" using assms(2) by (simp add: state_ok_def)
  have nz: "ts_Version cand \<noteq> 0" using cand(1) by (simp add: state_complete_def)
  have z: "ts_Version s = 0" if "s = zero_TrustedState" using that by (simp add: zero_TrustedState_def)
  show "ts_Version s' = doc_Version doc" "doc_Version doc = ts_Version s \<Longrightarrow> s' = s"
    using s' cand(2) by auto
  show "ts_Version s \<le> doc_Version doc"
    using sc z transition_complete(2) [OF _ tr] cand(2) by auto
  show "state_complete s'" using sc z nz s' cand(1) by auto
  show "ts_PayloadSHA256 s' = raw_url_encode (sha256_sum c (payload_of env))"
    using sc z nz s' transition_complete(3) [OF _ tr] cand(3) payload by auto
qed

lemma client_log_versions:
  assumes "crypto_ok c" "state_ok s" "(p, d) \<in> set (client_log c root s is)"
  shows "ts_Version s \<le> doc_Version d" and "decodeStrict dec_Document zero_Document p = Inr d"
    and "doc_Version d = ts_Version s \<Longrightarrow> raw_url_encode (sha256_sum c p) = ts_PayloadSHA256 s"
proof -
  have "ts_Version s \<le> doc_Version d \<and> decodeStrict dec_Document zero_Document p = Inr d \<and>
      (doc_Version d = ts_Version s \<longrightarrow> raw_url_encode (sha256_sum c p) = ts_PayloadSHA256 s)"
    using assms(2,3)
  proof (induction "is" arbitrary: s)
    case (Cons i js)
    obtain r s' where V: "Verify c (fst i) root (snd i) s = (r, s')" by force
    show ?case
    proof (cases r)
      case (Inl e)
      then have "s' = s" using V Verify_Inl by blast
      then show ?thesis using Cons V Inl by simp
    next
      case (Inr doc)
      note vs = Verify_state [OF assms(1) Cons.prems(1) V [unfolded Inr]]
      have ok: "state_ok s'" using vs(1) by (simp add: state_ok_def)
      from Cons.prems(2) V Inr consider "p = payload_of (fst i)" "d = doc" | "(p, d) \<in> set (client_log c root s' js)"
        by auto
      then show ?thesis
      proof cases
        case 1
        then show ?thesis using vs by auto
      next
        case 2
        from Cons.IH [OF ok this] show ?thesis
          using vs(2,3,5) by (metis order.antisym order.trans)
      qed
    qed
  qed simp
  then show "ts_Version s \<le> doc_Version d" "decodeStrict dec_Document zero_Document p = Inr d"
    "doc_Version d = ts_Version s \<Longrightarrow> raw_url_encode (sha256_sum c p) = ts_PayloadSHA256 s" by blast+
qed

lemma client_log_sorted:
  assumes "crypto_ok c" "state_ok s"
  shows "sorted_wrt (\<lambda>(p, d) (p', d'). doc_Version d \<le> doc_Version d' \<and>
    (doc_Version d = doc_Version d' \<longrightarrow> sha256_sum c p = sha256_sum c p')) (client_log c root s is)"
  using assms(2)
proof (induction "is" arbitrary: s)
  case (Cons i js)
  obtain r s' where V: "Verify c (fst i) root (snd i) s = (r, s')" by force
  show ?case
  proof (cases r)
    case (Inl e)
    then show ?thesis using Cons V Verify_Inl by fastforce
  next
    case (Inr doc)
    note vs = Verify_state [OF assms(1) Cons.prems V [unfolded Inr]]
    have ok: "state_ok s'" using vs(1) by (simp add: state_ok_def)
    have "doc_Version doc \<le> doc_Version d \<and>
        (doc_Version doc = doc_Version d \<longrightarrow> sha256_sum c (payload_of (fst i)) = sha256_sum c p)"
      if "(p, d) \<in> set (client_log c root s' js)" for p d
      using client_log_versions [OF assms(1) ok that] vs(2,4) by (metis raw_url_encode_inject)
    then show ?thesis using Cons.IH [OF ok] V Inr by (auto simp: sorted_wrt.simps)
  qed
qed simp

subsection \<open>Issue and Verify\<close>

lemma Issue_Inr:
  assumes "Issue c catalog version policy root now ttl sk = Inr env"
  defines "doc \<equiv> issuedDocument catalog version policy now ttl"
  shows "validEd25519PrivateKey c sk" and "minute \<le> ttl \<and> ttl \<le> maxManifestLife"
    and "\<exists>digest. ValidateKeyPolicy c policy root = Inr digest"
    and "\<exists>grant pk. KeyPolicyGrant policy (KeyID c (public_of sk)) version = Inr (grant, pk)"
    and "Validate c doc = None" and "marshal_Document doc = Some (print_json (enc_Document doc))"
    and "length (print_json (enc_Document doc)) \<le> maxManifestBytes"
    and "env = \<lparr>env_Algorithm = Algorithm, env_KeyID = KeyID c (public_of sk),
      env_Payload = raw_url_encode (print_json (enc_Document doc)),
      env_Signature = raw_url_encode (ed25519_sign c sk (print_json (enc_Document doc)))\<rparr>"
proof -
  note * = assms(1) [unfolded Issue_def, folded doc_def]
  show "validEd25519PrivateKey c sk" "minute \<le> ttl \<and> ttl \<le> maxManifestLife"
    "\<exists>digest. ValidateKeyPolicy c policy root = Inr digest"
    "\<exists>grant pk. KeyPolicyGrant policy (KeyID c (public_of sk)) version = Inr (grant, pk)"
    "Validate c doc = None"
    using * by (auto simp: not_less split: if_split_asm sum.split_asm option.split_asm)
  have "\<exists>p. marshal_Document doc = Some p" and "\<And>p. marshal_Document doc = Some p \<Longrightarrow>
      length p \<le> maxManifestBytes \<and>
      env = \<lparr>env_Algorithm = Algorithm, env_KeyID = KeyID c (public_of sk),
        env_Payload = raw_url_encode p, env_Signature = raw_url_encode (ed25519_sign c sk p)\<rparr>"
    using * by (auto simp: not_less split: if_split_asm sum.split_asm option.split_asm)
  moreover have "marshal_Document doc = Some p \<Longrightarrow> p = print_json (enc_Document doc)" for p
    by (auto simp: marshal_Document_def split: if_splits)
  ultimately show "marshal_Document doc = Some (print_json (enc_Document doc))"
    "length (print_json (enc_Document doc)) \<le> maxManifestBytes"
    "env = \<lparr>env_Algorithm = Algorithm, env_KeyID = KeyID c (public_of sk),
      env_Payload = raw_url_encode (print_json (enc_Document doc)),
      env_Signature = raw_url_encode (ed25519_sign c sk (print_json (enc_Document doc)))\<rparr>"
    by blast+
qed

lemma canonicalKeyPolicy_valid:
  assumes "ValidateKeyPolicy c policy root = Inr digest"
  shows "ValidateKeyPolicy c (canonicalKeyPolicy policy) root = Inr digest"
    and "KeyPolicyGrant (canonicalKeyPolicy policy) k v = Inr g \<longleftrightarrow> KeyPolicyGrant policy k v = Inr g"
  using ValidateKeyPolicy_perm [OF assms, of "canonicalKeyGrants (kp_Keys policy)" k v "fst g" "snd g"]
  by (simp_all add: canonicalKeyPolicy_def canonicalKeyGrants_def)

lemma issuedDocument_wf:
  assumes "Issue c catalog version policy root now ttl sk = Inr env" and "urls_utf8 (cat_Discovery catalog)"
  shows "document_wf (issuedDocument catalog version policy now ttl)"
proof -
  let ?doc = "issuedDocument catalog version policy now ttl"
  obtain digest where "ValidateKeyPolicy c policy root = Inr digest"
    using Issue_Inr(3) [OF assms(1)] by blast
  then have "KeyPolicy_wf (doc_KeyPolicy ?doc)"
    using ValidateKeyPolicy_wf [OF canonicalKeyPolicy_valid(1)] by (simp add: issuedDocument_def)
  moreover have "urls_utf8 (doc_Discovery ?doc)" using assms(2) by (simp add: issuedDocument_def)
  ultimately show ?thesis
    using Validate_None(1,8) [OF Issue_Inr(5) [OF assms(1)]] catalog_spec_wf Issue_Inr(6) [OF assms(1)]
    by (auto simp: document_wf_def marshal_Document_def split: if_splits)
qed

lemma encoded_len_mono: "m \<le> n \<Longrightarrow> encoded_len m \<le> encoded_len n"
proof -
  have "m mod 3 < 3" "n mod 3 < 3" "m = m div 3 * 3 + m mod 3" "n = n div 3 * 3 + n mod 3"
    by simp_all
  moreover assume "m \<le> n"
  ultimately show ?thesis unfolding encoded_len_def by linarith
qed

lemma Issue_openEnvelope:
  assumes "crypto_ok c" "Issue c catalog version policy root now ttl sk = Inr env" "urls_utf8 (cat_Discovery catalog)"
  defines "doc \<equiv> issuedDocument catalog version policy now ttl"
  shows "openEnvelope env root =
    Inr (print_json (enc_Document doc), ed25519_sign c sk (print_json (enc_Document doc)), doc)"
proof -
  note I = Issue_Inr [OF assms(2), folded doc_def]
  have "length root = public_key_size" using I(3) ValidateKeyPolicy_ok(1) by blast
  moreover have "KeyID c (public_of sk) \<noteq> []"
    using length_KeyID [OF assms(1), of "public_of sk"] by (auto simp: encoded_len_def)
  moreover have ne: "print_json (enc_Document doc) \<noteq> []" by (simp add: enc_Document_def)
  moreover have "0 < encoded_len (length (print_json (enc_Document doc)))"
    using ne by (metis length_greater_0_conv length_raw_url_encode raw_url_encode_Nil_iff)
  moreover have "decodeStrict dec_Document zero_Document (print_json (enc_Document doc)) = Inr doc"
    unfolding doc_def by (rule document_codec.decodeStrict_enc) (rule issuedDocument_wf [OF assms(2,3)])
  ultimately show ?thesis
    using I(7) encoded_len_mono [OF I(7)] crypto_okD(4) [OF assms(1)]
    by (simp add: openEnvelope_def I(8) not_less)
qed

lemma Issue_accepts:
  assumes "crypto_ok c" "Issue c catalog version policy root now ttl sk = Inr env" "urls_utf8 (cat_Discovery catalog)"
    and "\<forall>grant pk. KeyPolicyGrant policy (KeyID c (public_of sk)) version = Inr (grant, pk) \<longrightarrow>
      sha256_sum c pk = sha256_sum c (public_of sk) \<longrightarrow> pk = public_of sk"
    and "truncate_second now - allowedClockSkew \<le> now'" "now' < truncate_second now + ttl"
  defines "doc \<equiv> issuedDocument catalog version policy now ttl"
  shows "\<exists>digest grant pk. ValidateKeyPolicy c policy root = Inr digest \<and>
    KeyPolicyGrant policy (KeyID c (public_of sk)) version = Inr (grant, pk) \<and>
    accepts c env root now' (print_json (enc_Document doc)) doc
      (candidateState c (print_json (enc_Document doc)) doc digest grant)"
proof -
  note I = Issue_Inr [OF assms(2), folded doc_def]
  obtain digest grant pk where digest: "ValidateKeyPolicy c policy root = Inr digest"
    and grant: "KeyPolicyGrant policy (KeyID c (public_of sk)) version = Inr (grant, pk)"
    using I(3,4) by blast
  have pk: "pk = public_of sk"
    using KeyPolicyGrant_key(1) [OF ValidateKeyPolicy_ok(2) [OF digest] grant] assms(4) grant by (simp add: KeyID_def)
  have grant': "KeyPolicyGrant (canonicalKeyPolicy policy) (KeyID c (public_of sk)) version = Inr (grant, pk)"
    using grant canonicalKeyPolicy_valid(2) [OF digest] by blast
  let ?p = "print_json (enc_Document doc)"
  have "authenticate c env root ?p (ed25519_sign c sk ?p) doc = Inr (digest, grant)"
    using I(5) canonicalKeyPolicy_valid(1) [OF digest] grant' private_key(2) [OF I(1) assms(1)]
      crypto_okD(4) [OF assms(1)] pk
    by (simp add: authenticate_def I(8)) (simp add: doc_def issuedDocument_def)
  moreover have "openEnvelope env root = Inr (?p, ed25519_sign c sk ?p, doc)"
    unfolding doc_def by (rule Issue_openEnvelope [OF assms(1-3)])
  moreover have "doc_IssuedAt doc = truncate_second now" "doc_ExpiresAt doc = truncate_second now + ttl"
    by (simp_all add: doc_def issuedDocument_def)
  ultimately have "accepts c env root now' ?p doc (candidateState c ?p doc digest grant)"
    using assms(5,6) unfolding accepts_def by auto
  then show ?thesis using digest grant by blast
qed

lemma Issue_DecodeEnvelope:
  assumes "crypto_ok c" "Issue c catalog version policy root now ttl sk = Inr env"
  shows "DecodeEnvelope (bytes_reader (print_json (enc_Envelope env) @ [CHR 0x0A])) = Inr env"
proof -
  let ?p = "print_json (enc_Document (issuedDocument catalog version policy now ttl))"
  have env: "env = \<lparr>env_Algorithm = Algorithm, env_KeyID = KeyID c (public_of sk), env_Payload = raw_url_encode ?p,
      env_Signature = raw_url_encode (ed25519_sign c sk ?p)\<rparr>"
    using Issue_Inr(8) [OF assms(2)] .
  have "envelope_wf env" by (simp add: envelope_wf_def env Algorithm_def KeyID_def)
  then have "decodeStrict dec_Envelope zero_Envelope (print_json (enc_Envelope env) @ [CHR 0x0A]) = Inr env"
    by (rule envelope_codec.decodeStrict_enc_newline)
  moreover have "length (print_json (enc_Envelope env) @ [CHR 0x0A]) \<le> encoded_len maxManifestBytes + 1024"
    using encoded_len_mono [OF Issue_Inr(7) [OF assms(2)]] crypto_okD(1,4) [OF assms(1)]
    by (simp add: env enc_Envelope_def enc_string_def KeyID_def Algorithm_def escape_ascii_def)
      (simp add: encoded_len_def [of 32] encoded_len_def [of 64])
  ultimately show ?thesis by (simp add: DecodeEnvelope_def Let_def)
qed

subsection \<open>A sample envelope\<close>

definition sample_now :: time where "sample_now = 1000 * second"
definition sample_root :: bytes where "sample_root = replicate 32 (CHR ''r'')"

definition sample_issue :: "uint64 \<Rightarrow> time \<Rightarrow> issue_error + Envelope" where
  "sample_issue version now =
    Issue sample_crypto (sample_catalog 1) version sample_policy sample_root now (10 * minute) (sample_key CHR ''a'')"

lemma sample_policy_valid: "\<exists>d. ValidateKeyPolicy sample_crypto sample_policy sample_root = Inr d"
  using Sign_Validate [OF sample_crypto_ok sample_policy_signed] by (simp add: sample_public sample_root_def)

lemma sample_policy_keys: "kp_Keys sample_policy = rev sample_grants"
proof (rule SignKeyPolicy_ok [OF sample_policy_signed])
  fix q assume q: "q = \<lparr>kp_Version = 1, kp_RootKeyID = KeyID sample_crypto (public_of (sample_key CHR ''r'')),
      kp_Keys = canonicalKeyGrants sample_grants, kp_Signature = []\<rparr>"
    and p: "sample_policy = q\<lparr>kp_Signature := raw_url_encode
      (ed25519_sign sample_crypto (sample_key CHR ''r'') (keyPolicySigningBytes q))\<rparr>"
  show ?thesis using arg_cong [OF p, of kp_Keys] by (simp add: q sample_grants_canonical)
qed

lemma sample_policy_grant:
  assumes "0 < v" "v \<le> 10"
  shows "KeyPolicyGrant sample_policy (KeyID sample_crypto (public_of (sample_key CHR ''a''))) v =
    Inr (sample_grant CHR ''a'' 1 1 10, replicate 32 (CHR ''a''))"
proof -
  have "(1 :: uint64) \<le> v" using assms(1) by (simp add: word_le_nat_alt word_less_nat_alt Suc_leI)
  then show ?thesis
    unfolding KeyPolicyGrant_iff [OF sample_policy_shape] using assms
    by (auto simp add: sample_policy_keys sample_grants_def sample_grant_def authorizes_def sample_public not_less word_gt_0)
qed

lemma sample_times: "time_in_range (1000 * second)" "time_in_range (1000 * second + 10 * minute)"
  "time_in_range (1001 * second)" "time_in_range (1001 * second + 10 * minute)"
  by code_simp+

lemma sample_document_valid:
  assumes "v \<noteq> 0" "now = 1000 * second \<or> now = 1001 * second"
  shows "Validate sample_crypto (issuedDocument (sample_catalog 1) v sample_policy now (10 * minute)) = None"
proof -
  have "validateKeyPolicyShape sample_crypto (canonicalKeyPolicy sample_policy) = None"
    using sample_policy_valid canonicalKeyPolicy_valid(1) ValidateKeyPolicy_ok(2) by metis
  moreover have "kp_Signature (canonicalKeyPolicy sample_policy) \<noteq> []"
    using sample_policy_valid
    by (auto simp: ValidateKeyPolicy_def canonicalKeyPolicy_def raw_url_decode_def split: if_splits option.splits)
  moreover have "validateCatalogContents (canonicalDiscovery (cat_Discovery (sample_catalog 1)))
      (canonicalNodes (cat_Nodes (sample_catalog 1))) = None"
    by (simp add: validateCatalogContents_iff catalog_spec_canonical sample_catalog_spec)
  moreover have "cat_Revision (sample_catalog 1) = 1" by (simp add: sample_catalog_def)
  ultimately show ?thesis
    using assms
    by (auto simp: Validate_def issuedDocument_def is_zero_def zero_time_def truncate_second_def
        duration_defs time_sub_def maxManifestLife_def)
qed

lemma length_time_text: "length (time_text t) \<le> 30"
proof -
  have "length (frac_text n) \<le> 10" for n
    using length_dropWhile_le [of _ "rev (pad 9 n)"] by (simp add: frac_text_def)
  then show ?thesis by (simp add: time_text_def Let_def split: prod.split)
qed

lemma sample_document_size:
  "length (print_json (enc_Document (issuedDocument (sample_catalog 1) v sample_policy now ttl))) \<le> maxManifestBytes"
proof -
  have "length (print_json (enc_KeyPolicy (canonicalKeyPolicy sample_policy))) \<le> maxKeyPolicyBytes"
  proof -
    have "canonicalKeyPolicy sample_policy = sample_policy"
      by (rule KeyPolicy.equality)
        (simp_all add: canonicalKeyPolicy_def sample_policy_keys sample_grants_canonical)
    then show ?thesis
      using length_signed_policy [OF sample_crypto_ok sample_policy_signed sample_grants_new] by simp
  qed
  then show ?thesis
    using length_time_text [of "truncate_second now"] length_time_text [of "truncate_second now + ttl"]
      length_dec_text_uint64 [of v]
    by (simp add: enc_Document_def issuedDocument_def sample_catalog_def canonicalDiscovery_def
        canonicalNodes_def sort_slice_def enc_list_def enc_nodes_def enc_Node_def enc_DiscoveryEndpoint_def
        enc_Endpoint_def enc_string_def enc_uint_def enc_int_def enc_time_def dec_text.simps escape_ascii_def
        SchemaVersion_def maxKeyPolicyBytes_def maxManifestBytes_def)
qed

lemma sample_issue_ok:
  assumes "0 < v" "v \<le> 10" "now = 1000 * second \<or> now = 1001 * second"
  shows "\<exists>env. sample_issue v now = Inr env"
proof -
  obtain d where "ValidateKeyPolicy sample_crypto sample_policy sample_root = Inr d"
    using sample_policy_valid by blast
  moreover have "truncate_second now = now" using assms(3) by (auto simp: truncate_second_def duration_defs)
  then have "marshal_Document (issuedDocument (sample_catalog 1) v sample_policy now (10 * minute)) \<noteq> None"
    using sample_times assms(3) by (auto simp: marshal_Document_def issuedDocument_def)
  moreover have "marshal_Document (issuedDocument (sample_catalog 1) v sample_policy now (10 * minute)) = Some p \<Longrightarrow>
      length p \<le> maxManifestBytes" for p
    using sample_document_size by (auto simp: marshal_Document_def split: if_splits)
  ultimately show ?thesis
    using sample_valid_key sample_policy_grant [OF assms(1,2)] sample_document_valid [OF _ assms(3)] assms(1)
    by (auto simp: sample_issue_def Issue_def maxManifestLife_def duration_defs not_less)
qed

lemma sample_keys_unique:
  "\<forall>grant pk. KeyPolicyGrant sample_policy (KeyID sample_crypto (public_of (sample_key ch))) v = Inr (grant, pk) \<longrightarrow>
     sha256_sum sample_crypto pk = sha256_sum sample_crypto (public_of (sample_key ch)) \<longrightarrow> pk = public_of (sample_key ch)"
  using KeyPolicyGrant_key(2) [OF sample_policy_shape]
  by (auto simp: sample_crypto_def pad_to_def sample_public split: if_splits)

lemma sample_accepted:
  assumes "0 < v" "v \<le> 10" "now = 1000 * second \<or> now = 1001 * second" "sample_issue v now = Inr env"
  shows "\<exists>doc st. doc_Version doc = v \<and> Verify sample_crypto env sample_root now zero_TrustedState = (Inr doc, st)"
proof -
  note issue = assms(4) [unfolded sample_issue_def]
  let ?doc = "issuedDocument (sample_catalog 1) v sample_policy now (10 * minute)"
  have "truncate_second now = now" using assms(3) by (auto simp: truncate_second_def duration_defs)
  then have "truncate_second now - allowedClockSkew \<le> now" "now < truncate_second now + 10 * minute"
    by (simp_all add: allowedClockSkew_def duration_defs)
  then obtain cand where "accepts sample_crypto env sample_root now (print_json (enc_Document ?doc)) ?doc cand"
    using Issue_accepts [OF sample_crypto_ok issue sample_catalog_utf8 sample_keys_unique] by blast
  from Verify_accepts [OF this, of zero_TrustedState]
  have "Verify sample_crypto env sample_root now zero_TrustedState =
      (Inr ?doc, if ts_Version zero_TrustedState = ts_Version cand then zero_TrustedState else cand)"
    by (simp add: transition_zero)
  then show ?thesis by (intro exI conjI) (simp_all add: issuedDocument_def)
qed

subsection \<open>Properties\<close>

text \<open>
  C9. What \<open>Issue\<close> signs, \<open>Verify\<close> accepts: within the document's validity window, under the
  same root, every client whose trusted state allows the step gets back exactly the
  canonical document that was issued, and a client's refusal can only come from its state.
  This needs UTF-8 URLs, as JSON replaces other bytes, and that SHA-256 does not map the
  signing key and the key that the policy grants under its identifier to one value, as
  \<open>Issue\<close> compares identifiers and not keys.
\<close>
theorem Issue_Verify_roundtrip:
  assumes "crypto_ok c" and "Issue c catalog version policy root now ttl sk = Inr env"
    and "urls_utf8 (cat_Discovery catalog)"
    and "\<forall>grant pk. KeyPolicyGrant policy (KeyID c (public_of sk)) version = Inr (grant, pk) \<longrightarrow>
      sha256_sum c pk = sha256_sum c (public_of sk) \<longrightarrow> pk = public_of sk"
    and "truncate_second now - allowedClockSkew \<le> now'" and "now' < truncate_second now + ttl"
  shows "\<exists>cand. ts_Version cand = version \<and> ts_IssuedAt cand = truncate_second now \<and> state_complete cand \<and>
    (\<forall>trusted. Verify c env root now' trusted =
      (case validateStateTransition trusted cand of
         Some e \<Rightarrow> (Inl (VerifyState e), trusted)
       | None \<Rightarrow> (Inr (issuedDocument catalog version policy now ttl),
           if ts_Version trusted = version then trusted else cand)))"
proof -
  let ?doc = "issuedDocument catalog version policy now ttl"
  obtain digest grant where acc: "accepts c env root now' (print_json (enc_Document ?doc)) ?doc
      (candidateState c (print_json (enc_Document ?doc)) ?doc digest grant)"
    using Issue_accepts [OF assms] by blast
  let ?cand = "candidateState c (print_json (enc_Document ?doc)) ?doc digest grant"
  have "ts_Version ?cand = version" "ts_IssuedAt ?cand = truncate_second now"
    by (simp_all add: candidateState_def issuedDocument_def)
  then show ?thesis
    using candidate_complete(1) [OF assms(1) acc] Verify_accepts [OF acc] by (intro exI [of _ ?cand]) simp
qed

theorem Issue_Verify_roundtrip_witness:
  "\<exists>env cand. sample_issue 1 (1000 * second) = Inr env \<and> ts_Version cand = 1 \<and>
    (\<forall>trusted. Verify sample_crypto env sample_root (1000 * second) trusted =
      (case validateStateTransition trusted cand of
         Some e \<Rightarrow> (Inl (VerifyState e), trusted)
       | None \<Rightarrow> (Inr (issuedDocument (sample_catalog 1) 1 sample_policy (1000 * second) (10 * minute)),
           if ts_Version trusted = 1 then trusted else cand)))"
proof -
  obtain env where env: "sample_issue 1 (1000 * second) = Inr env"
    using sample_issue_ok [of 1 "1000 * second"] by auto
  have "truncate_second (1000 * second) - allowedClockSkew \<le> 1000 * second"
    "1000 * second < truncate_second (1000 * second) + 10 * minute"
    by (simp_all add: truncate_second_def allowedClockSkew_def duration_defs)
  from Issue_Verify_roundtrip [OF sample_crypto_ok env [unfolded sample_issue_def] sample_catalog_utf8
      sample_keys_unique this] env
  show ?thesis by blast
qed

text \<open>
  C10. A document \<open>Verify\<close> returns is authentic and fresh: it is what the envelope's payload
  decodes to, its policy is signed by the pinned root, the payload's signature verifies under
  the key that policy grants for the document's version (and grants no other key), the
  document's contents are valid, its lifetime is at most an hour, and the clock is within it
  up to two minutes of skew.
\<close>
theorem Verify_authentic:
  assumes "Verify c env root now trusted = (Inr doc, st)"
  shows "\<exists>payload sg digest grant pk.
    raw_url_decode (env_Payload env) = Some payload \<and> raw_url_decode (env_Signature env) = Some sg \<and>
    decodeStrict dec_Document zero_Document payload = Inr doc \<and>
    ValidateKeyPolicy c (doc_KeyPolicy doc) root = Inr digest \<and>
    KeyPolicyGrant (doc_KeyPolicy doc) (env_KeyID env) (doc_Version doc) = Inr (grant, pk) \<and>
    ed25519_verify c pk payload sg \<and>
    (\<forall>k g p. KeyPolicyGrant (doc_KeyPolicy doc) k (doc_Version doc) = Inr (g, p) \<longrightarrow> p = pk) \<and>
    catalog_spec (doc_Discovery doc) (doc_Nodes doc) \<and>
    doc_IssuedAt doc - 2 * minute \<le> now \<and> now < doc_ExpiresAt doc \<and> doc_ExpiresAt doc \<le> doc_IssuedAt doc + hour"
proof -
  obtain payload cand where acc: "accepts c env root now payload doc cand"
    using assms by (rule Verify_Inr)
  then obtain sg digest grant where op: "openEnvelope env root = Inr (payload, sg, doc)"
    and auth: "authenticate c env root payload sg doc = Inr (digest, grant)"
    and now: "doc_IssuedAt doc - allowedClockSkew \<le> now" "now < doc_ExpiresAt doc"
    unfolding accepts_def by blast
  obtain pk where pk: "KeyPolicyGrant (doc_KeyPolicy doc) (env_KeyID env) (doc_Version doc) = Inr (grant, pk)"
    "ed25519_verify c pk payload sg"
    using authenticate_Inr(3) [OF auth] by blast
  note doc = Validate_None [OF authenticate_Inr(1) [OF auth]]
  have "p = pk" if "KeyPolicyGrant (doc_KeyPolicy doc) k (doc_Version doc) = Inr (g, p)" for k g p
    using KeyPolicyGrant_unique [OF doc(7) that pk(1)] by blast
  moreover have "doc_ExpiresAt doc \<le> doc_IssuedAt doc + hour"
    using doc(6) by (simp add: maxManifestLife_def)
  ultimately show ?thesis
    using openEnvelope_Inr [OF op] authenticate_Inr(2) [OF auth] pk doc(8) now
    unfolding allowedClockSkew_def by blast
qed

theorem Verify_authentic_witness:
  "\<exists>env doc st. Verify sample_crypto env sample_root (1000 * second) zero_TrustedState = (Inr doc, st) \<and>
    doc_Version doc = 1 \<and> doc_ExpiresAt doc \<le> doc_IssuedAt doc + hour \<and> 1000 * second < doc_ExpiresAt doc"
proof -
  obtain env where "sample_issue 1 (1000 * second) = Inr env"
    using sample_issue_ok [of 1 "1000 * second"] by auto
  then obtain doc st where "doc_Version doc = 1"
    "Verify sample_crypto env sample_root (1000 * second) zero_TrustedState = (Inr doc, st)"
    using sample_accepted [of 1 "1000 * second" env] by auto
  with Verify_authentic [OF this(2)] show ?thesis by blast
qed

text \<open>
  C11. One call never moves a client back: from a well-formed trusted state the returned state
  is well-formed and either the old one or one with a larger version whose policy version,
  signing epoch and issue time are not smaller; on every error it is the old one.
\<close>
theorem Verify_never_rolls_back:
  assumes "crypto_ok c" and "state_ok trusted" and "Verify c env root now trusted = (r, st)"
  shows "state_ok st \<and> state_le trusted st \<and> ((\<exists>e. r = Inl e) \<longrightarrow> st = trusted)"
proof -
  have "st = client_step c root trusted (env, now)" using assms(3) by (simp add: client_step_def)
  with client_step_state [OF assms(1,2)] assms(3) Verify_Inl show ?thesis by blast
qed

theorem Verify_never_rolls_back_witness:
  "\<exists>env doc st. Verify sample_crypto env sample_root (1000 * second) zero_TrustedState = (Inr doc, st) \<and>
    state_ok st \<and> state_le zero_TrustedState st"
proof -
  obtain env where "sample_issue 1 (1000 * second) = Inr env"
    using sample_issue_ok [of 1 "1000 * second"] by auto
  then obtain doc st where v: "Verify sample_crypto env sample_root (1000 * second) zero_TrustedState = (Inr doc, st)"
    using sample_accepted [of 1 "1000 * second" env] by auto
  moreover have "state_ok zero_TrustedState" by (simp add: state_ok_def)
  ultimately show ?thesis using Verify_never_rolls_back [OF sample_crypto_ok _ v] by blast
qed

text \<open>
  C12. Over any sequence of envelopes, from any mirror and at any times, the versions of the
  documents a client accepts never decrease, two accepted documents of one version have
  payloads with the same SHA-256 digest, equal payloads are equal documents, and the trusted
  state at the end has not moved back from any state on the way.
\<close>
theorem client_never_sees_equivocation:
  assumes "crypto_ok c" and "state_ok s"
  shows "sorted (map (\<lambda>(p, d). doc_Version d) (client_log c root s inputs)) \<and>
    (\<forall>(p, d) \<in> set (client_log c root s inputs). \<forall>(p', d') \<in> set (client_log c root s inputs).
       (doc_Version d = doc_Version d' \<longrightarrow> sha256_sum c p = sha256_sum c p') \<and> (p = p' \<longrightarrow> d = d')) \<and>
    (\<forall>n. state_le (foldl (client_step c root) s (take n inputs)) (foldl (client_step c root) s inputs))"
proof (intro conjI)
  let ?log = "client_log c root s inputs"
  note srt = client_log_sorted [OF assms, of root inputs]
  show "sorted (map (\<lambda>(p, d). doc_Version d) ?log)"
    unfolding sorted_map by (rule sorted_wrt_mono_rel [OF _ srt]) auto
  have "doc_Version d = doc_Version d' \<Longrightarrow> sha256_sum c p = sha256_sum c p'"
    if "(p, d) \<in> set ?log" "(p', d') \<in> set ?log" for p d p' d'
    using sorted_wrt_pairs [OF srt that] by auto
  moreover have "d = d'" if "(p, d) \<in> set ?log" "(p, d') \<in> set ?log" for p d d'
    using client_log_versions(2) [OF assms that(1)] client_log_versions(2) [OF assms that(2)] by simp
  ultimately show "\<forall>(p, d) \<in> set ?log. \<forall>(p', d') \<in> set ?log.
      (doc_Version d = doc_Version d' \<longrightarrow> sha256_sum c p = sha256_sum c p') \<and> (p = p' \<longrightarrow> d = d')"
    by blast
  show "\<forall>n. state_le (foldl (client_step c root) s (take n inputs)) (foldl (client_step c root) s inputs)"
    using client.run_prefix_le [of c s root "take n inputs" "drop n inputs" for n] assms by simp
qed

theorem client_never_sees_equivocation_witness:
  "\<exists>env env'. client_log sample_crypto sample_root zero_TrustedState [(env, 1000 * second), (env', 1001 * second)] \<noteq> [] \<and>
    sorted (map (\<lambda>(p, d). doc_Version d)
      (client_log sample_crypto sample_root zero_TrustedState [(env, 1000 * second), (env', 1001 * second)]))"
proof -
  obtain env where "sample_issue 1 (1000 * second) = Inr env"
    using sample_issue_ok [of 1 "1000 * second"] by auto
  then obtain doc st where v: "Verify sample_crypto env sample_root (1000 * second) zero_TrustedState = (Inr doc, st)"
    using sample_accepted [of 1 "1000 * second" env] by auto
  have "state_ok zero_TrustedState" by (simp add: state_ok_def)
  from client_never_sees_equivocation [OF sample_crypto_ok this, of sample_root "[(env, 1000 * second), (env, 1001 * second)]"] v
  show ?thesis by (intro exI [of _ env] conjI) simp_all
qed

end
