(* ===== verification/Issuance.thy ===== *)
theory Issuance
  imports ManifestVerify
begin

text \<open>
  \<open>internal/issuance\<close>: the issuer's durable state (\<open>state.go\<close>) and the process lock
  (\<open>lock_linux.go\<close>) over a small model of the file system around the state path. The
  directory, the state file and the lock file are what the code can observe of them; next to
  what is visible now, the model keeps what is on stable storage, of the directory entries and
  of the data of each file, so that a power loss is a step. Every system call may fail, as a
  flag of the call says.

  The locale \<open>state_store\<close> is the contract the issuer relies on; \<open>FileStore\<close> implements it.
\<close>

subsection \<open>The file system around the state path\<close>

datatype kind = Regular | Directory | Symlink | OtherKind

text \<open>\<open>fi_synced\<close> says that the data of the file is on stable storage.\<close>

record finfo =
  fi_kind :: kind
  fi_private :: bool
  fi_data :: bytes
  fi_synced :: bool

text \<open>
  \<open>fs_dir\<close> is the parent directory (\<open>None\<close> when it does not exist) with its own kind and
  whether group or others may write to it; \<open>fs_dir_stable\<close> says that the directory's own
  entry is on stable storage. \<open>fs_file\<close> is the file that opening the state path reaches and
  \<open>fs_disk\<close> the one its entry on stable storage names. \<open>fs_temps\<close> counts temporary files left behind,
  \<open>fs_lock\<close> is the lock file and \<open>fs_locked\<close> says that a process holds the lock.
\<close>

record fs =
  fs_dir :: "(kind \<times> bool) option"
  fs_dir_stable :: bool
  fs_file :: "finfo option"
  fs_disk :: "finfo option"
  fs_temps :: nat
  fs_lock :: "finfo option"
  fs_locked :: bool

text \<open>The system calls that fail.\<close>

record faults =
  x_mkdir :: bool
  x_stat :: bool
  x_fstat :: bool
  x_create :: bool
  x_chmod :: bool
  x_write :: bool
  x_sync :: bool
  x_close :: bool
  x_rename :: bool
  x_remove :: bool
  x_opendir :: bool
  x_syncdir :: bool
  x_open :: bool
  x_read :: bool
  x_lock :: bool

text \<open>\<open>os.MkdirAll(directory, 0o700)\<close>: creates a missing directory, private to its owner.\<close>

definition MkdirAll :: "faults \<Rightarrow> fs \<Rightarrow> fs option" where
  "MkdirAll x fs =
    (if x_mkdir x then None
     else case fs_dir fs of
       None \<Rightarrow> Some (fs\<lparr>fs_dir := Some (Directory, False), fs_dir_stable := False, fs_file := None,
         fs_disk := None, fs_lock := None\<rparr>)
     | Some (k, _) \<Rightarrow> if k = Directory then Some fs else None)"

text \<open>
  A power loss. \<open>o_flushed\<close> says whether the kernel had written the pending directory
  operations by itself, and \<open>o_data\<close> is what it had written of the data of a file that was
  never synced: any bytes. The lock goes with the process that held it.
\<close>

record outage =
  o_flushed :: bool
  o_data :: bytes

definition lose_data :: "outage \<Rightarrow> finfo \<Rightarrow> finfo" where
  "lose_data k f = (if fi_synced f then f else f\<lparr>fi_data := o_data k, fi_synced := True\<rparr>)"

definition power_loss :: "outage \<Rightarrow> fs \<Rightarrow> fs" where
  "power_loss k fs =
    (let entry = map_option (lose_data k) (if o_flushed k then fs_file fs else fs_disk fs)
     in if o_flushed k \<or> fs_dir_stable fs
        then fs\<lparr>fs_file := entry, fs_disk := entry, fs_dir_stable := True, fs_locked := False\<rparr>
        else fs\<lparr>fs_dir := None, fs_file := None, fs_disk := None, fs_lock := None, fs_locked := False\<rparr>)"

subsection \<open>Issuer state\<close>

record State =
  st_KeyID :: string
  st_KeyEpoch :: uint64
  st_PolicyVersion :: uint64
  st_PolicySHA256 :: string
  st_LastVersion :: uint64
  st_CatalogRevision :: uint64
  st_CatalogSHA256 :: string
  st_LastIssuedAt :: time

definition zero_State :: State where
  "zero_State = \<lparr>st_KeyID = [], st_KeyEpoch = 0, st_PolicyVersion = 0, st_PolicySHA256 = [],
     st_LastVersion = 0, st_CatalogRevision = 0, st_CatalogSHA256 = [], st_LastIssuedAt = zero_time\<rparr>"

datatype state_invalid =
    StateFieldsIncomplete
  | CatalogDigestInvalid
  | PolicyFieldsIncomplete
  | PolicyDigestInvalid

datatype store_error =
    StatePathRequired
  | DirectoryStat
  | DirectoryMissing
  | ParentNotDirectory
  | DirectoryWritable
  | OpenState
  | StatState
  | NotRegular
  | NotPrivate
  | ReadState
  | StateSize
  | DecodeState decode_error
  | InvalidState state_invalid
  | CreateDirectory
  | CreateTemporary
  | RestrictTemporary
  | EncodeState
  | SyncState
  | CloseState
  | ReplaceState
  | OpenDirectory
  | SyncDirectory

datatype lock_error =
    LockPathRequired
  | LockCreateDirectory
  | LockDirectory store_error
  | LockOpenDirectory
  | LockOpen
  | LockStat
  | LockNotPrivateRegular
  | LockBusy

definition maxStateBytes :: nat where "maxStateBytes = 16 * 1024"

text \<open>The encoder of \<open>Save\<close> has HTML escaping off.\<close>

definition enc_text :: "string \<Rightarrow> json" where
  "enc_text s = JStr (json_escape False s)"

definition enc_State :: "State \<Rightarrow> json" where
  "enc_State s = JObj
    [(''key_id'', enc_text (st_KeyID s)), (''key_epoch'', enc_uint (st_KeyEpoch s)),
     (''policy_version'', enc_uint (st_PolicyVersion s)), (''policy_sha256'', enc_text (st_PolicySHA256 s)),
     (''last_version'', enc_uint (st_LastVersion s)), (''catalog_revision'', enc_uint (st_CatalogRevision s)),
     (''catalog_sha256'', enc_text (st_CatalogSHA256 s)), (''last_issued_at'', enc_time (st_LastIssuedAt s))]"

definition State_fields :: "State field list" where
  "State_fields =
    [(''key_id'', field_of dec_string st_KeyID (\<lambda>x. st_KeyID_update (\<lambda>_. x))),
     (''key_epoch'', field_of dec_uint st_KeyEpoch (\<lambda>x. st_KeyEpoch_update (\<lambda>_. x))),
     (''policy_version'', field_of dec_uint st_PolicyVersion (\<lambda>x. st_PolicyVersion_update (\<lambda>_. x))),
     (''policy_sha256'', field_of dec_string st_PolicySHA256 (\<lambda>x. st_PolicySHA256_update (\<lambda>_. x))),
     (''last_version'', field_of dec_uint st_LastVersion (\<lambda>x. st_LastVersion_update (\<lambda>_. x))),
     (''catalog_revision'', field_of dec_uint st_CatalogRevision (\<lambda>x. st_CatalogRevision_update (\<lambda>_. x))),
     (''catalog_sha256'', field_of dec_string st_CatalogSHA256 (\<lambda>x. st_CatalogSHA256_update (\<lambda>_. x))),
     (''last_issued_at'', field_of dec_time st_LastIssuedAt (\<lambda>x. st_LastIssuedAt_update (\<lambda>_. x)))]"

definition dec_State :: "json \<Rightarrow> State \<Rightarrow> State option" where
  "dec_State = dec_struct State_fields"

definition decodeState :: "bytes \<Rightarrow> decode_error + State" where
  "decodeState data = decodeStrict dec_State zero_State data"

definition validate :: "State \<Rightarrow> bool \<Rightarrow> state_invalid option" where
  "validate state allowLegacy =
    (if st_KeyID state = [] \<or> st_LastVersion state = 0 \<or> st_CatalogRevision state = 0 \<or> is_zero (st_LastIssuedAt state)
     then Some StateFieldsIncomplete
     else if (case raw_url_decode (st_CatalogSHA256 state) of None \<Rightarrow> True | Some digest \<Rightarrow> length digest \<noteq> 32)
     then Some CatalogDigestInvalid
     else if st_KeyEpoch state = 0 \<and> st_PolicyVersion state = 0 \<and> st_PolicySHA256 state = [] \<and> allowLegacy
     then None
     else if st_KeyEpoch state = 0 \<or> st_PolicyVersion state = 0 \<or> st_PolicySHA256 state = []
     then Some PolicyFieldsIncomplete
     else if (case raw_url_decode (st_PolicySHA256 state) of None \<Rightarrow> True | Some digest \<Rightarrow> length digest \<noteq> 32)
     then Some PolicyDigestInvalid
     else None)"

definition checkDirectory :: "faults \<Rightarrow> fs \<Rightarrow> store_error option" where
  "checkDirectory x fs =
    (case fs_dir fs of
       None \<Rightarrow> Some DirectoryMissing
     | Some (k, writable) \<Rightarrow>
         if x_stat x then Some DirectoryStat
         else if k \<noteq> Directory then Some ParentNotDirectory
         else if writable then Some DirectoryWritable
         else None)"

subsection \<open>Load and Save\<close>

text \<open>What \<open>Load\<close> does with an opened file.\<close>

definition read_state :: "faults \<Rightarrow> finfo \<Rightarrow> store_error + State" where
  "read_state x f =
    (if x_fstat x then Inl StatState
     else if fi_kind f \<noteq> Regular then Inl NotRegular
     else if \<not> fi_private f then Inl NotPrivate
     else case read_limited \<lparr>rd_data = fi_data f, rd_fails = x_read x\<rparr> (maxStateBytes + 1) of
       None \<Rightarrow> Inl ReadState
     | Some data \<Rightarrow>
         if length data = 0 \<or> length data > maxStateBytes then Inl StateSize
         else case decodeState data of
           Inl e \<Rightarrow> Inl (DecodeState e)
         | Inr state \<Rightarrow> (case validate state True of Some e \<Rightarrow> Inl (InvalidState e) | None \<Rightarrow> Inr state))"

text \<open>\<open>None\<close> for a missing file, where the code returns \<open>false\<close> with a nil error.\<close>

definition Load :: "string \<Rightarrow> faults \<Rightarrow> fs \<Rightarrow> store_error + State option" where
  "Load path x fs =
    (if path = [] then Inl StatePathRequired
     else case checkDirectory x fs of
       Some e \<Rightarrow>
         if e \<noteq> DirectoryMissing then Inl e
         else Inr None
     | None \<Rightarrow>
         if x_open x then Inl OpenState
         else case fs_file fs of
           None \<Rightarrow> Inr None
         | Some f \<Rightarrow> (case read_state x f of Inl e \<Rightarrow> Inl e | Inr state \<Rightarrow> Inr (Some state)))"

definition encode_state :: "State \<Rightarrow> bytes option" where
  "encode_state state =
    (if time_in_range (st_LastIssuedAt state) then Some (print_json (enc_State state) @ [CHR 0x0A]) else None)"

text \<open>\<open>drop_temp\<close> is the deferred removal of the temporary file; its own failure is ignored.\<close>

definition drop_temp :: "faults \<Rightarrow> fs \<Rightarrow> fs" where
  "drop_temp x fs = (if x_remove x then fs else fs\<lparr>fs_temps := fs_temps fs - 1\<rparr>)"

text \<open>The second half of \<open>Save\<close>: write and sync a temporary file, rename it, sync the directory.\<close>

definition replaceFile :: "faults \<Rightarrow> fs \<Rightarrow> State \<Rightarrow> store_error option \<times> fs" where
  "replaceFile x fs state =
    (if x_create x then (Some CreateTemporary, fs)
     else
       (let fs1 = fs\<lparr>fs_temps := fs_temps fs + 1\<rparr> in
        if x_chmod x then (Some RestrictTemporary, drop_temp x fs1)
        else case encode_state state of
          None \<Rightarrow> (Some EncodeState, drop_temp x fs1)
        | Some data \<Rightarrow>
            if x_write x then (Some EncodeState, drop_temp x fs1)
            else
              (let temporary = \<lparr>fi_kind = Regular, fi_private = True, fi_data = data, fi_synced = False\<rparr> in
               if x_sync x then (Some SyncState, drop_temp x fs1)
               else
                 (let temporary = temporary\<lparr>fi_synced := True\<rparr> in
                  if x_close x then (Some CloseState, drop_temp x fs1)
                  else if x_rename x \<or> map_option fi_kind (fs_file fs1) = Some Directory
                  then (Some ReplaceState, drop_temp x fs1)
                  else
                    (let fs2 = fs1\<lparr>fs_temps := fs_temps fs1 - 1, fs_file := Some temporary\<rparr>
                     in if x_opendir x then (Some OpenDirectory, fs2)
                        else if x_syncdir x then (Some SyncDirectory, fs2)
                        else (None, fs2\<lparr>fs_disk := fs_file fs2\<rparr>))))))"

definition Save :: "string \<Rightarrow> faults \<Rightarrow> fs \<Rightarrow> State \<Rightarrow> store_error option \<times> fs" where
  "Save path x fs state =
    (if path = [] then (Some StatePathRequired, fs)
     else case validate state False of
       Some e \<Rightarrow> (Some (InvalidState e), fs)
     | None \<Rightarrow>
         (case MkdirAll x fs of
            None \<Rightarrow> (Some CreateDirectory, fs)
          | Some fs1 \<Rightarrow>
              (case checkDirectory x fs1 of
                 Some e \<Rightarrow> (Some e, fs1)
               | None \<Rightarrow> replaceFile x fs1 state)))"

subsection \<open>The process lock\<close>

text \<open>
  \<open>O_CREAT\<close> makes a missing lock file, private and regular; \<open>O_NOFOLLOW\<close> refuses a symbolic
  link; opening a directory for writing fails. \<open>flock\<close> fails when another process holds the lock.
\<close>

definition AcquireProcessLock :: "string \<Rightarrow> faults \<Rightarrow> fs \<Rightarrow> lock_error option \<times> fs" where
  "AcquireProcessLock statePath x fs =
    (if statePath = [] then (Some LockPathRequired, fs)
     else case MkdirAll x fs of
       None \<Rightarrow> (Some LockCreateDirectory, fs)
     | Some fs1 \<Rightarrow>
         (case checkDirectory x fs1 of
            Some e \<Rightarrow> (Some (LockDirectory e), fs1)
          | None \<Rightarrow>
              if x_opendir x then (Some LockOpenDirectory, fs1)
              else if x_open x \<or> (case fs_lock fs1 of Some l \<Rightarrow> fi_kind l = Symlink \<or> fi_kind l = Directory | None \<Rightarrow> False)
              then (Some LockOpen, fs1)
              else
                (let l = (case fs_lock fs1 of
                       Some l \<Rightarrow> l | None \<Rightarrow> \<lparr>fi_kind = Regular, fi_private = True, fi_data = [], fi_synced = False\<rparr>);
                     fs2 = fs1\<lparr>fs_lock := Some l\<rparr>
                 in if x_fstat x then (Some LockStat, fs2)
                    else if fi_kind l \<noteq> Regular \<or> \<not> fi_private l then (Some LockNotPrivateRegular, fs2)
                    else if x_lock x \<or> fs_locked fs2 then (Some LockBusy, fs2)
                    else (None, fs2\<lparr>fs_locked := True\<rparr>))))"

text \<open>Closing the descriptor releases the lock whatever \<open>LOCK_UN\<close> returned.\<close>

definition CloseProcessLock :: "fs \<Rightarrow> fs" where
  "CloseProcessLock fs = fs\<lparr>fs_locked := False\<rparr>"

subsection \<open>The contract of a state store\<close>

text \<open>
  \<open>possible fs\<close> are the results a later load can give, also after any crashes from \<open>fs\<close>,
  the errors of a damaged file included. A load that succeeds returns a possible result, a
  successful save leaves its state as the only possibility, a failed save adds at most its
  state, and a crash adds nothing.
\<close>

locale state_store =
  fixes load :: "'x \<Rightarrow> 'fs \<Rightarrow> 'e + 'st option"
    and save :: "'x \<Rightarrow> 'fs \<Rightarrow> 'st \<Rightarrow> 'e option \<times> 'fs"
    and crash :: "'k \<Rightarrow> 'fs \<Rightarrow> 'fs"
    and possible :: "'fs \<Rightarrow> ('e + 'st option) set"
    and inv :: "'fs \<Rightarrow> bool"
    and storable :: "'st \<Rightarrow> bool"
  assumes load_possible: "inv fs \<Longrightarrow> load x fs = Inr r \<Longrightarrow> Inr r \<in> possible fs"
    and save_inv: "inv fs \<Longrightarrow> save x fs st = (out, fs') \<Longrightarrow> inv fs'"
    and save_ok: "inv fs \<Longrightarrow> storable st \<Longrightarrow> save x fs st = (None, fs') \<Longrightarrow> possible fs' = {Inr (Some st)}"
    and save_error: "inv fs \<Longrightarrow> storable st \<Longrightarrow> save x fs st = (Some e, fs') \<Longrightarrow>
      possible fs' \<subseteq> insert (Inr (Some st)) (possible fs)"
    and crash_inv: "inv fs \<Longrightarrow> inv (crash k fs)"
    and crash_possible: "inv fs \<Longrightarrow> possible (crash k fs) \<subseteq> possible fs"
begin

text \<open>A property of results that holds of everything a later load can give.\<close>

definition always :: "('e + 'st option \<Rightarrow> bool) \<Rightarrow> 'fs \<Rightarrow> bool" where
  "always P fs \<longleftrightarrow> (\<forall>r \<in> possible fs. P r)"

lemma always_load: "inv fs \<Longrightarrow> always P fs \<Longrightarrow> load x fs = Inr r \<Longrightarrow> P (Inr r)"
  by (auto simp: always_def dest: load_possible)

lemma always_crash: "inv fs \<Longrightarrow> always P fs \<Longrightarrow> always P (crash k fs)"
  using crash_possible by (fastforce simp: always_def)

lemma always_save:
  assumes "inv fs" "storable st" "always P fs" "P (Inr (Some st))" "save x fs st = (r, fs')"
  shows "always P fs'"
  using assms save_ok [OF assms(1,2), of x fs'] save_error [OF assms(1,2), of x _ fs']
  by (cases r) (auto simp: always_def)

lemma always_saved: "inv fs \<Longrightarrow> storable st \<Longrightarrow> save x fs st = (None, fs') \<Longrightarrow> P (Inr (Some st)) \<Longrightarrow> always P fs'"
  using save_ok by (fastforce simp: always_def)

end

subsection \<open>The file store implements it\<close>

definition no_faults :: faults where
  "no_faults = \<lparr>x_mkdir = False, x_stat = False, x_fstat = False, x_create = False, x_chmod = False,
     x_write = False, x_sync = False, x_close = False, x_rename = False, x_remove = False, x_opendir = False,
     x_syncdir = False, x_open = False, x_read = False, x_lock = False\<rparr>"

definition read_file :: "finfo option \<Rightarrow> store_error + State option" where
  "read_file v =
    (case v of
       None \<Rightarrow> Inr None
     | Some f \<Rightarrow> (case read_state no_faults f of Inl e \<Rightarrow> Inl e | Inr state \<Rightarrow> Inr (Some state)))"

text \<open>A file whose data was never synced may come back with any data.\<close>

definition contents :: "finfo option \<Rightarrow> (store_error + State option) set" where
  "contents v = insert (read_file v) {read_file (map_option (lose_data k) v) |k. True}"

definition store_possible :: "fs \<Rightarrow> (store_error + State option) set" where
  "store_possible fs = contents (fs_file fs) \<union> contents (fs_disk fs)"

text \<open>The state directory exists and its own entry is on stable storage.\<close>

definition store_inv :: "fs \<Rightarrow> bool" where
  "store_inv fs \<longleftrightarrow> fs_dir fs \<noteq> None \<and> fs_dir_stable fs"

definition State_wf :: "State \<Rightarrow> bool" where
  "State_wf s \<longleftrightarrow> valid_utf8 (st_KeyID s) \<and> valid_utf8 (st_PolicySHA256 s) \<and> valid_utf8 (st_CatalogSHA256 s) \<and>
     time_in_range (st_LastIssuedAt s)"

definition storable :: "State \<Rightarrow> bool" where
  "storable s \<longleftrightarrow> valid_utf8 (st_KeyID s) \<and> length (print_json (enc_State s)) < maxStateBytes"

lemma enc_text_codec [simp]:
  "valid_utf8 s \<Longrightarrow> dec_string (enc_text s) y = Some s" "json_ok (enc_text s)"
  by (simp_all add: enc_text_def unquote_escape raw_ok_escape)

interpretation state_codec: json_codec enc_State dec_State zero_State State_wf
  by unfold_locales
    (simp_all add: enc_State_def dec_State_def State_fields_def zero_State_def State_wf_def codec_simps)

lemma validate_None:
  assumes "validate s b = None"
  shows "st_KeyID s \<noteq> []" "st_LastVersion s \<noteq> 0" "valid_utf8 (st_CatalogSHA256 s)" "valid_utf8 (st_PolicySHA256 s)"
    "b = False \<Longrightarrow> st_PolicyVersion s \<noteq> 0"
  using assms by (auto simp: validate_def split: if_splits option.splits intro: raw_url_decode_utf8)

lemma validate_legacy: "validate s False = None \<Longrightarrow> validate s True = None"
  by (auto simp: validate_def split: if_splits)

lemma read_saved:
  assumes "validate s False = None" "storable s" "encode_state s = Some data"
  shows "read_state no_faults \<lparr>fi_kind = Regular, fi_private = True, fi_data = data, fi_synced = True\<rparr> = Inr s"
proof -
  have data: "data = print_json (enc_State s) @ [CHR 0x0A]" "time_in_range (st_LastIssuedAt s)"
    using assms(3) by (auto simp: encode_state_def split: if_splits)
  have "State_wf s"
    using validate_None(3,4) [OF assms(1)] assms(2) data(2) by (simp add: State_wf_def storable_def)
  then have "decodeState data = Inr s"
    unfolding decodeState_def data by (rule state_codec.decodeStrict_enc_newline)
  moreover have "length data \<le> maxStateBytes" "data \<noteq> []"
    using assms(2) by (auto simp: storable_def data)
  ultimately show ?thesis
    using validate_legacy [OF assms(1)] by (simp add: read_state_def read_limited_def no_faults_def)
qed

lemma read_state_faults: "read_state x f = Inr st \<Longrightarrow> read_state no_faults f = Inr st"
  by (auto simp: read_state_def read_limited_def no_faults_def split: if_splits option.splits sum.splits)

lemma MkdirAll_inv: "store_inv fs \<Longrightarrow> MkdirAll x fs = Some fs1 \<Longrightarrow> fs1 = fs"
  by (auto simp: MkdirAll_def store_inv_def split: if_splits option.splits)

text \<open>A save either leaves the files alone or installs the new state.\<close>

lemma drop_temp_simps [simp]:
  "fs_file (drop_temp x fs) = fs_file fs" "fs_disk (drop_temp x fs) = fs_disk fs"
  "fs_dir (drop_temp x fs) = fs_dir fs" "fs_dir_stable (drop_temp x fs) = fs_dir_stable fs"
  "fs_locked (drop_temp x fs) = fs_locked fs"
  by (simp_all add: drop_temp_def)

lemma replaceFile_cases:
  assumes "replaceFile x fs st = (r, fs')"
  shows "fs_dir fs' = fs_dir fs \<and> fs_dir_stable fs' = fs_dir_stable fs \<and> fs_locked fs' = fs_locked fs"
    and "r \<noteq> None \<and> fs_file fs' = fs_file fs \<and> fs_disk fs' = fs_disk fs \<or>
      (\<exists>data. encode_state st = Some data \<and>
        fs_file fs' = Some \<lparr>fi_kind = Regular, fi_private = True, fi_data = data, fi_synced = True\<rparr> \<and>
        fs_disk fs' = (if r = None then fs_file fs' else fs_disk fs))"
  using assms unfolding replaceFile_def Let_def
  by (cases "encode_state st"; simp split: if_split_asm; fastforce)+

lemma Save_cases:
  assumes "store_inv fs" and "Save path x fs st = (r, fs')"
  shows "store_inv fs' \<and> fs_locked fs' = fs_locked fs \<and> fs_dir fs' = fs_dir fs"
    and "r \<noteq> None \<and> fs_file fs' = fs_file fs \<and> fs_disk fs' = fs_disk fs \<or>
      (\<exists>data. validate st False = None \<and> encode_state st = Some data \<and>
        fs_file fs' = Some \<lparr>fi_kind = Regular, fi_private = True, fi_data = data, fi_synced = True\<rparr> \<and>
        fs_disk fs' = (if r = None then fs_file fs' else fs_disk fs))"
proof -
  consider (early) "r \<noteq> None" "fs' = fs" | (late) "validate st False = None" "replaceFile x fs st = (r, fs')"
  proof (cases "path = [] \<or> validate st False \<noteq> None \<or> MkdirAll x fs = None")
    case True
    then show thesis using assms(2) by (intro early) (auto simp: Save_def split: if_splits option.splits)
  next
    case False
    then have "MkdirAll x fs = Some fs" using MkdirAll_inv [OF assms(1)] by blast
    with False have *: "Save path x fs st =
        (case checkDirectory x fs of Some e \<Rightarrow> (Some e, fs) | None \<Rightarrow> replaceFile x fs st)"
      by (simp add: Save_def)
    show thesis
    proof (cases "checkDirectory x fs")
      case None
      with * False assms(2) show thesis by (intro late) simp_all
    next
      case (Some e)
      with * assms(2) show thesis by (intro early) auto
    qed
  qed
  then have "(store_inv fs' \<and> fs_locked fs' = fs_locked fs \<and> fs_dir fs' = fs_dir fs) \<and>
    (r \<noteq> None \<and> fs_file fs' = fs_file fs \<and> fs_disk fs' = fs_disk fs \<or>
      (\<exists>data. validate st False = None \<and> encode_state st = Some data \<and>
        fs_file fs' = Some \<lparr>fi_kind = Regular, fi_private = True, fi_data = data, fi_synced = True\<rparr> \<and>
        fs_disk fs' = (if r = None then fs_file fs' else fs_disk fs)))"
  proof cases
    case late
    with replaceFile_cases [OF late(2)] assms(1) show ?thesis by (simp add: store_inv_def)
  qed (use assms(1) in simp)
  then show "store_inv fs' \<and> fs_locked fs' = fs_locked fs \<and> fs_dir fs' = fs_dir fs"
    "r \<noteq> None \<and> fs_file fs' = fs_file fs \<and> fs_disk fs' = fs_disk fs \<or>
      (\<exists>data. validate st False = None \<and> encode_state st = Some data \<and>
        fs_file fs' = Some \<lparr>fi_kind = Regular, fi_private = True, fi_data = data, fi_synced = True\<rparr> \<and>
        fs_disk fs' = (if r = None then fs_file fs' else fs_disk fs))" by blast+
qed

lemma read_file_saved:
  assumes "validate st False = None" "storable st" "encode_state st = Some data"
  shows "read_file (Some \<lparr>fi_kind = Regular, fi_private = True, fi_data = data, fi_synced = True\<rparr>) = Inr (Some st)"
    "contents (Some \<lparr>fi_kind = Regular, fi_private = True, fi_data = data, fi_synced = True\<rparr>) = {Inr (Some st)}"
  using read_saved [OF assms] by (simp_all add: contents_def read_file_def lose_data_def)

lemma contents_lose: "contents (map_option (lose_data k) v) \<subseteq> contents v"
  by (cases v) (auto simp: contents_def lose_data_def)

lemma Load_possible:
  assumes "store_inv fs" "Load path x fs = Inr r"
  shows "Inr r \<in> store_possible fs"
proof -
  have "fs_file fs = None \<and> r = None \<or> (\<exists>f st. fs_file fs = Some f \<and> read_state x f = Inr st \<and> r = Some st)"
    using assms
    by (auto simp: Load_def store_inv_def checkDirectory_def split: if_splits option.splits sum.splits)
  then have "Inr r = read_file (fs_file fs)" by (auto simp: read_file_def dest: read_state_faults)
  then show ?thesis by (simp add: store_possible_def contents_def)
qed

lemma power_loss_inv:
  assumes "store_inv fs"
  shows "store_inv (power_loss k fs)" "fs_dir (power_loss k fs) = fs_dir fs"
    "fs_file (power_loss k fs) = map_option (lose_data k) (if o_flushed k then fs_file fs else fs_disk fs)"
    "fs_disk (power_loss k fs) = fs_file (power_loss k fs)"
  using assms by (simp_all add: store_inv_def power_loss_def Let_def)

interpretation file_store: state_store "Load path" "Save path" power_loss store_possible store_inv storable for path
proof unfold_locales
  fix fs fs' :: fs and x :: faults and st :: State and r :: "State option" and k :: outage
  show "store_inv fs \<Longrightarrow> Load path x fs = Inr r \<Longrightarrow> Inr r \<in> store_possible fs" by (rule Load_possible)
  show "store_inv fs'" if "store_inv fs" "Save path x fs st = (e, fs')" for e
    using Save_cases(1) [OF that] by blast
  show "store_possible fs' = {Inr (Some st)}" if "store_inv fs" "storable st" "Save path x fs st = (None, fs')"
    using Save_cases(2) [OF that(1,3)] that(2) by (auto simp: store_possible_def read_file_saved)
  show "store_possible fs' \<subseteq> insert (Inr (Some st)) (store_possible fs)"
    if "store_inv fs" "storable st" "Save path x fs st = (Some e, fs')" for e
    using Save_cases(2) [OF that(1,3)] that(2) by (auto simp: store_possible_def read_file_saved)
  show "store_inv fs \<Longrightarrow> store_inv (power_loss k fs)" by (rule power_loss_inv(1))
  show "store_possible (power_loss k fs) \<subseteq> store_possible fs" if "store_inv fs"
    using contents_lose [of k "fs_file fs"] contents_lose [of k "fs_disk fs"]
    by (auto simp: store_possible_def power_loss_inv [OF that])
qed

text \<open>In a directory that passes the check a load without failing calls gives a possible result.\<close>

lemma Load_no_faults:
  assumes "path \<noteq> []" "fs_dir fs = Some (Directory, False)"
  shows "Load path no_faults fs = read_file (fs_file fs)" "Load path no_faults fs \<in> store_possible fs"
proof -
  show "Load path no_faults fs = read_file (fs_file fs)"
    using assms by (cases "fs_file fs") (simp_all add: Load_def checkDirectory_def read_file_def, simp_all add: no_faults_def)
  then show "Load path no_faults fs \<in> store_possible fs" by (simp add: store_possible_def contents_def)
qed

lemma Load_no_faults_eq:
  assumes "fs_dir fs' = fs_dir fs" "fs_file fs' = fs_file fs"
  shows "Load path no_faults fs' = Load path no_faults fs"
  unfolding Load_def checkDirectory_def assms ..

lemma AcquireProcessLock_inv:
  assumes "store_inv fs" and "AcquireProcessLock path x fs = (r, fs')"
  shows "store_inv fs' \<and> fs_file fs' = fs_file fs \<and> fs_disk fs' = fs_disk fs \<and> fs_dir fs' = fs_dir fs"
    and "if r = None then \<not> fs_locked fs \<and> fs_locked fs' else fs_locked fs' = fs_locked fs"
proof -
  have "MkdirAll x fs = None \<or> MkdirAll x fs = Some fs"
    using MkdirAll_inv [OF assms(1)] by (cases "MkdirAll x fs") auto
  then show "store_inv fs' \<and> fs_file fs' = fs_file fs \<and> fs_disk fs' = fs_disk fs \<and> fs_dir fs' = fs_dir fs"
    "if r = None then \<not> fs_locked fs \<and> fs_locked fs' else fs_locked fs' = fs_locked fs"
    using assms unfolding AcquireProcessLock_def Let_def
    by (auto simp: store_inv_def split: if_split_asm option.split_asm)
qed

lemma AcquireProcessLock_busy: "fs_locked fs \<Longrightarrow> fs_dir fs \<noteq> None \<Longrightarrow> fst (AcquireProcessLock path x fs) \<noteq> None"
  unfolding AcquireProcessLock_def Let_def
  by (auto simp: MkdirAll_def split: option.split)

text \<open>A save that came to the temporary file has passed the check of the directory that \<open>Load\<close> makes.\<close>

lemma Save_replaced:
  assumes "Save path x fs st = (r, fs')"
  shows "r \<noteq> None \<and> (fs' = fs \<or> MkdirAll x fs = Some fs') \<or> path \<noteq> [] \<and> fs_dir fs' = Some (Directory, False)"
proof -
  consider "r \<noteq> None" "fs' = fs \<or> MkdirAll x fs = Some fs'"
    | fs1 where "path \<noteq> []" "checkDirectory x fs1 = None" "replaceFile x fs1 st = (r, fs')"
    using assms by (auto simp: Save_def split: if_split_asm option.split_asm) metis
  then show ?thesis
  proof cases
    case (2 fs1)
    then show ?thesis
      using replaceFile_cases(1) [OF 2(3)] by (auto simp: checkDirectory_def split: if_split_asm option.split_asm)
  qed blast
qed

lemma Save_directory:
  assumes "Save path x fs st = (None, fs')"
  shows "path \<noteq> []" "fs_dir fs' = Some (Directory, False)"
  using Save_replaced [OF assms] by simp_all

lemma Save_Load:
  assumes "store_inv fs" "storable st" "Save path x fs st = (None, fs')"
  shows "Load path no_faults fs' = Inr (Some st)" and "Load path no_faults (power_loss k fs') = Inr (Some st)"
proof -
  note dir = Save_directory [OF assms(3)] and only = file_store.save_ok [OF assms]
  have inv: "store_inv fs'" using Save_cases(1) [OF assms(1,3)] by blast
  show "Load path no_faults fs' = Inr (Some st)" using Load_no_faults(2) [OF dir] only by simp
  show "Load path no_faults (power_loss k fs') = Inr (Some st)"
    using Load_no_faults(2) [OF dir(1), of "power_loss k fs'"] file_store.crash_possible [OF inv, of k] only dir(2)
      power_loss_inv(2) [OF inv] by auto
qed

text \<open>Whatever call of a save fails, a load gives what it would have given without the save, or the new state.\<close>

lemma Save_failed:
  assumes "store_inv fs" "storable st" "Save path x fs st = (r, fs')"
  shows "Load path no_faults fs' \<in> {Inr (Some st), Load path no_faults fs}"
    and "Load path no_faults (power_loss k fs') \<in> {Inr (Some st), Load path no_faults (power_loss k fs)}"
proof -
  note dir = conjunct2 [OF conjunct2 [OF Save_cases(1) [OF assms(1,3)]]] and inv = conjunct1 [OF Save_cases(1) [OF assms(1,3)]]
  note lost = power_loss_inv [OF assms(1), of k] and lost' = power_loss_inv [OF inv, of k]
  have "Load path no_faults fs' \<in> {Inr (Some st), Load path no_faults fs} \<and>
    Load path no_faults (power_loss k fs') \<in> {Inr (Some st), Load path no_faults (power_loss k fs)}"
  proof (cases "fs_file fs' = fs_file fs \<and> fs_disk fs' = fs_disk fs")
    case True
    then show ?thesis
      using Load_no_faults_eq [of fs' fs] Load_no_faults_eq [of "power_loss k fs'" "power_loss k fs"] dir lost lost' by simp
  next
    case False
    then obtain data where data: "validate st False = None" "encode_state st = Some data"
      "fs_file fs' = Some \<lparr>fi_kind = Regular, fi_private = True, fi_data = data, fi_synced = True\<rparr>"
      "fs_disk fs' = (if r = None then fs_file fs' else fs_disk fs)"
      using Save_cases(2) [OF assms(1,3)] by blast
    note new = read_file_saved(1) [OF data(1) assms(2) data(2)]
    have ready: "path \<noteq> []" "fs_dir fs' = Some (Directory, False)"
      using Save_replaced [OF assms(3)] False MkdirAll_inv [OF assms(1)] by auto
    have "Load path no_faults fs' = Inr (Some st)" using Load_no_faults(1) [OF ready] data(3) new by simp
    moreover have "Load path no_faults (power_loss k fs') = Inr (Some st) \<or>
        Load path no_faults (power_loss k fs') = Load path no_faults (power_loss k fs)"
    proof (cases "o_flushed k \<or> r = None")
      case True
      then have "fs_file (power_loss k fs') = fs_file fs'"
        using lost'(3) data(3,4) by (auto simp: lose_data_def)
      then show ?thesis using Load_no_faults(1) [OF ready(1), of "power_loss k fs'"] ready(2) lost'(2) data(3) new by simp
    next
      case False
      then have "fs_disk fs' = fs_disk fs" using data(4) by auto
      then show ?thesis
        using False Load_no_faults_eq [of "power_loss k fs'" "power_loss k fs"] dir lost lost' by simp
    qed
    ultimately show ?thesis by blast
  qed
  then show "Load path no_faults fs' \<in> {Inr (Some st), Load path no_faults fs}"
    "Load path no_faults (power_loss k fs') \<in> {Inr (Some st), Load path no_faults (power_loss k fs)}" by blast+
qed

lemma Save_temps:
  assumes "Save path x fs st = (r, fs')" "\<not> x_remove x"
  shows "fs_temps fs' = fs_temps fs"
proof -
  have "fs_temps fs1 = fs_temps fs" if "MkdirAll x fs = Some fs1" for fs1
    using that by (auto simp: MkdirAll_def split: if_split_asm option.split_asm)
  moreover have "fs_temps fs' = fs_temps fs1" if "replaceFile x fs1 st = (r, fs')" for fs1
    using that assms(2) unfolding replaceFile_def Let_def drop_temp_def
    by (cases "encode_state st") (auto split: if_split_asm)
  ultimately show ?thesis
    using assms(1) by (auto simp: Save_def split: if_split_asm option.split_asm)
qed

subsection \<open>A sample state\<close>

definition sample_state :: State where
  "sample_state = \<lparr>st_KeyID = raw_url_encode (replicate 32 (CHR ''a'')), st_KeyEpoch = 1, st_PolicyVersion = 1,
     st_PolicySHA256 = raw_url_encode (replicate 32 (CHR ''p'')), st_LastVersion = 1, st_CatalogRevision = 1,
     st_CatalogSHA256 = raw_url_encode (replicate 32 (CHR ''c'')), st_LastIssuedAt = 1000 * second\<rparr>"

definition sample_fs :: fs where
  "sample_fs = \<lparr>fs_dir = Some (Directory, False), fs_dir_stable = True, fs_file = None, fs_disk = None,
     fs_temps = 0, fs_lock = None, fs_locked = False\<rparr>"

lemma length_State:
  assumes "st_KeyID s = raw_url_encode a" "length a = 32" "st_PolicySHA256 s = raw_url_encode b" "length b = 32"
    "st_CatalogSHA256 s = raw_url_encode d" "length d = 32"
  shows "storable s"
  using length_dec_text_uint64 [of "st_KeyEpoch s"] length_dec_text_uint64 [of "st_PolicyVersion s"]
    length_dec_text_uint64 [of "st_LastVersion s"] length_dec_text_uint64 [of "st_CatalogRevision s"]
    length_time_text [of "st_LastIssuedAt s"] assms
  by (simp add: storable_def enc_State_def enc_text_def enc_uint_def enc_time_def encoded_len_def maxStateBytes_def)

lemma sample_state_ok: "storable sample_state" "validate sample_state False = None"
  by (rule length_State [of _ "replicate 32 (CHR ''a'')" "replicate 32 (CHR ''p'')" "replicate 32 (CHR ''c'')"])
    (simp_all add: sample_state_def validate_def is_zero_def zero_time_def second_def)

lemma sample_encode: "\<exists>data. encode_state sample_state = Some data"
  using sample_times by (simp add: encode_state_def sample_state_def)

lemma sample_saved: "\<exists>fs'. Save ''s'' no_faults sample_fs sample_state = (None, fs')"
  using sample_encode
  by (auto simp: Save_def sample_state_ok MkdirAll_def checkDirectory_def replaceFile_def Let_def sample_fs_def no_faults_def)

subsection \<open>Properties\<close>

text \<open>
  C13. A state that \<open>Save\<close> reports as saved is durable, in a state directory that existed
  before and whose own entry is on stable storage, and for a state whose JSON form fits the
  size limit of \<open>Load\<close> and whose key id is UTF-8: loading gives exactly that state, at once
  and after a power loss, whatever directory operations the kernel had flushed and whatever
  it had written of files that were not synced.
\<close>
theorem Save_durable:
  assumes "store_inv fs" and "storable st" and "Save path x fs st = (None, fs')"
  shows "Load path no_faults fs' = Inr (Some st) \<and> Load path no_faults (power_loss k fs') = Inr (Some st)"
  using Save_Load [OF assms] by blast

theorem Save_durable_witness:
  "\<exists>fs'. Save ''s'' no_faults sample_fs sample_state = (None, fs') \<and>
    Load ''s'' no_faults (power_loss \<lparr>o_flushed = False, o_data = []\<rparr> fs') = Inr (Some sample_state)"
proof -
  obtain fs' where "Save ''s'' no_faults sample_fs sample_state = (None, fs')" using sample_saved by blast
  moreover have "store_inv sample_fs" by (simp add: store_inv_def sample_fs_def)
  ultimately show ?thesis using Save_durable [OF _ sample_state_ok(1)] by blast
qed

text \<open>
  C14. A save is atomic under failures, under the conditions of C13: whichever system calls
  fail, a load afterwards gives the complete new state or exactly the result, state or error,
  that it would have given without the save, at once and after any power loss; so no failure
  damages a state that could be read. When the removal of the temporary file works none
  stays behind.
\<close>
theorem Save_atomic:
  assumes "store_inv fs" and "storable st" and "Save path x fs st = (r, fs')"
  shows "Load path no_faults fs' \<in> {Inr (Some st), Load path no_faults fs} \<and>
    Load path no_faults (power_loss k fs') \<in> {Inr (Some st), Load path no_faults (power_loss k fs)} \<and>
    (\<not> x_remove x \<longrightarrow> fs_temps fs' = fs_temps fs)"
  using Save_failed [OF assms] Save_temps [OF assms(3)] by blast

theorem Save_atomic_witness:
  "\<exists>r fs'. Save ''s'' (no_faults\<lparr>x_syncdir := True\<rparr>) sample_fs sample_state = (r, fs') \<and>
    Load ''s'' no_faults (power_loss \<lparr>o_flushed = False, o_data = []\<rparr> fs') \<in>
      {Inr (Some sample_state), Load ''s'' no_faults (power_loss \<lparr>o_flushed = False, o_data = []\<rparr> sample_fs)}"
proof -
  obtain r fs' where sv: "Save ''s'' (no_faults\<lparr>x_syncdir := True\<rparr>) sample_fs sample_state = (r, fs')" by force
  moreover have "store_inv sample_fs" by (simp add: store_inv_def sample_fs_def)
  ultimately show ?thesis using Save_atomic [OF _ sample_state_ok(1) sv] by blast
qed

text \<open>
  C15. The durability of C13 needs a state directory that existed before: \<open>Save\<close> creates a
  missing directory and syncs it, but not its parent, so a power loss that drops the
  directory's own entry loses the state, and the next start finds none.
\<close>
theorem Save_new_directory_not_durable:
  assumes "path \<noteq> []" and "fs_dir fs = None" and "validate st False = None" and "encode_state st = Some data"
  shows "\<exists>fs'. Save path no_faults fs st = (None, fs') \<and> Load path no_faults (power_loss \<lparr>o_flushed = False, o_data = lost\<rparr> fs') = Inr None"
proof -
  obtain fs' where "Save path no_faults fs st = (None, fs')" "fs_dir_stable fs' = False"
    using assms by (auto simp: Save_def MkdirAll_def checkDirectory_def replaceFile_def Let_def no_faults_def)
  then show ?thesis
    using assms(1) by (intro exI [of _ fs']) (simp add: power_loss_def Let_def Load_def checkDirectory_def)
qed

theorem Save_new_directory_not_durable_witness:
  "\<exists>fs'. Save ''s'' no_faults (sample_fs\<lparr>fs_dir := None\<rparr>) sample_state = (None, fs') \<and>
    Load ''s'' no_faults (power_loss \<lparr>o_flushed = False, o_data = []\<rparr> fs') = Inr None"
proof -
  obtain data where "encode_state sample_state = Some data" using sample_encode by blast
  then show ?thesis
    by (intro Save_new_directory_not_durable [OF _ _ sample_state_ok(2)]) (simp_all add: sample_fs_def)
qed

end
