(* ===== verification/Issuer.thy ===== *)
theory Issuer
  imports Issuance
begin

text \<open>
  \<open>internal/service/issuer.go\<close> and the catalog loader of \<open>internal/catalog/file.go\<close>:
  starting an issuer on the durable state, issuing with the cache of successes and failures,
  closing. The clock, the catalog file and the failing system calls are inputs of each call;
  the process-wide mutex makes the calls atomic.
\<close>

subsection \<open>Loading the catalog\<close>

datatype load_error =
    OpenCatalog
  | ReadCatalog
  | CatalogTooLarge
  | DecodeCatalog decode_error

definition maxCatalogBytes :: nat where "maxCatalogBytes = 1048576"

text \<open>\<open>None\<close> is a path that cannot be opened.\<close>

definition LoadFile :: "reader option \<Rightarrow> load_error + Catalog" where
  "LoadFile path =
    (case path of
       None \<Rightarrow> Inl OpenCatalog
     | Some rd \<Rightarrow>
         (case read_limited rd (maxCatalogBytes + 1) of
            None \<Rightarrow> Inl ReadCatalog
          | Some data \<Rightarrow>
              if length data > maxCatalogBytes then Inl CatalogTooLarge
              else case decodeStrict dec_Catalog zero_Catalog data of
                Inl e \<Rightarrow> Inl (DecodeCatalog e)
              | Inr result \<Rightarrow> Inr result))"

subsection \<open>Data\<close>

datatype start_error =
    StartPrivateKey
  | StartPolicy policy_error
  | StartTTL
  | StartCache
  | StartLock lock_error
  | StartLoad store_error
  | LegacyKeyNotAuthorized policy_error
  | MigrateLegacy store_error
  | StartVersionExhausted
  | PolicyOlderThanDurable uint64 uint64
  | PolicyChangedWithoutVersion
  | DurableStateInconsistent
  | KeyNotAuthorizedForNext policy_error
  | StartEpochChanged
  | ReplacementEpochNotAdvanced

datatype refresh_error =
    LoadCatalogFailed load_error
  | CatalogInvalid catalog_error
  | CatalogRevisionOlder uint64 uint64
  | CatalogChangedWithoutRevision
  | ClockBehindLastIssue
  | VersionSpaceExhausted
  | SignManifest issue_error
  | PersistState store_error
  | IssuerClosed

record IssuerOptions =
  opt_StatePath :: string
  opt_TTL :: duration
  opt_CacheFor :: duration
  opt_PrivateKey :: bytes
  opt_RootKey :: bytes
  opt_KeyPolicy :: KeyPolicy

record Issuer =
  i_ttl :: duration
  i_cacheFor :: duration
  i_privateKey :: bytes
  i_keyID :: string
  i_keyEpoch :: uint64
  i_rootKey :: bytes
  i_keyPolicy :: KeyPolicy
  i_policySHA :: string
  i_path :: string
  i_state :: State
  i_cached :: Envelope
  i_cacheUntil :: time
  i_validUntil :: time
  i_retryAt :: time
  i_lastError :: "refresh_error option"
  i_closed :: bool

subsection \<open>Starting\<close>

text \<open>The migration of a state written before key policies existed.\<close>

definition migrateLegacy ::
  "IssuerOptions \<Rightarrow> string \<Rightarrow> faults \<Rightarrow> fs \<Rightarrow> State option \<Rightarrow> (start_error + State option) \<times> fs" where
  "migrateLegacy options policyDigest x fs loaded =
    (case loaded of
       None \<Rightarrow> (Inr None, fs)
     | Some state \<Rightarrow>
         if st_PolicyVersion state \<noteq> 0 then (Inr (Some state), fs)
         else case KeyPolicyGrant (opt_KeyPolicy options) (st_KeyID state) (st_LastVersion state) of
           Inl e \<Rightarrow> (Inl (LegacyKeyNotAuthorized e), fs)
         | Inr (previousGrant, _) \<Rightarrow>
             (let state' = state\<lparr>st_KeyEpoch := kg_Epoch previousGrant,
                    st_PolicyVersion := kp_Version (opt_KeyPolicy options), st_PolicySHA256 := policyDigest\<rparr>
              in case Save (opt_StatePath options) x fs state' of
                   (Some e, fs') \<Rightarrow> (Inl (MigrateLegacy e), fs')
                 | (None, fs') \<Rightarrow> (Inr (Some state'), fs')))"

text \<open>The checks of a loaded state against the policy; the next version on success.\<close>

definition checkDurable :: "IssuerOptions \<Rightarrow> string \<Rightarrow> State option \<Rightarrow> start_error + uint64" where
  "checkDurable options policyDigest loaded =
    (case loaded of
       None \<Rightarrow> Inr 1
     | Some state \<Rightarrow>
         if st_LastVersion state = - 1 then Inl StartVersionExhausted
         else if kp_Version (opt_KeyPolicy options) < st_PolicyVersion state
         then Inl (PolicyOlderThanDurable (kp_Version (opt_KeyPolicy options)) (st_PolicyVersion state))
         else if kp_Version (opt_KeyPolicy options) = st_PolicyVersion state \<and> policyDigest \<noteq> st_PolicySHA256 state
         then Inl PolicyChangedWithoutVersion
         else if kp_Version (opt_KeyPolicy options) = st_PolicyVersion state \<and>
           (case KeyPolicyGrant (opt_KeyPolicy options) (st_KeyID state) (st_LastVersion state) of
              Inl _ \<Rightarrow> True
            | Inr (previousGrant, _) \<Rightarrow> kg_Epoch previousGrant \<noteq> st_KeyEpoch state)
         then Inl DurableStateInconsistent
         else Inr (st_LastVersion state + 1))"

text \<open>The grant of the current key for the next version, and its epoch against the state's.\<close>

definition checkCurrentKey ::
  "IssuerOptions \<Rightarrow> string \<Rightarrow> State option \<Rightarrow> uint64 \<Rightarrow> start_error + KeyGrant" where
  "checkCurrentKey options keyID loaded nextVersion =
    (case KeyPolicyGrant (opt_KeyPolicy options) keyID nextVersion of
       Inl e \<Rightarrow> Inl (KeyNotAuthorizedForNext e)
     | Inr (grant, _) \<Rightarrow>
         (case loaded of
            None \<Rightarrow> Inr grant
          | Some state \<Rightarrow>
              if keyID = st_KeyID state \<and> kg_Epoch grant \<noteq> st_KeyEpoch state then Inl StartEpochChanged
              else if keyID \<noteq> st_KeyID state \<and> kg_Epoch grant \<le> st_KeyEpoch state
              then Inl ReplacementEpochNotAdvanced
              else Inr grant))"

text \<open>What \<open>NewIssuer\<close> does while it holds the lock.\<close>

definition startLocked ::
  "crypto \<Rightarrow> IssuerOptions \<Rightarrow> string \<Rightarrow> faults \<Rightarrow> faults \<Rightarrow> fs \<Rightarrow> (start_error + Issuer) \<times> fs" where
  "startLocked c options policyDigest xl xs fs =
    (case Load (opt_StatePath options) xl fs of
       Inl e \<Rightarrow> (Inl (StartLoad e), fs)
     | Inr loaded \<Rightarrow>
         (let keyID = KeyID c (public_of (opt_PrivateKey options)) in
          case migrateLegacy options policyDigest xs fs loaded of
            (Inl e, fs1) \<Rightarrow> (Inl e, fs1)
          | (Inr state, fs1) \<Rightarrow>
              (case checkDurable options policyDigest state of
                 Inl e \<Rightarrow> (Inl e, fs1)
               | Inr nextVersion \<Rightarrow>
                   (case checkCurrentKey options keyID state nextVersion of
                      Inl e \<Rightarrow> (Inl e, fs1)
                    | Inr grant \<Rightarrow>
                        (Inr \<lparr>i_ttl = opt_TTL options, i_cacheFor = opt_CacheFor options,
                           i_privateKey = opt_PrivateKey options, i_keyID = keyID, i_keyEpoch = kg_Epoch grant,
                           i_rootKey = opt_RootKey options, i_keyPolicy = opt_KeyPolicy options,
                           i_policySHA = policyDigest, i_path = opt_StatePath options,
                           i_state = (case state of None \<Rightarrow> zero_State | Some s \<Rightarrow> s),
                           i_cached = zero_Envelope, i_cacheUntil = zero_time, i_validUntil = zero_time,
                           i_retryAt = zero_time, i_lastError = None, i_closed = False\<rparr>, fs1)))))"

definition NewIssuer ::
  "crypto \<Rightarrow> IssuerOptions \<Rightarrow> faults \<Rightarrow> faults \<Rightarrow> faults \<Rightarrow> fs \<Rightarrow> (start_error + Issuer) \<times> fs" where
  "NewIssuer c options xk xl xs fs =
    (if length (opt_PrivateKey options) \<noteq> private_key_size then (Inl StartPrivateKey, fs)
     else case ValidateKeyPolicy c (opt_KeyPolicy options) (opt_RootKey options) of
       Inl e \<Rightarrow> (Inl (StartPolicy e), fs)
     | Inr policyDigest \<Rightarrow>
         if opt_TTL options < minute \<or> opt_TTL options > hour then (Inl StartTTL, fs)
         else if opt_CacheFor options < second \<or> opt_CacheFor options > opt_TTL options div 2
         then (Inl StartCache, fs)
         else case AcquireProcessLock (opt_StatePath options) xk fs of
           (Some e, fs1) \<Rightarrow> (Inl (StartLock e), fs1)
         | (None, fs1) \<Rightarrow>
             (case startLocked c options policyDigest xl xs fs1 of
                (Inl e, fs2) \<Rightarrow> (Inl e, CloseProcessLock fs2)
              | (Inr issuer, fs2) \<Rightarrow> (Inr issuer, fs2)))"

subsection \<open>Issuing\<close>

definition nextState :: "Issuer \<Rightarrow> Catalog \<Rightarrow> string \<Rightarrow> time \<Rightarrow> State" where
  "nextState issuer catalogDocument catalogDigest now =
    \<lparr>st_KeyID = i_keyID issuer, st_KeyEpoch = i_keyEpoch issuer,
     st_PolicyVersion = kp_Version (i_keyPolicy issuer), st_PolicySHA256 = i_policySHA issuer,
     st_LastVersion = st_LastVersion (i_state issuer) + 1, st_CatalogRevision = cat_Revision catalogDocument,
     st_CatalogSHA256 = catalogDigest, st_LastIssuedAt = now\<rparr>"

text \<open>The checks of \<open>refresh\<close> on a catalog, up to the signed envelope.\<close>

definition prepare :: "crypto \<Rightarrow> Issuer \<Rightarrow> load_error + Catalog \<Rightarrow> time \<Rightarrow> refresh_error + (Envelope \<times> State)" where
  "prepare c issuer loaded now =
    (case loaded of
       Inl e \<Rightarrow> Inl (LoadCatalogFailed e)
     | Inr catalogDocument \<Rightarrow>
         (case CatalogDigest c catalogDocument of
            Inl e \<Rightarrow> Inl (CatalogInvalid e)
          | Inr catalogDigest \<Rightarrow>
              if st_LastVersion (i_state issuer) > 0 \<and> cat_Revision catalogDocument < st_CatalogRevision (i_state issuer)
              then Inl (CatalogRevisionOlder (cat_Revision catalogDocument) (st_CatalogRevision (i_state issuer)))
              else if st_LastVersion (i_state issuer) > 0 \<and>
                cat_Revision catalogDocument = st_CatalogRevision (i_state issuer) \<and>
                catalogDigest \<noteq> st_CatalogSHA256 (i_state issuer)
              then Inl CatalogChangedWithoutRevision
              else if st_LastVersion (i_state issuer) > 0 \<and> now < st_LastIssuedAt (i_state issuer)
              then Inl ClockBehindLastIssue
              else if st_LastVersion (i_state issuer) > 0 \<and> st_LastVersion (i_state issuer) = - 1
              then Inl VersionSpaceExhausted
              else case Issue c catalogDocument (st_LastVersion (i_state issuer) + 1) (i_keyPolicy issuer)
                  (i_rootKey issuer) now (i_ttl issuer) (i_privateKey issuer) of
                Inl e \<Rightarrow> Inl (SignManifest e)
              | Inr envelope \<Rightarrow> Inr (envelope, nextState issuer catalogDocument catalogDigest now)))"

definition refresh ::
  "crypto \<Rightarrow> faults \<Rightarrow> reader option \<Rightarrow> time \<Rightarrow> Issuer \<Rightarrow> fs \<Rightarrow> (refresh_error + Envelope) \<times> Issuer \<times> fs" where
  "refresh c x catalogFile now issuer fs =
    (case prepare c issuer (LoadFile catalogFile) now of
       Inl e \<Rightarrow> (Inl e, issuer, fs)
     | Inr (envelope, state) \<Rightarrow>
         (case Save (i_path issuer) x fs state of
            (Some e, fs') \<Rightarrow> (Inl (PersistState e), issuer, fs')
          | (None, fs') \<Rightarrow> (Inr envelope, issuer\<lparr>i_state := state\<rparr>, fs')))"

definition minDuration :: "duration \<Rightarrow> duration \<Rightarrow> duration" where
  "minDuration left right = (if left < right then left else right)"

definition minTime :: "time \<Rightarrow> time \<Rightarrow> time" where
  "minTime left right = (if left < right then left else right)"

definition hasCached :: "Issuer \<Rightarrow> bool" where
  "hasCached issuer \<longleftrightarrow> env_Payload (i_cached issuer) \<noteq> []"

definition Issuer_Issue ::
  "crypto \<Rightarrow> faults \<Rightarrow> reader option \<Rightarrow> time \<Rightarrow> Issuer \<Rightarrow> fs \<Rightarrow> (refresh_error + Envelope) \<times> Issuer \<times> fs" where
  "Issuer_Issue c x catalogFile clock issuer fs =
    (if i_closed issuer then (Inl IssuerClosed, issuer, fs)
     else
       (let now = truncate_second clock in
        if st_LastVersion (i_state issuer) > 0 \<and> now < st_LastIssuedAt (i_state issuer)
        then (Inl ClockBehindLastIssue, issuer, fs)
        else if hasCached issuer \<and> now < i_cacheUntil issuer then (Inr (i_cached issuer), issuer, fs)
        else case (if now < i_retryAt issuer then i_lastError issuer else None) of
          Some e \<Rightarrow>
            if hasCached issuer \<and> now < i_validUntil issuer then (Inr (i_cached issuer), issuer, fs)
            else (Inl e, issuer, fs)
        | None \<Rightarrow>
            (case refresh c x catalogFile now issuer fs of
               (Inl e, issuer1, fs1) \<Rightarrow>
                 (let issuer2 = issuer1\<lparr>i_lastError := Some e,
                        i_retryAt := now + minDuration (5 * second) (i_cacheFor issuer)\<rparr>
                  in if hasCached issuer2 \<and> now < i_validUntil issuer2
                     then (Inr (i_cached issuer2),
                       issuer2\<lparr>i_cacheUntil := minTime (i_retryAt issuer2) (i_validUntil issuer2)\<rparr>, fs1)
                     else (Inl e, issuer2, fs1))
             | (Inr envelope, issuer1, fs1) \<Rightarrow>
                 (Inr envelope, issuer1\<lparr>i_lastError := None, i_retryAt := zero_time, i_cached := envelope,
                    i_cacheUntil := now + i_cacheFor issuer, i_validUntil := now + i_ttl issuer\<rparr>, fs1))))"

definition Issuer_Close :: "Issuer \<Rightarrow> fs \<Rightarrow> Issuer \<times> fs" where
  "Issuer_Close issuer fs =
    (if i_closed issuer then (issuer, fs) else (issuer\<lparr>i_closed := True\<rparr>, CloseProcessLock fs))"

end
