(* ===== verification/IssuerRun.thy ===== *)
theory IssuerRun
  imports Issuer
begin

text \<open>
  The issuer over its whole life: processes start, issue, close, are killed and lose power in
  any order, with any system call failing. The theory gives the step relation, the invariant of
  the reachable worlds and the properties that rest on it.
\<close>

subsection \<open>The order of issuer states\<close>

definition istate_lt :: "State \<Rightarrow> State \<Rightarrow> bool" where
  "istate_lt s t \<longleftrightarrow> st_LastVersion s < st_LastVersion t \<and> st_LastIssuedAt s \<le> st_LastIssuedAt t \<and>
     st_PolicyVersion s \<le> st_PolicyVersion t \<and>
     (st_PolicyVersion s = st_PolicyVersion t \<longrightarrow> st_PolicySHA256 s = st_PolicySHA256 t) \<and>
     st_CatalogRevision s \<le> st_CatalogRevision t \<and>
     (st_CatalogRevision s = st_CatalogRevision t \<longrightarrow> st_CatalogSHA256 s = st_CatalogSHA256 t) \<and>
     st_KeyEpoch s \<le> st_KeyEpoch t \<and> (st_KeyID s \<noteq> st_KeyID t \<longrightarrow> st_KeyEpoch s < st_KeyEpoch t)"

definition istate_le :: "State \<Rightarrow> State \<Rightarrow> bool" where
  "istate_le s t \<longleftrightarrow> s = t \<or> istate_lt s t"

lemma chain_eq:
  fixes a b d :: "'a::linorder"
  shows "a \<le> b \<Longrightarrow> b \<le> d \<Longrightarrow> a = b \<longrightarrow> x = y \<Longrightarrow> b = d \<longrightarrow> y = z \<Longrightarrow> a = d \<longrightarrow> x = z"
  by auto

lemma chain_less:
  fixes a b d :: "'a::linorder"
  shows "a \<le> b \<Longrightarrow> b \<le> d \<Longrightarrow> x \<noteq> y \<longrightarrow> a < b \<Longrightarrow> y \<noteq> z \<longrightarrow> b < d \<Longrightarrow> x \<noteq> z \<longrightarrow> a < d"
  by auto

lemma istate_lt_trans:
  assumes "istate_lt s t" and "istate_lt t u"
  shows "istate_lt s u"
  using assms unfolding istate_lt_def
  by (elim conjE, intro conjI) (erule less_trans order_trans chain_eq chain_less, assumption+)+

lemma istate_le_lt_trans: "istate_le s t \<Longrightarrow> istate_lt t u \<Longrightarrow> istate_lt s u"
  unfolding istate_le_def using istate_lt_trans by blast

subsection \<open>Facts on the operations\<close>

text \<open>What a running issuer keeps of its options and of the state it started on.\<close>

definition issuer_ok :: "crypto \<Rightarrow> Issuer \<Rightarrow> bool" where
  "issuer_ok c i \<longleftrightarrow> \<not> i_closed i \<and> minute \<le> i_ttl i \<and> i_ttl i \<le> hour \<and>
     second \<le> i_cacheFor i \<and> i_cacheFor i \<le> i_ttl i div 2 \<and>
     i_keyID i = KeyID c (public_of (i_privateKey i)) \<and>
     ValidateKeyPolicy c (i_keyPolicy i) (i_rootKey i) = Inr (i_policySHA i) \<and>
     (\<exists>v g pk. KeyPolicyGrant (i_keyPolicy i) (i_keyID i) v = Inr (g, pk) \<and> kg_Epoch g = i_keyEpoch i) \<and>
     (st_LastVersion (i_state i) \<noteq> 0 \<longrightarrow>
       st_PolicyVersion (i_state i) \<le> kp_Version (i_keyPolicy i) \<and>
       (st_PolicyVersion (i_state i) = kp_Version (i_keyPolicy i) \<longrightarrow> st_PolicySHA256 (i_state i) = i_policySHA i) \<and>
       (if st_KeyID (i_state i) = i_keyID i then st_KeyEpoch (i_state i) = i_keyEpoch i
        else st_KeyEpoch (i_state i) < i_keyEpoch i))"

lemma issuer_ok_cache [simp]:
  "issuer_ok c (i\<lparr>i_lastError := e\<rparr>) = issuer_ok c i" "issuer_ok c (i\<lparr>i_retryAt := t\<rparr>) = issuer_ok c i"
  "issuer_ok c (i\<lparr>i_cached := env\<rparr>) = issuer_ok c i" "issuer_ok c (i\<lparr>i_cacheUntil := t\<rparr>) = issuer_ok c i"
  "issuer_ok c (i\<lparr>i_validUntil := t\<rparr>) = issuer_ok c i"
  by (simp_all add: issuer_ok_def)

lemma migrateLegacy_cases:
  assumes "store_inv fs" and "migrateLegacy options digest x fs loaded = (r, fs')"
  shows "store_inv fs' \<and> fs_locked fs' = fs_locked fs"
    and "\<forall>s. loaded = Some s \<longrightarrow> st_PolicyVersion s \<noteq> 0 \<Longrightarrow> fs' = fs \<and> r = Inr loaded"
    and "loaded = None \<Longrightarrow> fs' = fs \<and> r = Inr None"
    and "r = Inr (Some s') \<Longrightarrow> \<exists>s. loaded = Some s \<and> st_LastVersion s' = st_LastVersion s"
  using assms Save_cases(1) [OF assms(1)] unfolding migrateLegacy_def Let_def
  by (auto split: option.split_asm if_split_asm sum.split_asm prod.split_asm)

lemma checkDurable_Inr:
  assumes "checkDurable options digest (Some s) = Inr v"
  shows "v = st_LastVersion s + 1" "st_LastVersion s \<noteq> - 1" "st_PolicyVersion s \<le> kp_Version (opt_KeyPolicy options)"
    "st_PolicyVersion s = kp_Version (opt_KeyPolicy options) \<longrightarrow> st_PolicySHA256 s = digest"
  using assms unfolding checkDurable_def by (auto simp: not_less split: if_split_asm)

lemma checkCurrentKey_Inr:
  assumes "checkCurrentKey options k loaded v = Inr g"
  shows "\<exists>pk. KeyPolicyGrant (opt_KeyPolicy options) k v = Inr (g, pk)"
    and "loaded = Some s \<Longrightarrow> if st_KeyID s = k then st_KeyEpoch s = kg_Epoch g else st_KeyEpoch s < kg_Epoch g"
  using assms unfolding checkCurrentKey_def
  by (auto simp: not_le split: sum.split_asm option.split_asm if_split_asm)

lemma startLocked_cases:
  assumes "store_inv fs" and "startLocked c options digest xl xs fs = (r, fs')"
  shows "store_inv fs' \<and> fs_locked fs' = fs_locked fs"
    and "(\<And>loaded. Load (opt_StatePath options) xl fs = Inr loaded \<Longrightarrow>
      \<exists>s. loaded = Some s \<and> st_PolicyVersion s \<noteq> 0) \<Longrightarrow> fs' = fs"
  using assms migrateLegacy_cases(1,2) [OF assms(1)] unfolding startLocked_def Let_def
  by (fastforce split: sum.split_asm prod.split_asm)+

lemma startLocked_Inr:
  assumes "store_inv fs" and "startLocked c options digest xl xs fs = (Inr i, fs')"
  obtains loaded state v g where "Load (opt_StatePath options) xl fs = Inr loaded"
    and "migrateLegacy options digest xs fs loaded = (Inr state, fs')"
    and "i_state i = (case state of None \<Rightarrow> zero_State | Some s \<Rightarrow> s)"
    and "checkDurable options digest state = Inr v"
    and "checkCurrentKey options (KeyID c (public_of (opt_PrivateKey options))) state v = Inr g"
    and "i = \<lparr>i_ttl = opt_TTL options, i_cacheFor = opt_CacheFor options,
      i_privateKey = opt_PrivateKey options, i_keyID = KeyID c (public_of (opt_PrivateKey options)),
      i_keyEpoch = kg_Epoch g, i_rootKey = opt_RootKey options, i_keyPolicy = opt_KeyPolicy options,
      i_policySHA = digest, i_path = opt_StatePath options,
      i_state = (case state of None \<Rightarrow> zero_State | Some s \<Rightarrow> s),
      i_cached = zero_Envelope, i_cacheUntil = zero_time, i_validUntil = zero_time,
      i_retryAt = zero_time, i_lastError = None, i_closed = False\<rparr>"
  using assms(2) unfolding startLocked_def Let_def
  by (auto split: sum.split_asm prod.split_asm)

text \<open>Before it takes the lock, \<open>NewIssuer\<close> only checks its options.\<close>

lemma NewIssuer_unfold:
  assumes "NewIssuer c options xk xl xs fs = (r, fs')"
  obtains (refused) e where "r = Inl e" "fs' = fs"
  | (locking) digest where "ValidateKeyPolicy c (opt_KeyPolicy options) (opt_RootKey options) = Inr digest"
      "minute \<le> opt_TTL options \<and> opt_TTL options \<le> hour \<and> second \<le> opt_CacheFor options \<and>
        opt_CacheFor options \<le> opt_TTL options div 2"
      "(case AcquireProcessLock (opt_StatePath options) xk fs of
          (Some e, fs1) \<Rightarrow> (Inl (StartLock e), fs1)
        | (None, fs1) \<Rightarrow>
            (case startLocked c options digest xl xs fs1 of
               (Inl e, fs2) \<Rightarrow> (Inl e, CloseProcessLock fs2)
             | (Inr issuer, fs2) \<Rightarrow> (Inr issuer, fs2))) = (r, fs')"
proof (cases "ValidateKeyPolicy c (opt_KeyPolicy options) (opt_RootKey options)")
  case (Inl e)
  then show thesis using assms refused unfolding NewIssuer_def by (auto split: if_split_asm)
next
  case (Inr digest)
  show thesis
  proof (cases "length (opt_PrivateKey options) \<noteq> private_key_size \<or>
      (opt_TTL options < minute \<or> opt_TTL options > hour) \<or>
      (opt_CacheFor options < second \<or> opt_CacheFor options > opt_TTL options div 2)")
    case True
    then show thesis using assms refused Inr unfolding NewIssuer_def by (auto split: if_split_asm)
  next
    case False
    then show thesis using assms Inr unfolding NewIssuer_def by (intro locking [OF Inr]) auto
  qed
qed

lemma NewIssuer_cases:
  assumes "store_inv fs" and "NewIssuer c options xk xl xs fs = (r, fs')"
  shows "store_inv fs' \<and> (case r of Inl _ \<Rightarrow> fs_locked fs' = fs_locked fs | Inr _ \<Rightarrow> \<not> fs_locked fs \<and> fs_locked fs')"
  using assms(2)
proof (cases rule: NewIssuer_unfold)
  case (locking digest)
  obtain l fs1 where l: "AcquireProcessLock (opt_StatePath options) xk fs = (l, fs1)" by force
  note inv1 = AcquireProcessLock_inv [OF assms(1) l]
  show ?thesis
  proof (cases l)
    case (Some e)
    with locking(3) l inv1 show ?thesis by auto
  next
    case None
    obtain r2 fs2 where s: "startLocked c options digest xl xs fs1 = (r2, fs2)" by force
    have "store_inv fs2 \<and> fs_locked fs2" "\<not> fs_locked fs"
      using startLocked_cases(1) [OF _ s] inv1 None by simp_all
    with locking(3) l None s show ?thesis
      by (cases r2) (auto simp: CloseProcessLock_def store_inv_def)
  qed
qed (use assms(1) in auto)

lemma NewIssuer_Inr:
  assumes "store_inv fs" and "NewIssuer c options xk xl xs fs = (Inr i, fs')"
  obtains fs1 digest where "fs_file fs1 = fs_file fs" "fs_disk fs1 = fs_disk fs" "store_inv fs1"
    and "ValidateKeyPolicy c (opt_KeyPolicy options) (opt_RootKey options) = Inr digest"
    and "minute \<le> opt_TTL options \<and> opt_TTL options \<le> hour \<and> second \<le> opt_CacheFor options \<and>
      opt_CacheFor options \<le> opt_TTL options div 2"
    and "startLocked c options digest xl xs fs1 = (Inr i, fs')"
  using assms(2)
proof (cases rule: NewIssuer_unfold)
  case (locking digest)
  obtain l fs1 where l: "AcquireProcessLock (opt_StatePath options) xk fs = (l, fs1)" by force
  note inv1 = AcquireProcessLock_inv [OF assms(1) l]
  obtain r2 fs2 where s: "startLocked c options digest xl xs fs1 = (r2, fs2)" by force
  have "l = None" "r2 = Inr i" "fs2 = fs'"
    using locking(3) l s by (auto split: option.split_asm sum.split_asm)
  with that [OF _ _ _ locking(1,2), of fs1] inv1 s show thesis by auto
qed simp

lemma NewIssuer_ok:
  assumes "store_inv fs" and "NewIssuer c options xk xl xs fs = (Inr i, fs')"
  shows "issuer_ok c i" and "\<not> hasCached i" and "i_path i = opt_StatePath options" and "i_path i \<noteq> []"
proof -
  obtain fs1 digest where d: "ValidateKeyPolicy c (opt_KeyPolicy options) (opt_RootKey options) = Inr digest"
    "minute \<le> opt_TTL options \<and> opt_TTL options \<le> hour \<and> second \<le> opt_CacheFor options \<and>
      opt_CacheFor options \<le> opt_TTL options div 2" "store_inv fs1"
    "startLocked c options digest xl xs fs1 = (Inr i, fs')"
    by (rule NewIssuer_Inr [OF assms])
  obtain loaded state v g where l: "Load (opt_StatePath options) xl fs1 = Inr loaded"
    and v: "checkDurable options digest state = Inr v"
    "checkCurrentKey options (KeyID c (public_of (opt_PrivateKey options))) state v = Inr g"
    and i: "i = \<lparr>i_ttl = opt_TTL options, i_cacheFor = opt_CacheFor options,
      i_privateKey = opt_PrivateKey options, i_keyID = KeyID c (public_of (opt_PrivateKey options)),
      i_keyEpoch = kg_Epoch g, i_rootKey = opt_RootKey options, i_keyPolicy = opt_KeyPolicy options,
      i_policySHA = digest, i_path = opt_StatePath options,
      i_state = (case state of None \<Rightarrow> zero_State | Some s \<Rightarrow> s),
      i_cached = zero_Envelope, i_cacheUntil = zero_time, i_validUntil = zero_time,
      i_retryAt = zero_time, i_lastError = None, i_closed = False\<rparr>"
    by (rule startLocked_Inr [OF d(3,4)])
  note key = checkCurrentKey_Inr [OF v(2)]
  show "issuer_ok c i"
    unfolding issuer_ok_def i
    using d(1,2) key(1) key(2) checkDurable_Inr [of options digest _ v] v(1)
    by (cases state) (auto simp: zero_State_def split: if_split_asm)
  show "\<not> hasCached i" "i_path i = opt_StatePath options"
    by (simp_all add: i hasCached_def zero_Envelope_def)
  show "i_path i \<noteq> []" using l by (auto simp: i Load_def)
qed

text \<open>The state a new issuer runs on is the loaded one, when that one names a policy.\<close>

lemma NewIssuer_state:
  assumes "store_inv fs" and "NewIssuer c options xk xl xs fs = (r, fs')"
    and pol: "\<And>v. v \<in> store_possible fs \<Longrightarrow> \<exists>s. v = Inr (Some s) \<and> st_PolicyVersion s \<noteq> 0"
  shows "store_possible fs' = store_possible fs" and "fs_dir fs' = fs_dir fs" and "r = Inr i \<Longrightarrow> Inr (Some (i_state i)) \<in> store_possible fs"
proof -
  have "store_possible fs' = store_possible fs \<and> fs_dir fs' = fs_dir fs \<and> (r = Inr i \<longrightarrow> Inr (Some (i_state i)) \<in> store_possible fs)"
    using assms(2)
  proof (cases rule: NewIssuer_unfold)
    case (locking digest)
    obtain l fs1 where l: "AcquireProcessLock (opt_StatePath options) xk fs = (l, fs1)" by force
    note inv1 = AcquireProcessLock_inv(1) [OF assms(1) l]
    then have poss: "store_possible fs1 = store_possible fs" by (simp add: store_possible_def)
    have load: "Inr v \<in> store_possible fs" if "Load (opt_StatePath options) xl fs1 = Inr v" for v
      using file_store.load_possible that inv1 poss by blast
    obtain r2 fs2 where s: "startLocked c options digest xl xs fs1 = (r2, fs2)" by force
    have fs2: "fs2 = fs1" using startLocked_cases(2) [OF _ s] inv1 load pol by blast
    have st: "Inr (Some (i_state i)) \<in> store_possible fs" if "r2 = Inr i"
    proof -
      have s': "startLocked c options digest xl xs fs1 = (Inr i, fs2)" using s that by simp
      obtain loaded state where m: "Load (opt_StatePath options) xl fs1 = Inr loaded"
        "migrateLegacy options digest xs fs1 loaded = (Inr state, fs2)"
        "i_state i = (case state of None \<Rightarrow> zero_State | Some s \<Rightarrow> s)"
        by (rule startLocked_Inr [OF conjunct1 [OF inv1] s']) blast
      obtain s where s: "loaded = Some s" "st_PolicyVersion s \<noteq> 0" using pol [OF load [OF m(1)]] by blast
      then have "state = Some s" using migrateLegacy_cases(2) [OF conjunct1 [OF inv1] m(2)] by simp
      with m(3) s(1) load [OF m(1)] show ?thesis by simp
    qed
    have closed: "store_possible (CloseProcessLock fs1) = store_possible fs1"
      by (simp add: CloseProcessLock_def store_possible_def)
    show ?thesis
    proof (cases l)
      case None
      then show ?thesis using locking(3) l s fs2 st poss closed inv1 by (cases r2) (auto simp: CloseProcessLock_def)
    next
      case (Some e)
      then show ?thesis using locking(3) l poss inv1 by auto
    qed
  qed simp
  then show "store_possible fs' = store_possible fs" "fs_dir fs' = fs_dir fs" "r = Inr i \<Longrightarrow> Inr (Some (i_state i)) \<in> store_possible fs" by blast+
qed

lemma prepare_Inr:
  assumes "prepare c i loaded now = Inr (env, st)"
  obtains k digest where "loaded = Inr k" and "CatalogDigest c k = Inr digest"
    and "st = nextState i k digest now"
    and "Issue c k (st_LastVersion (i_state i) + 1) (i_keyPolicy i) (i_rootKey i) now (i_ttl i) (i_privateKey i) = Inr env"
    and "st_LastVersion (i_state i) \<noteq> 0 \<Longrightarrow> st_LastVersion (i_state i) \<noteq> - 1 \<and>
      st_CatalogRevision (i_state i) \<le> cat_Revision k \<and>
      (st_CatalogRevision (i_state i) = cat_Revision k \<longrightarrow> st_CatalogSHA256 (i_state i) = digest) \<and>
      st_LastIssuedAt (i_state i) \<le> now"
proof (cases loaded)
  case (Inl e)
  with assms show thesis by (simp add: prepare_def)
next
  case (Inr k)
  show thesis
  proof (cases "CatalogDigest c k")
    case (Inl e)
    with assms \<open>loaded = Inr k\<close> show thesis by (simp add: prepare_def)
  next
    case digest: (Inr digest)
    show thesis
      using assms Inr digest that [OF Inr digest] unfolding prepare_def
      by (auto simp: word_pos_iff not_less split: if_split_asm sum.split_asm)
  qed
qed

lemma prepare_state:
  assumes "crypto_ok c" "issuer_ok c i" and "prepare c i loaded now = Inr (env, st)"
  shows "storable st" and "st_LastVersion (i_state i) \<noteq> 0 \<Longrightarrow> istate_lt (i_state i) st"
    and "issuer_ok c (i\<lparr>i_state := st\<rparr>)" and "st_LastVersion st = st_LastVersion (i_state i) + 1"
    and "st_LastVersion st \<noteq> 0" and "st_PolicyVersion st \<noteq> 0" and "env_Payload env \<noteq> []"
proof -
  obtain k digest where k: "CatalogDigest c k = Inr digest" "st = nextState i k digest now"
    "Issue c k (st_LastVersion (i_state i) + 1) (i_keyPolicy i) (i_rootKey i) now (i_ttl i) (i_privateKey i) = Inr env"
    and prev: "st_LastVersion (i_state i) \<noteq> 0 \<longrightarrow> st_LastVersion (i_state i) \<noteq> - 1 \<and>
      st_CatalogRevision (i_state i) \<le> cat_Revision k \<and>
      (st_CatalogRevision (i_state i) = cat_Revision k \<longrightarrow> st_CatalogSHA256 (i_state i) = digest) \<and>
      st_LastIssuedAt (i_state i) \<le> now"
    by (rule prepare_Inr [OF assms(3)]) blast
  note ok = assms(2) [unfolded issuer_ok_def] and I = Issue_Inr [OF k(3)]
  have sha: "length (sha256_sum c x) = 32" for x using crypto_okD(1) [OF assms(1)] by simp
  have policy: "ValidateKeyPolicy c (i_keyPolicy i) (i_rootKey i) = Inr (i_policySHA i)" using ok by blast
  show "storable st"
  proof (rule length_State [OF _ sha _ sha _ sha])
    show "st_KeyID st = raw_url_encode (sha256_sum c (public_of (i_privateKey i)))"
      using ok unfolding k(2) nextState_def KeyID_def by simp
    show "st_PolicySHA256 st =
        raw_url_encode (sha256_sum c (print_json (enc_KeyPolicy (canonicalKeyPolicy (i_keyPolicy i)))))"
      using ValidateKeyPolicy_ok(5) [OF policy] by (simp add: k(2) nextState_def)
    show "st_CatalogSHA256 st = raw_url_encode (sha256_sum c (catalog_bytes k))"
      using k(1) by (simp add: k(2) nextState_def CatalogDigest_iff)
  qed
  show "st_LastVersion st = st_LastVersion (i_state i) + 1" by (simp add: k(2) nextState_def)
  show "st_LastVersion st \<noteq> 0"
    using Validate_None(2) [OF I(5)] by (simp add: k(2) nextState_def issuedDocument_def)
  show "st_PolicyVersion st \<noteq> 0"
    using ValidateKeyPolicy_ok(2) [OF policy]
    by (auto simp: k(2) nextState_def validateKeyPolicyShape_def split: if_split_asm)
  show "env_Payload env \<noteq> []" using I(8) by (simp add: enc_Document_def)
  show "issuer_ok c (i\<lparr>i_state := st\<rparr>)"
    using ok unfolding issuer_ok_def k(2) nextState_def by (elim conjE, intro conjI) simp_all
  show "istate_lt (i_state i) st" if "st_LastVersion (i_state i) \<noteq> 0"
  proof -
    have "st_LastVersion (i_state i) < st_LastVersion (i_state i) + 1" using prev that word_less_Suc by blast
    moreover have "st_KeyEpoch (i_state i) \<le> i_keyEpoch i \<and>
        (st_KeyID (i_state i) \<noteq> i_keyID i \<longrightarrow> st_KeyEpoch (i_state i) < i_keyEpoch i)"
      using ok that by (cases "st_KeyID (i_state i) = i_keyID i") (simp_all add: less_imp_le)
    moreover have "st_PolicyVersion (i_state i) \<le> kp_Version (i_keyPolicy i) \<and>
        (st_PolicyVersion (i_state i) = kp_Version (i_keyPolicy i) \<longrightarrow> st_PolicySHA256 (i_state i) = i_policySHA i)"
      using ok that by blast
    ultimately show ?thesis using prev that by (simp add: istate_lt_def k(2) nextState_def)
  qed
qed

subsection \<open>Worlds\<close>

text \<open>
  A publication records the issuer after it published, the catalog it read and the envelope.
  A world is the storage, the running issuers and everything published so far: every envelope
  that a call returned, except when the call returned the one the issuer held already.
\<close>

record publication =
  pub_by :: Issuer
  pub_catalog :: Catalog
  pub_envelope :: Envelope

abbreviation pub_state :: "publication \<Rightarrow> State" where
  "pub_state p \<equiv> i_state (pub_by p)"

record world =
  w_fs :: fs
  w_running :: "Issuer list"
  w_log :: "publication list"

definition publications :: "Issuer \<Rightarrow> reader option \<Rightarrow> refresh_error + Envelope \<Rightarrow> Issuer \<Rightarrow> publication list" where
  "publications i catalogFile r i' =
    (case (LoadFile catalogFile, r) of
       (Inr k, Inr env) \<Rightarrow>
         if hasCached i \<and> env = i_cached i then []
         else [\<lparr>pub_by = i', pub_catalog = k, pub_envelope = env\<rparr>]
     | _ \<Rightarrow> [])"

text \<open>
  The steps. A call that is interrupted in the middle is a call whose remaining system calls
  fail, followed by \<open>kill\<close> or \<open>power\<close>.
\<close>

inductive issuer_step :: "crypto \<Rightarrow> world \<Rightarrow> world \<Rightarrow> bool" for c where
  start: "NewIssuer c options xk xl xs (w_fs w) = (Inr i, fs') \<Longrightarrow>
    issuer_step c w (w\<lparr>w_fs := fs', w_running := i # w_running w\<rparr>)"
| start_failed: "NewIssuer c options xk xl xs (w_fs w) = (Inl e, fs') \<Longrightarrow>
    issuer_step c w (w\<lparr>w_fs := fs'\<rparr>)"
| issue: "w_running w = us @ i # vs \<Longrightarrow> Issuer_Issue c x catalogFile clock i (w_fs w) = (r, i', fs') \<Longrightarrow>
    issuer_step c w (w\<lparr>w_fs := fs', w_running := us @ i' # vs,
      w_log := w_log w @ publications i catalogFile r i'\<rparr>)"
| close: "w_running w = us @ i # vs \<Longrightarrow> Issuer_Close i (w_fs w) = (i', fs') \<Longrightarrow>
    issuer_step c w (w\<lparr>w_fs := fs', w_running := us @ vs\<rparr>)"
| kill: "w_running w = us @ i # vs \<Longrightarrow>
    issuer_step c w (w\<lparr>w_fs := CloseProcessLock (w_fs w), w_running := us @ vs\<rparr>)"
| power: "issuer_step c w (w\<lparr>w_fs := power_loss k (w_fs w), w_running := []\<rparr>)"

definition reachable :: "crypto \<Rightarrow> fs \<Rightarrow> world \<Rightarrow> bool" where
  "reachable c fs w \<longleftrightarrow> (issuer_step c)\<^sup>*\<^sup>* \<lparr>w_fs = fs, w_running = [], w_log = []\<rparr> w"

subsection \<open>What one call of Issue does\<close>

lemma Issuer_Issue_cases:
  assumes "Issuer_Issue c x catalogFile clock i fs = (r, i', fs')"
  defines "now \<equiv> truncate_second clock"
  obtains (idle) "i' = i" "fs' = fs"
      "\<And>env. r = Inr env \<Longrightarrow> hasCached i \<and> env = i_cached i \<and> (now < i_cacheUntil i \<or> now < i_validUntil i)"
  | (failed) e until where "refresh c x catalogFile now i fs = (Inl e, i, fs')"
      "i' = i\<lparr>i_lastError := Some e, i_retryAt := now + minDuration (5 * second) (i_cacheFor i), i_cacheUntil := until\<rparr>"
      "until = i_cacheUntil i \<or> until \<le> i_validUntil i"
      "\<And>env. r = Inr env \<Longrightarrow> hasCached i \<and> env = i_cached i \<and> now < i_validUntil i"
  | (fresh) env i1 where "refresh c x catalogFile now i fs = (Inr env, i1, fs')" "r = Inr env"
      "i' = i1\<lparr>i_lastError := None, i_retryAt := zero_time, i_cached := env,
         i_cacheUntil := now + i_cacheFor i, i_validUntil := now + i_ttl i\<rparr>"
proof -
  obtain r1 i1 fs1 where R: "refresh c x catalogFile now i fs = (r1, i1, fs1)" using prod_cases3 by blast
  note run = assms(1) [unfolded Issuer_Issue_def Let_def, folded now_def]
  consider (closed) "i_closed i \<or> st_LastVersion (i_state i) > 0 \<and> now < st_LastIssuedAt (i_state i)"
    | (cached) "\<not> (i_closed i \<or> st_LastVersion (i_state i) > 0 \<and> now < st_LastIssuedAt (i_state i))"
        "hasCached i \<and> now < i_cacheUntil i"
    | (retry) e where "\<not> (i_closed i \<or> st_LastVersion (i_state i) > 0 \<and> now < st_LastIssuedAt (i_state i))"
        "\<not> (hasCached i \<and> now < i_cacheUntil i)" "(if now < i_retryAt i then i_lastError i else None) = Some e"
    | (refresh) "\<not> (i_closed i \<or> st_LastVersion (i_state i) > 0 \<and> now < st_LastIssuedAt (i_state i))"
        "\<not> (hasCached i \<and> now < i_cacheUntil i)" "(if now < i_retryAt i then i_lastError i else None) = None"
    by blast
  then show thesis
  proof cases
    case closed
    then show ?thesis using run by (intro idle) (auto split: if_split_asm)
  next
    case cached
    then show ?thesis using run by (intro idle) auto
  next
    case retry
    then show ?thesis using run by (intro idle) (auto split: if_split_asm)
  next
    case refresh
    show ?thesis
    proof (cases r1)
      case (Inl e)
      let ?t = "if hasCached i \<and> now < i_validUntil i
        then minTime (now + minDuration (5 * second) (i_cacheFor i)) (i_validUntil i) else i_cacheUntil i"
      have i1: "i1 = i" using R Inl unfolding refresh_def
        by (auto split: sum.split_asm prod.split_asm option.split_asm)
      have fs': "fs1 = fs'"
        using run refresh R Inl by (auto split: if_split_asm)
      show ?thesis
      proof (rule failed [of e ?t])
        show "refresh c x catalogFile now i fs = (Inl e, i, fs')" using R Inl i1 fs' by simp
        show "i' = i\<lparr>i_lastError := Some e, i_retryAt := now + minDuration (5 * second) (i_cacheFor i),
            i_cacheUntil := ?t\<rparr>"
          using run refresh R Inl i1 by (cases "hasCached i \<and> now < i_validUntil i") (auto simp: hasCached_def)
        show "?t = i_cacheUntil i \<or> ?t \<le> i_validUntil i" by (simp add: minTime_def)
        show "hasCached i \<and> env = i_cached i \<and> now < i_validUntil i" if "r = Inr env" for env
          using run refresh R Inl i1 that by (cases "hasCached i \<and> now < i_validUntil i") (auto simp: hasCached_def)
      qed
    next
      case (Inr env)
      then show ?thesis using run refresh R by (intro fresh [of env i1]) auto
    qed
  qed
qed

lemma refresh_Inr:
  assumes "refresh c x catalogFile now i fs = (Inr env, i1, fs')"
  obtains st where "prepare c i (LoadFile catalogFile) now = Inr (env, st)"
    "Save (i_path i) x fs st = (None, fs')" "i1 = i\<lparr>i_state := st\<rparr>"
  using assms unfolding refresh_def by (auto split: sum.split_asm prod.split_asm option.split_asm)

lemma refresh_Inl:
  assumes "refresh c x catalogFile now i fs = (Inl e, i1, fs')"
  obtains "fs' = fs" | env st e' where "prepare c i (LoadFile catalogFile) now = Inr (env, st)"
    "Save (i_path i) x fs st = (Some e', fs')"
  using assms unfolding refresh_def by (auto split: sum.split_asm prod.split_asm option.split_asm)

subsection \<open>The invariant\<close>

definition published :: "crypto \<Rightarrow> publication \<Rightarrow> bool" where
  "published c p \<longleftrightarrow> issuer_ok c (pub_by p) \<and>
     Issue c (pub_catalog p) (st_LastVersion (pub_state p)) (i_keyPolicy (pub_by p)) (i_rootKey (pub_by p))
       (st_LastIssuedAt (pub_state p)) (i_ttl (pub_by p)) (i_privateKey (pub_by p)) = Inr (pub_envelope p) \<and>
     truncate_second (st_LastIssuedAt (pub_state p)) = st_LastIssuedAt (pub_state p) \<and>
     st_LastVersion (pub_state p) \<noteq> 0 \<and> st_PolicyVersion (pub_state p) = kp_Version (i_keyPolicy (pub_by p)) \<and>
     st_PolicySHA256 (pub_state p) = i_policySHA (pub_by p) \<and> st_KeyID (pub_state p) = i_keyID (pub_by p) \<and>
     st_KeyEpoch (pub_state p) = i_keyEpoch (pub_by p) \<and> st_PolicyVersion (pub_state p) \<noteq> 0"

definition follows :: "publication list \<Rightarrow> State \<Rightarrow> bool" where
  "follows log s \<longleftrightarrow> log \<noteq> [] \<longrightarrow> istate_le (pub_state (last log)) s"

definition stored :: "publication list \<Rightarrow> store_error + State option \<Rightarrow> bool" where
  "stored log v \<longleftrightarrow> log \<noteq> [] \<longrightarrow> (\<exists>s. v = Inr (Some s) \<and> follows log s)"

definition cache_ok :: "publication list \<Rightarrow> Issuer \<Rightarrow> bool" where
  "cache_ok log i \<longleftrightarrow> hasCached i \<longrightarrow> i_cacheUntil i \<le> i_validUntil i \<and>
     (\<exists>p \<in> set log. pub_envelope p = i_cached i \<and> i_validUntil i = st_LastIssuedAt (pub_state p) + i_ttl (pub_by p))"

definition running_ok :: "crypto \<Rightarrow> publication list \<Rightarrow> Issuer \<Rightarrow> bool" where
  "running_ok c log i \<longleftrightarrow> issuer_ok c i \<and> i_path i \<noteq> [] \<and> follows log (i_state i) \<and> cache_ok log i"

definition world_inv :: "crypto \<Rightarrow> world \<Rightarrow> bool" where
  "world_inv c w \<longleftrightarrow> store_inv (w_fs w) \<and>
     (w_running w = [] \<or> fs_locked (w_fs w) \<and> (\<exists>i. w_running w = [i] \<and> running_ok c (w_log w) i)) \<and>
     (\<forall>p \<in> set (w_log w). published c p) \<and>
     sorted_wrt (\<lambda>p q. istate_lt (pub_state p) (pub_state q)) (w_log w) \<and>
     file_store.always (stored (w_log w)) (w_fs w) \<and>
     (w_log w \<noteq> [] \<longrightarrow> fs_dir (w_fs w) = Some (Directory, False))"

lemma follows_version:
  assumes "follows log s" "log \<noteq> []" "\<forall>p \<in> set log. published c p"
  shows "st_LastVersion s \<noteq> 0" "st_PolicyVersion s \<noteq> 0"
proof -
  have "published c (last log)" using assms(2,3) by simp
  then have v: "st_LastVersion (pub_state (last log)) \<noteq> 0" "st_PolicyVersion (pub_state (last log)) \<noteq> 0"
    unfolding published_def by blast+
  have "istate_le (pub_state (last log)) s" using assms(1,2) by (simp add: follows_def)
  then show "st_LastVersion s \<noteq> 0" "st_PolicyVersion s \<noteq> 0"
    using v unfolding istate_le_def istate_lt_def by (auto simp: word_le_0_iff)
qed

lemma sorted_follows:
  assumes "sorted_wrt (\<lambda>p q. istate_lt (pub_state p) (pub_state q)) log" "follows log s" "istate_lt s t" "p \<in> set log"
  shows "istate_lt (pub_state p) t"
proof -
  obtain log' q where log: "log = log' @ [q]" using assms(4) by (cases log rule: rev_cases) auto
  then have "istate_lt (pub_state q) t"
    using assms(2,3) istate_le_lt_trans by (auto simp: follows_def)
  moreover have "p = q \<or> istate_lt (pub_state p) (pub_state q)"
    using assms(1,4) by (auto simp: log sorted_wrt_append)
  ultimately show ?thesis using istate_lt_trans by blast
qed

text \<open>Saving the next state keeps what the log says of the storage; reporting success makes it the last word.\<close>

lemma save_stored:
  assumes "store_inv fs" "storable st" "file_store.always (stored log) fs" "follows log st"
    and "Save path x fs st = (r, fs')"
  shows "store_inv fs'" "file_store.always (stored log) fs'" "fs_locked fs' = fs_locked fs" "fs_dir fs' = fs_dir fs"
  using assms file_store.save_inv [OF assms(1,5)] file_store.always_save [OF assms(1,2,3) _ assms(5)]
    Save_cases(1) [OF assms(1,5)]
  by (auto simp: stored_def)

text \<open>An envelope names its version, so a fresh one is never the one held before.\<close>

lemma dec_text_comma:
  assumes "dec_text m @ CHR '','' # r = dec_text n @ CHR '','' # r'"
  shows "m = n"
proof -
  have take: "takeWhile (\<lambda>ch. ch \<noteq> CHR '','') (dec_text n @ CHR '','' # r) = dec_text n" for n r
    using dec_text_digits [of n] by (subst takeWhile_append2) (auto simp: list_all_iff is_digit_def)
  have "dec_text m = dec_text n" using arg_cong [OF assms, of "takeWhile (\<lambda>ch. ch \<noteq> CHR '','')"] unfolding take .
  from arg_cong [OF this, of digits_value] show ?thesis by (simp add: digits_value_dec_text)
qed

lemma Issue_version:
  assumes "Issue c k v p r t ttl sk = Inr env" "Issue c' k' v' p' r' t' ttl' sk' = Inr env"
  shows "v = v'"
proof -
  let ?d = "issuedDocument k v p t ttl" and ?d' = "issuedDocument k' v' p' t' ttl'"
  have "print_json (enc_Document ?d) = print_json (enc_Document ?d')"
    using Issue_Inr(8) [OF assms(1)] Issue_Inr(8) [OF assms(2)] by simp
  then have "unat v = unat v'"
    by (auto simp: enc_Document_def enc_uint_def issuedDocument_def intro: dec_text_comma)
  then show ?thesis by (simp add: word_unat_eq_iff)
qed

lemma fresh_envelope:
  assumes "crypto_ok c" "issuer_ok c i" "follows log (i_state i)" "cache_ok log i"
    and log: "\<forall>p \<in> set log. published c p" "sorted_wrt (\<lambda>p q. istate_lt (pub_state p) (pub_state q)) log"
    and prep: "prepare c i loaded now = Inr (env, st)"
  shows "\<not> (hasCached i \<and> env = i_cached i)"
proof
  assume "hasCached i \<and> env = i_cached i"
  then obtain q where q: "q \<in> set log" "pub_envelope q = env" using assms(4) unfolding cache_ok_def by auto
  obtain k p r t ttl sk where "Issue c k (st_LastVersion (pub_state q)) p r t ttl sk = Inr env"
    using log(1) q unfolding published_def by auto
  moreover obtain k' p' r' t' ttl' sk' where "Issue c k' (st_LastVersion (i_state i) + 1) p' r' t' ttl' sk' = Inr env"
    by (rule prepare_Inr [OF prep]) blast
  ultimately have "st_LastVersion (pub_state q) = st_LastVersion st"
    using Issue_version prepare_state(4) [OF assms(1,2) prep] by metis
  moreover have "log \<noteq> []" using q(1) by auto
  then have "istate_lt (i_state i) st"
    using prepare_state(2) [OF assms(1,2) prep] follows_version(1) [OF assms(3) _ log(1)] by blast
  then have "istate_lt (pub_state q) st" using sorted_follows [OF log(2) assms(3) _ q(1)] by blast
  ultimately show False by (simp add: istate_lt_def)
qed

lemma prepared_publication:
  assumes "crypto_ok c" "issuer_ok c i" "prepare c i (LoadFile catalogFile) now = Inr (env, st)"
    and "\<not> (hasCached i \<and> env = i_cached i)" and "truncate_second now = now"
    and "i' = i\<lparr>i_state := st, i_lastError := e, i_retryAt := t1, i_cached := env, i_cacheUntil := t2, i_validUntil := t3\<rparr>"
  obtains p where "publications i catalogFile (Inr env) i' = [p]" "published c p" "pub_by p = i'" "pub_envelope p = env"
    "st_LastIssuedAt st = now" "issuer_ok c i'" "LoadFile catalogFile = Inr (pub_catalog p)"
proof -
  note st = prepare_state [OF assms(1-3)]
  obtain k digest where k: "LoadFile catalogFile = Inr k" "st = nextState i k digest now"
    "Issue c k (st_LastVersion (i_state i) + 1) (i_keyPolicy i) (i_rootKey i) now (i_ttl i) (i_privateKey i) = Inr env"
    by (rule prepare_Inr [OF assms(3)]) blast
  let ?p = "\<lparr>pub_by = i', pub_catalog = k, pub_envelope = env\<rparr>"
  have ok: "issuer_ok c i'" using st(3) by (simp add: assms(6))
  have "publications i catalogFile (Inr env) i' = [?p]"
    using assms(4) by (auto simp: publications_def k(1))
  moreover have "published c ?p"
    unfolding published_def using ok k(3) st(4,5,6) assms(5) by (simp add: assms(6) k(2) nextState_def)
  ultimately show thesis using that ok k(1) by (simp add: k(2) nextState_def)
qed

lemma issue_inv:
  assumes "crypto_ok c" "world_inv c w" "w_running w = us @ i # vs"
    and "Issuer_Issue c x catalogFile clock i (w_fs w) = (r, i', fs')"
  defines "log' \<equiv> w_log w @ publications i catalogFile r i'"
  shows "world_inv c (w\<lparr>w_fs := fs', w_running := us @ i' # vs, w_log := log'\<rparr>)"
    and "r = Inr env \<Longrightarrow> \<exists>p \<in> set log'. pub_envelope p = env \<and>
      truncate_second clock < st_LastIssuedAt (pub_state p) + i_ttl (pub_by p)"
proof -
  note W = assms(2) [unfolded world_inv_def]
  have single: "us = []" "vs = []" and run: "issuer_ok c i" "follows (w_log w) (i_state i)" "cache_ok (w_log w) i"
    and path: "i_path i \<noteq> []" and dir: "w_log w \<noteq> [] \<longrightarrow> fs_dir (w_fs w) = Some (Directory, False)"
    and locked: "fs_locked (w_fs w)" and inv: "store_inv (w_fs w)"
    and log: "\<forall>p \<in> set (w_log w). published c p" "sorted_wrt (\<lambda>p q. istate_lt (pub_state p) (pub_state q)) (w_log w)"
    and stored: "file_store.always (stored (w_log w)) (w_fs w)"
    using W assms(3) by (auto simp: running_ok_def append_eq_Cons_conv)
  have "world_inv c (w\<lparr>w_fs := fs', w_running := us @ i' # vs, w_log := log'\<rparr>) \<and>
    (r = Inr env \<longrightarrow> (\<exists>p \<in> set log'. pub_envelope p = env \<and>
      truncate_second clock < st_LastIssuedAt (pub_state p) + i_ttl (pub_by p)))"
    using assms(4)
  proof (cases rule: Issuer_Issue_cases)
    case idle
    have "log' = w_log w" using idle(3) by (cases r) (auto simp: log'_def publications_def split: sum.split)
    with idle assms(2,3) run(3) show ?thesis
      by (cases w) (fastforce simp: cache_ok_def)
  next
    case (failed e until)
    have same: "i_state i' = i_state i" "hasCached i' = hasCached i" "i_cached i' = i_cached i" "i_validUntil i' = i_validUntil i"
      "i_cacheUntil i' = until"
      by (simp_all add: failed(2) hasCached_def)
    have log': "log' = w_log w" using failed(4) by (cases r) (auto simp: log'_def publications_def split: sum.split)
    have "store_inv fs' \<and> file_store.always (stored (w_log w)) fs' \<and> fs_locked fs' = fs_locked (w_fs w) \<and>
        fs_dir fs' = fs_dir (w_fs w)"
      using failed(1)
    proof (cases rule: refresh_Inl)
      case (2 env' st e')
      note st = prepare_state [OF assms(1) run(1) 2(1)]
      have "follows (w_log w) st"
        using follows_version(1) [OF run(2) _ log(1)] st(2) run(2) istate_le_lt_trans
        by (auto simp: follows_def istate_le_def)
      from save_stored [OF inv st(1) stored this 2(2)] show ?thesis by simp
    qed (use inv stored in simp)
    moreover have "running_ok c (w_log w) i'"
      unfolding running_ok_def
    proof (intro conjI)
      show "issuer_ok c i'" using run(1) by (simp add: failed(2))
      show "i_path i' \<noteq> []" using path by (simp add: failed(2))
      show "follows (w_log w) (i_state i')" using run(2) same(1) by simp
      show "cache_ok (w_log w) i'" using run(3) failed(3) unfolding cache_ok_def same by auto
    qed
    ultimately show ?thesis
      using failed(4) run(3) locked log log' single dir by (fastforce simp: world_inv_def cache_ok_def)
  next
    case (fresh env' i1)
    obtain st where prep: "prepare c i (LoadFile catalogFile) (truncate_second clock) = Inr (env', st)"
      and save: "Save (i_path i) x (w_fs w) st = (None, fs')" and i1: "i1 = i\<lparr>i_state := st\<rparr>"
      by (rule refresh_Inr [OF fresh(1)]) blast
    note st = prepare_state [OF assms(1) run(1) prep]
    have i': "i' = i\<lparr>i_state := st, i_lastError := None, i_retryAt := zero_time, i_cached := env',
        i_cacheUntil := truncate_second clock + i_cacheFor i, i_validUntil := truncate_second clock + i_ttl i\<rparr>"
      by (simp add: fresh(3) i1)
    obtain p where p: "publications i catalogFile (Inr env') i' = [p]" "published c p" "pub_by p = i'"
      "pub_envelope p = env'" "st_LastIssuedAt st = truncate_second clock" "issuer_ok c i'"
      by (rule prepared_publication [OF assms(1) run(1) prep fresh_envelope [OF assms(1) run log prep] _ i']) auto
    have log': "log' = w_log w @ [p]" using p(1) by (simp add: log'_def fresh(2))
    have state: "i_state i' = st" "i_ttl i' = i_ttl i" by (simp_all add: i')
    have before: "istate_lt (pub_state q) (pub_state p)" if "q \<in> set (w_log w)" for q
    proof -
      from that have ne: "w_log w \<noteq> []" by auto
      show ?thesis
        using sorted_follows [OF log(2) run(2) st(2) [OF follows_version(1) [OF run(2) ne log(1)]] that]
        by (simp add: p(3) state)
    qed
    have "stored log' (Inr (Some st))" by (simp add: stored_def follows_def log' p(3) state istate_le_def)
    then have "file_store.always (stored log') fs'" by (rule file_store.always_saved [OF inv st(1) save])
    moreover have "store_inv fs' \<and> fs_locked fs' \<and> fs_dir fs' = Some (Directory, False)"
      using Save_cases(1) [OF inv save] Save_directory(2) [OF save] locked by simp
    moreover have "0 < i_ttl i" "i_cacheFor i \<le> i_ttl i"
      using run(1) by (auto simp: issuer_ok_def minute_def second_def)
    then have "running_ok c log' i'"
      using p path by (simp add: running_ok_def follows_def cache_ok_def log' state istate_le_def) (simp add: i' p(5))
    ultimately show ?thesis
      using log before p \<open>0 < i_ttl i\<close>
      by (auto simp: world_inv_def single log' sorted_wrt_append fresh(2) state)
  qed
  then show "world_inv c (w\<lparr>w_fs := fs', w_running := us @ i' # vs, w_log := log'\<rparr>)"
    "r = Inr env \<Longrightarrow> \<exists>p \<in> set log'. pub_envelope p = env \<and>
      truncate_second clock < st_LastIssuedAt (pub_state p) + i_ttl (pub_by p)" by blast+
qed

lemma start_stored:
  assumes "world_inv c w" "NewIssuer c options xk xl xs (w_fs w) = (r, fs')"
  shows "file_store.always (stored (w_log w)) fs'" and "w_log w \<noteq> [] \<Longrightarrow> fs_dir fs' = Some (Directory, False)"
    and "r = Inr i \<Longrightarrow> follows (w_log w) (i_state i)"
proof -
  note W = assms(1) [unfolded world_inv_def]
  have "file_store.always (stored (w_log w)) fs' \<and> (w_log w \<noteq> [] \<longrightarrow> fs_dir fs' = Some (Directory, False)) \<and> (r = Inr i \<longrightarrow> follows (w_log w) (i_state i))"
  proof (cases "w_log w = []")
    case True
    then show ?thesis by (simp add: file_store.always_def stored_def follows_def)
  next
    case False
    have st: "\<exists>s. v = Inr (Some s) \<and> follows (w_log w) s" if "v \<in> store_possible (w_fs w)" for v
      using W that False by (auto simp: file_store.always_def stored_def)
    then have pol: "\<exists>s. v = Inr (Some s) \<and> st_PolicyVersion s \<noteq> 0" if "v \<in> store_possible (w_fs w)" for v
      using that follows_version(2) [OF _ False] W by blast
    have "store_inv (w_fs w)" using W by blast
    note new = NewIssuer_state [OF this assms(2) pol]
    show ?thesis
      using new(1,2) new(3) [of i] st W False by (fastforce simp: file_store.always_def)
  qed
  then show "file_store.always (stored (w_log w)) fs'" "w_log w \<noteq> [] \<Longrightarrow> fs_dir fs' = Some (Directory, False)"
    "r = Inr i \<Longrightarrow> follows (w_log w) (i_state i)" by blast+
qed

lemma step_inv:
  assumes "issuer_step c w w'" and "crypto_ok c" and "world_inv c w"
  shows "world_inv c w'"
  using assms
proof cases
  case (start options xk xl xs i fs')
  note W = assms(3) [unfolded world_inv_def]
  have inv: "store_inv (w_fs w)" using W by blast
  note lock = NewIssuer_cases [OF inv start(2), simplified] and ok = NewIssuer_ok [OF inv start(2)]
  have "w_running w = []" using W lock by blast
  moreover have "running_ok c (w_log w) i"
    using ok start_stored(3) [OF assms(3) start(2)] by (simp add: running_ok_def cache_ok_def)
  ultimately show ?thesis
    using W lock start_stored(1,2) [OF assms(3) start(2)] by (simp add: world_inv_def start(1))
next
  case (start_failed options xk xl xs e fs')
  note W = assms(3) [unfolded world_inv_def]
  show ?thesis
    using W NewIssuer_cases [OF conjunct1 [OF W] start_failed(2)] start_stored(1,2) [OF assms(3) start_failed(2)]
    by (simp add: world_inv_def start_failed(1))
next
  case (issue us i vs x catalogFile clock r i' fs')
  then show ?thesis using issue_inv(1) [OF assms(2,3) issue(2,3)] by simp
next
  case (close us i vs i' fs')
  then show ?thesis
    using assms(3)
    by (auto simp: world_inv_def running_ok_def issuer_ok_def Issuer_Close_def CloseProcessLock_def append_eq_Cons_conv
        store_inv_def store_possible_def file_store.always_def)
next
  case (kill us i vs)
  then show ?thesis
    using assms(3)
    by (auto simp: world_inv_def CloseProcessLock_def append_eq_Cons_conv store_inv_def store_possible_def
        file_store.always_def)
next
  case (power k)
  have inv: "store_inv (w_fs w)" "file_store.always (stored (w_log w)) (w_fs w)"
    using assms(3) unfolding world_inv_def by blast+
  then show ?thesis
    using assms(3) file_store.crash_inv [OF inv(1)] file_store.always_crash [OF inv] power_loss_inv(2) [OF inv(1)]
    by (simp add: world_inv_def power(1))
qed

lemma reachable_inv:
  assumes "crypto_ok c" "store_inv fs" "reachable c fs w"
  shows "world_inv c w"
  using assms(3) unfolding reachable_def
proof (induction rule: rtranclp_induct)
  case base
  show ?case using assms(2) by (simp add: world_inv_def file_store.always_def stored_def)
next
  case (step w w')
  then show ?case using step_inv assms(1) by blast
qed

lemma new_version_published:
  assumes "crypto_ok c" "world_inv c w" "w_running w = [i]"
    and "Issuer_Issue c x catalogFile clock i (w_fs w) = (r, i', fs')"
    and "st_LastVersion (i_state i') \<noteq> st_LastVersion (i_state i)"
  obtains p where "publications i catalogFile r i' = [p]" "pub_by p = i'" "LoadFile catalogFile = Inr (pub_catalog p)"
  using assms(4)
proof (cases rule: Issuer_Issue_cases)
  case (fresh env i1)
  note W = assms(2) [unfolded world_inv_def]
  have run: "issuer_ok c i" "follows (w_log w) (i_state i)" "cache_ok (w_log w) i"
    and log: "\<forall>p \<in> set (w_log w). published c p" "sorted_wrt (\<lambda>p q. istate_lt (pub_state p) (pub_state q)) (w_log w)"
    using W assms(3) by (auto simp: running_ok_def)
  obtain st where prep: "prepare c i (LoadFile catalogFile) (truncate_second clock) = Inr (env, st)" and i1: "i1 = i\<lparr>i_state := st\<rparr>"
    by (rule refresh_Inr [OF fresh(1)]) blast
  have i': "i' = i\<lparr>i_state := st, i_lastError := None, i_retryAt := zero_time, i_cached := env,
      i_cacheUntil := truncate_second clock + i_cacheFor i, i_validUntil := truncate_second clock + i_ttl i\<rparr>"
    by (simp add: fresh(3) i1)
  show thesis
    by (rule prepared_publication [OF assms(1) run(1) prep fresh_envelope [OF assms(1) run log prep] _ i'])
      (use that fresh(2) in auto)
qed (use assms(5) in simp_all)

subsection \<open>When a call publishes\<close>

lemma prepare_ok:
  assumes "loaded = Inr k" "CatalogDigest c k = Inr digest"
    and "Issue c k (st_LastVersion (i_state i) + 1) (i_keyPolicy i) (i_rootKey i) now (i_ttl i) (i_privateKey i) = Inr env"
    and "st_LastVersion (i_state i) \<noteq> 0 \<longrightarrow> st_LastVersion (i_state i) \<noteq> - 1 \<and>
      st_CatalogRevision (i_state i) \<le> cat_Revision k \<and>
      (st_CatalogRevision (i_state i) = cat_Revision k \<longrightarrow> st_CatalogSHA256 (i_state i) = digest) \<and>
      st_LastIssuedAt (i_state i) \<le> now"
  shows "prepare c i loaded now = Inr (env, nextState i k digest now)"
  using assms unfolding prepare_def by (auto simp: word_pos_iff not_less)

lemma prepare_valid:
  assumes "crypto_ok c" "issuer_ok c i" "prepare c i loaded now = Inr (env, st)" "truncate_second now = now"
  shows "validate st False = None"
proof -
  obtain k digest where k: "CatalogDigest c k = Inr digest" "st = nextState i k digest now"
    "Issue c k (st_LastVersion (i_state i) + 1) (i_keyPolicy i) (i_rootKey i) now (i_ttl i) (i_privateKey i) = Inr env"
    by (rule prepare_Inr [OF assms(3)]) blast
  have policy: "ValidateKeyPolicy c (i_keyPolicy i) (i_rootKey i) = Inr (i_policySHA i)"
    and "i_keyID i = KeyID c (public_of (i_privateKey i))"
    using assms(2) unfolding issuer_ok_def by blast+
  moreover obtain v g pk where g: "KeyPolicyGrant (i_keyPolicy i) (i_keyID i) v = Inr (g, pk)" "kg_Epoch g = i_keyEpoch i"
    using assms(2) unfolding issuer_ok_def by blast
  then have "i_keyEpoch i \<noteq> 0" using KeyPolicyGrant_key(3) [OF ValidateKeyPolicy_ok(2) [OF policy] g(1)] by simp
  moreover have "cat_Revision k \<noteq> 0" "\<not> is_zero now"
    using Validate_None(3,4) [OF Issue_Inr(5) [OF k(3)]] assms(4) by (simp_all add: issuedDocument_def)
  moreover have sha: "sha256_sum c x \<noteq> []" "length (sha256_sum c x) = 32" for x
    using crypto_okD(1) [OF assms(1), of x] by auto
  ultimately show ?thesis
    using prepare_state(4-6) [OF assms(1-3)] k(1) ValidateKeyPolicy_ok(5) [OF policy]
    by (simp add: validate_def k(2) nextState_def KeyID_def CatalogDigest_iff)
qed

lemma Save_no_faults:
  assumes "path \<noteq> []" "fs_dir fs = Some (Directory, False)" "map_option fi_kind (fs_file fs) \<noteq> Some Directory"
    and "validate st False = None" "time_in_range (st_LastIssuedAt st)"
  shows "\<exists>fs'. Save path no_faults fs st = (None, fs') \<and> fs_dir fs' = fs_dir fs \<and>
    map_option fi_kind (fs_file fs') \<noteq> Some Directory"
  using assms
  by (auto simp: Save_def MkdirAll_def checkDirectory_def replaceFile_def Let_def no_faults_def encode_state_def)

lemma Issuer_Issue_publishes:
  assumes "crypto_ok c" "issuer_ok c i" and prep: "prepare c i (LoadFile catalogFile) now = Inr (env, st)"
    and now: "now = truncate_second clock" "time_in_range now"
    and "\<not> (st_LastVersion (i_state i) \<noteq> 0 \<and> now < st_LastIssuedAt (i_state i))"
    and "\<not> (hasCached i \<and> now < i_cacheUntil i)" "\<not> now < i_retryAt i"
    and dir: "i_path i \<noteq> []" "fs_dir fs = Some (Directory, False)" "map_option fi_kind (fs_file fs) \<noteq> Some Directory"
  shows "\<exists>fs'. Issuer_Issue c no_faults catalogFile clock i fs =
      (Inr env, i\<lparr>i_state := st, i_lastError := None, i_retryAt := zero_time, i_cached := env,
        i_cacheUntil := now + i_cacheFor i, i_validUntil := now + i_ttl i\<rparr>, fs') \<and>
    Save (i_path i) no_faults fs st = (None, fs') \<and>
    fs_dir fs' = fs_dir fs \<and> map_option fi_kind (fs_file fs') \<noteq> Some Directory"
proof -
  have "st_LastIssuedAt st = now" by (rule prepare_Inr [OF prep]) (simp add: nextState_def)
  then obtain fs' where save: "Save (i_path i) no_faults fs st = (None, fs')"
    and fs': "fs_dir fs' = fs_dir fs" "map_option fi_kind (fs_file fs') \<noteq> Some Directory"
    using Save_no_faults [OF dir, of st] prepare_valid [OF assms(1-3)] now by auto
  have "refresh c no_faults catalogFile now i fs = (Inr env, i\<lparr>i_state := st\<rparr>, fs')"
    by (simp add: refresh_def prep save)
  moreover have "\<not> i_closed i" using assms(2) by (simp add: issuer_ok_def)
  ultimately show ?thesis
    using assms(6-8) fs' save unfolding Issuer_Issue_def Let_def now(1) [symmetric] by (auto simp: word_pos_iff)
qed

subsection \<open>A sample run\<close>

definition sample_options :: IssuerOptions where
  "sample_options = \<lparr>opt_StatePath = ''s'', opt_TTL = 10 * minute, opt_CacheFor = second,
     opt_PrivateKey = sample_key CHR ''a'', opt_RootKey = sample_root, opt_KeyPolicy = sample_policy\<rparr>"

definition sample_file :: "reader option" where
  "sample_file = Some (bytes_reader (print_json (enc_Catalog (sample_catalog 1))))"

definition sample_world :: world where
  "sample_world = \<lparr>w_fs = sample_fs, w_running = [], w_log = []\<rparr>"

lemma sample_load: "LoadFile sample_file = Inr (sample_catalog 1)"
proof -
  have "catalog_wf (sample_catalog 1)"
    using catalog_spec_wf [OF sample_catalog_spec sample_catalog_utf8, of 1] by (simp add: catalog_wf_def)
  then have "decodeStrict dec_Catalog zero_Catalog (print_json (enc_Catalog (sample_catalog 1))) = Inr (sample_catalog 1)"
    by (rule catalog_codec.decodeStrict_enc)
  moreover have "length (print_json (enc_Catalog (sample_catalog 1))) \<le> maxCatalogBytes"
    by (simp add: enc_Catalog_def sample_catalog_def enc_list_def enc_nodes_def enc_Node_def enc_DiscoveryEndpoint_def
        enc_Endpoint_def enc_string_def enc_uint_def enc_int_def dec_text.simps escape_ascii_def maxCatalogBytes_def)
  ultimately show ?thesis by (simp add: LoadFile_def sample_file_def)
qed

lemma sample_start:
  "\<exists>i fs'. NewIssuer sample_crypto sample_options no_faults no_faults no_faults sample_fs = (Inr i, fs') \<and>
     st_LastVersion (i_state i) = 0 \<and> \<not> hasCached i \<and> i_retryAt i = zero_time \<and> i_path i = ''s'' \<and>
     i_privateKey i = sample_key CHR ''a'' \<and> i_rootKey i = sample_root \<and> i_keyPolicy i = sample_policy \<and>
     i_ttl i = 10 * minute \<and> i_cacheFor i = second \<and> fs_dir fs' = Some (Directory, False) \<and> fs_file fs' = None"
proof -
  obtain d where "ValidateKeyPolicy sample_crypto sample_policy sample_root = Inr d"
    using sample_policy_valid by blast
  moreover have "AcquireProcessLock ''s'' no_faults sample_fs =
      (None, sample_fs\<lparr>fs_lock := Some \<lparr>fi_kind = Regular, fi_private = True, fi_data = [], fi_synced = False\<rparr>, fs_locked := True\<rparr>)"
    by (simp add: AcquireProcessLock_def MkdirAll_def checkDirectory_def Let_def sample_fs_def no_faults_def)
  moreover have "Load ''s'' no_faults (sample_fs\<lparr>fs_lock := l, fs_locked := b\<rparr>) = Inr None" for l b
    by (simp add: Load_def checkDirectory_def sample_fs_def no_faults_def)
  ultimately show ?thesis
    using sample_policy_grant [of 1]
    by (simp add: NewIssuer_def sample_options_def startLocked_def migrateLegacy_def checkDurable_def
        checkCurrentKey_def zero_State_def hasCached_def zero_Envelope_def sample_fs_def
        sample_key_def duration_defs)
qed

definition sample_issuer :: "Issuer \<Rightarrow> bool" where
  "sample_issuer i \<longleftrightarrow> issuer_ok sample_crypto i \<and> i_path i = ''s'' \<and> i_privateKey i = sample_key CHR ''a'' \<and>
     i_rootKey i = sample_root \<and> i_keyPolicy i = sample_policy \<and> i_ttl i = 10 * minute \<and> i_cacheFor i = second"

lemma sample_publish:
  assumes i: "sample_issuer i" "i_retryAt i = zero_time" and now: "now = 1000 * second \<or> now = 1001 * second"
    and prev: "st_LastVersion (i_state i) = 0 \<and> \<not> hasCached i \<or>
      st_LastVersion (i_state i) = 1 \<and> st_CatalogRevision (i_state i) = 1 \<and> now = 1001 * second \<and>
        CatalogDigest sample_crypto (sample_catalog 1) = Inr (st_CatalogSHA256 (i_state i)) \<and>
        st_LastIssuedAt (i_state i) = 1000 * second \<and> i_cacheUntil i = 1001 * second"
    and dir: "fs_dir fs = Some (Directory, False)" "map_option fi_kind (fs_file fs) \<noteq> Some Directory"
  shows "\<exists>env i' fs'. Issuer_Issue sample_crypto no_faults sample_file now i fs = (Inr env, i', fs') \<and>
    sample_issuer i' \<and> i_retryAt i' = zero_time \<and>
    st_LastVersion (i_state i') = st_LastVersion (i_state i) + 1 \<and> st_CatalogRevision (i_state i') = 1 \<and>
    CatalogDigest sample_crypto (sample_catalog 1) = Inr (st_CatalogSHA256 (i_state i')) \<and>
    st_LastIssuedAt (i_state i') = now \<and> i_cacheUntil i' = now + second \<and>
    fs_dir fs' = fs_dir fs \<and> map_option fi_kind (fs_file fs') \<noteq> Some Directory"
proof -
  obtain digest where digest: "CatalogDigest sample_crypto (sample_catalog 1) = Inr digest"
    using CatalogDigest_iff sample_catalog_spec by blast
  let ?v = "st_LastVersion (i_state i) + 1"
  have v: "0 < ?v" "?v \<le> 10" using prev by auto
  obtain env where env: "sample_issue ?v now = Inr env" using sample_issue_ok [OF v now] by blast
  have prep: "prepare sample_crypto i (LoadFile sample_file) now = Inr (env, nextState i (sample_catalog 1) digest now)"
  proof (rule prepare_ok [OF sample_load digest])
    show "Issue sample_crypto (sample_catalog 1) ?v (i_keyPolicy i) (i_rootKey i) now (i_ttl i) (i_privateKey i) = Inr env"
      using env i by (simp add: sample_issue_def sample_issuer_def)
  qed (use prev digest in \<open>auto simp: sample_catalog_def second_def\<close>)
  have t: "now = truncate_second now" "time_in_range now" "\<not> now < zero_time"
    using now sample_times by (auto simp: truncate_second_def duration_defs zero_time_def)
  have ok: "issuer_ok sample_crypto i" "i_path i \<noteq> []" using i by (auto simp: sample_issuer_def)
  have "\<not> (st_LastVersion (i_state i) \<noteq> 0 \<and> now < st_LastIssuedAt (i_state i))"
    "\<not> (hasCached i \<and> now < i_cacheUntil i)" "\<not> now < i_retryAt i"
    using prev t(3) i(2) by (auto simp: second_def)
  from Issuer_Issue_publishes [OF sample_crypto_ok ok(1) prep t(1,2) this ok(2) dir]
  obtain fs' where "Issuer_Issue sample_crypto no_faults sample_file now i fs =
      (Inr env, i\<lparr>i_state := nextState i (sample_catalog 1) digest now, i_lastError := None, i_retryAt := zero_time,
        i_cached := env, i_cacheUntil := now + i_cacheFor i, i_validUntil := now + i_ttl i\<rparr>, fs')"
    and "fs_dir fs' = fs_dir fs" "map_option fi_kind (fs_file fs') \<noteq> Some Directory" by blast
  then show ?thesis
    using digest prepare_state(3) [OF sample_crypto_ok ok(1) prep] i
    by (intro exI conjI) (assumption | simp add: sample_issuer_def nextState_def sample_catalog_def)+
qed

lemma sample_run:
  "\<exists>w i env i' fs' w'. reachable sample_crypto sample_fs w \<and> w_running w = [i] \<and>
     Issuer_Issue sample_crypto no_faults sample_file (1001 * second) i (w_fs w) = (Inr env, i', fs') \<and>
     reachable sample_crypto sample_fs w' \<and> w_running w' = [i'] \<and> length (w_log w') = 2 \<and>
     (\<forall>p \<in> set (w_log w'). pub_catalog p = sample_catalog 1 \<and> sample_issuer (pub_by p))"
proof -
  let ?step = "issuer_step sample_crypto"
  obtain i fs1 where start: "NewIssuer sample_crypto sample_options no_faults no_faults no_faults sample_fs = (Inr i, fs1)"
    and i: "st_LastVersion (i_state i) = 0" "\<not> hasCached i" "i_retryAt i = zero_time" "i_path i = ''s''"
      "i_privateKey i = sample_key CHR ''a''" "i_rootKey i = sample_root" "i_keyPolicy i = sample_policy"
      "i_ttl i = 10 * minute" "i_cacheFor i = second"
    and dir1: "fs_dir fs1 = Some (Directory, False)" "map_option fi_kind (fs_file fs1) \<noteq> Some Directory"
    using sample_start by auto
  have inv: "store_inv sample_fs" by (simp add: store_inv_def sample_fs_def)
  have si: "sample_issuer i" using NewIssuer_ok(1) [OF inv start] i by (simp add: sample_issuer_def)
  let ?w0 = "\<lparr>w_fs = sample_fs, w_running = [], w_log = []\<rparr>"
  let ?w1 = "?w0\<lparr>w_fs := fs1, w_running := [i]\<rparr>"
  have 1: "?step ?w0 ?w1" using issuer_step.start [of sample_crypto _ _ _ _ ?w0] start by simp
  obtain env i1 fs2 where issue1: "Issuer_Issue sample_crypto no_faults sample_file (1000 * second) i fs1 = (Inr env, i1, fs2)"
    and i1: "sample_issuer i1" "i_retryAt i1 = zero_time" "st_LastVersion (i_state i1) = st_LastVersion (i_state i) + 1"
      "st_CatalogRevision (i_state i1) = 1" "CatalogDigest sample_crypto (sample_catalog 1) = Inr (st_CatalogSHA256 (i_state i1))"
      "st_LastIssuedAt (i_state i1) = 1000 * second" "i_cacheUntil i1 = 1000 * second + second"
    and dir2: "fs_dir fs2 = fs_dir fs1" "map_option fi_kind (fs_file fs2) \<noteq> Some Directory"
    using sample_publish [OF si i(3) _ _ dir1, of "1000 * second"] i(1,2) by auto
  let ?log1 = "publications i sample_file (Inr env) i1"
  let ?w2 = "?w1\<lparr>w_fs := fs2, w_running := [i1], w_log := ?log1\<rparr>"
  have 2: "?step ?w1 ?w2" using issuer_step.issue [of ?w1 "[]" i "[]"] issue1 by simp
  have prev: "st_LastVersion (i_state i1) = 0 \<and> \<not> hasCached i1 \<or>
      st_LastVersion (i_state i1) = 1 \<and> st_CatalogRevision (i_state i1) = 1 \<and> 1001 * second = 1001 * second \<and>
        CatalogDigest sample_crypto (sample_catalog 1) = Inr (st_CatalogSHA256 (i_state i1)) \<and>
        st_LastIssuedAt (i_state i1) = 1000 * second \<and> i_cacheUntil i1 = 1001 * second"
    using i1 i(1) by (simp add: second_def)
  obtain env' i2 fs3 where issue2: "Issuer_Issue sample_crypto no_faults sample_file (1001 * second) i1 fs2 = (Inr env', i2, fs3)"
    and i2: "st_LastVersion (i_state i2) = st_LastVersion (i_state i1) + 1" "sample_issuer i2"
    using sample_publish [OF i1(1,2) _ prev, of fs2] dir1 dir2 by auto
  have s2: "?step\<^sup>*\<^sup>* ?w0 ?w2" using r_into_rtranclp [of ?step, OF 1] 2 by (rule rtranclp.rtrancl_into_rtrancl)
  note r2 = s2 [folded reachable_def] and r1 = r_into_rtranclp [of ?step, OF 1, folded reachable_def]
  have new: "st_LastVersion (i_state i1) \<noteq> st_LastVersion (i_state i)" "st_LastVersion (i_state i2) \<noteq> st_LastVersion (i_state i1)"
    using i1(3) i2(1) by simp_all
  have w1: "w_running ?w1 = [i]" "Issuer_Issue sample_crypto no_faults sample_file (1000 * second) i (w_fs ?w1) = (Inr env, i1, fs2)"
    and w2: "w_running ?w2 = [i1]" "Issuer_Issue sample_crypto no_faults sample_file (1001 * second) i1 (w_fs ?w2) = (Inr env', i2, fs3)"
    using issue1 issue2 by simp_all
  obtain p where p: "?log1 = [p]" "pub_by p = i1" "pub_catalog p = sample_catalog 1"
    by (rule new_version_published [OF sample_crypto_ok reachable_inv [OF sample_crypto_ok inv r1] w1 new(1)])
      (use that in \<open>auto simp: sample_load\<close>)
  obtain q where q: "publications i1 sample_file (Inr env') i2 = [q]" "pub_by q = i2" "pub_catalog q = sample_catalog 1"
    by (rule new_version_published [OF sample_crypto_ok reachable_inv [OF sample_crypto_ok inv r2] w2 new(2)])
      (use that in \<open>auto simp: sample_load\<close>)
  let ?w3 = "?w2\<lparr>w_fs := fs3, w_running := [i2], w_log := [p, q]\<rparr>"
  have 3: "?step ?w2 ?w3" using issuer_step.issue [of ?w2 "[]" i1 "[]" sample_crypto no_faults sample_file _ "Inr env'" i2 fs3] issue2 p(1) q(1)
    by simp
  have len: "length (w_log ?w3) = 2" by simp
  have log: "\<forall>p \<in> set (w_log ?w3). pub_catalog p = sample_catalog 1 \<and> sample_issuer (pub_by p)"
    by (simp add: p q i1(1) i2(2))
  have s3: "?step\<^sup>*\<^sup>* ?w0 ?w3" using s2 3 by (rule rtranclp.rtrancl_into_rtrancl)
  note r3 = s3 [folded reachable_def]
  have "w_running ?w2 = [i1]" "w_fs ?w2 = fs2" "w_running ?w3 = [i2]" by simp_all
  with r2 r3 issue2 len log show ?thesis by metis
qed

subsection \<open>Properties\<close>

lemma logged_durable:
  assumes "world_inv c w" "p \<in> set (w_log w)" "path \<noteq> []"
  shows "\<exists>st. Load path no_faults (w_fs w) = Inr (Some st) \<and> st_LastVersion (pub_state p) \<le> st_LastVersion st"
    and "\<exists>st. Load path no_faults (power_loss k (w_fs w)) = Inr (Some st) \<and> st_LastVersion (pub_state p) \<le> st_LastVersion st"
proof -
  note W = assms(1) [unfolded world_inv_def]
  have inv: "store_inv (w_fs w)" and dir: "fs_dir (w_fs w) = Some (Directory, False)"
    and st: "v \<in> store_possible (w_fs w) \<Longrightarrow> \<exists>s. v = Inr (Some s) \<and> istate_le (pub_state (last (w_log w))) s" for v
    using W assms(2) by (auto simp: file_store.always_def stored_def follows_def)
  obtain log q where log: "w_log w = log @ [q]" using assms(2) by (cases "w_log w" rule: rev_cases) auto
  then have "st_LastVersion (pub_state p) \<le> st_LastVersion (pub_state q)"
    using W assms(2) by (auto simp: sorted_wrt_append istate_lt_def)
  then have le: "istate_le (pub_state q) s \<Longrightarrow> st_LastVersion (pub_state p) \<le> st_LastVersion s" for s
    by (auto simp: istate_le_def istate_lt_def)
  show "\<exists>st. Load path no_faults (w_fs w) = Inr (Some st) \<and> st_LastVersion (pub_state p) \<le> st_LastVersion st"
    using st [OF Load_no_faults(2) [OF assms(3) dir]] le by (auto simp: log)
  have "Load path no_faults (power_loss k (w_fs w)) \<in> store_possible (w_fs w)"
    using Load_no_faults(2) [OF assms(3), of "power_loss k (w_fs w)"] power_loss_inv(2) [OF inv] dir
      file_store.crash_possible [OF inv] by auto
  from st [OF this] le
  show "\<exists>st. Load path no_faults (power_loss k (w_fs w)) = Inr (Some st) \<and> st_LastVersion (pub_state p) \<le> st_LastVersion st"
    by (auto simp: log)
qed

lemma failed_refresh:
  assumes "refresh c x catalogFile (truncate_second clock) i fs = (Inl e, i1, fs1)" "\<not> i_closed i"
    and "\<not> (st_LastVersion (i_state i) > 0 \<and> truncate_second clock < st_LastIssuedAt (i_state i))"
    and "\<not> (hasCached i \<and> truncate_second clock < i_cacheUntil i)"
    and "truncate_second clock < i_retryAt i \<longrightarrow> i_lastError i = None"
  defines "i2 \<equiv> i\<lparr>i_lastError := Some e, i_retryAt := truncate_second clock + minDuration (5 * second) (i_cacheFor i)\<rparr>"
  shows "Issuer_Issue c x catalogFile clock i fs =
    (if hasCached i \<and> truncate_second clock < i_validUntil i
     then (Inr (i_cached i), i2\<lparr>i_cacheUntil := minTime (i_retryAt i2) (i_validUntil i)\<rparr>, fs1)
     else (Inl e, i2, fs1))"
proof -
  have "i1 = i" using assms(1) unfolding refresh_def by (auto split: sum.split_asm prod.split_asm option.split_asm)
  moreover have "(if truncate_second clock < i_retryAt i then i_lastError i else None) = None" using assms(5) by simp
  moreover have "hasCached i2 = hasCached i" "i_cached i2 = i_cached i" "i_validUntil i2 = i_validUntil i"
    by (simp_all add: i2_def hasCached_def)
  ultimately show ?thesis
    unfolding Issuer_Issue_def Let_def
    by (simp only: assms(1-4) if_False option.case prod.case sum.case i2_def [symmetric])
qed

lemma quiet_call:
  assumes "\<not> i_closed i" "i_lastError i = Some e" "truncate_second later < i_retryAt i"
    and "\<not> (st_LastVersion (i_state i) > 0 \<and> truncate_second later < st_LastIssuedAt (i_state i))"
    and "hasCached i \<longrightarrow> i_cacheUntil i \<le> i_validUntil i"
  shows "Issuer_Issue c x catalogFile later i fs =
    (if hasCached i \<and> truncate_second later < i_validUntil i then Inr (i_cached i) else Inl e, i, fs)"
  using assms by (auto simp: Issuer_Issue_def Let_def)

text \<open>
  C16. Whatever starts, failures, kills and power losses happen after the state directory was
  made durable, two manifests never share a version: over all envelopes that calls of \<open>Issue\<close>
  returned, other than a repetition of the one the issuer held, the versions strictly increase
  in the order of the calls, and policy version, catalog revision, key epoch and issuing time
  never go back; each of them is the signature \<open>Issue\<close> makes for the version, the time and the
  policy of the state the issuer has after that call.
\<close>
theorem issuer_versions_increase:
  assumes "crypto_ok c" and "store_inv fs" and "reachable c fs w"
  shows "sorted_wrt (\<lambda>p q. istate_lt (pub_state p) (pub_state q)) (w_log w) \<and>
    (\<forall>p \<in> set (w_log w). published c p) \<and> distinct (map (\<lambda>p. st_LastVersion (pub_state p)) (w_log w))"
proof -
  have inv: "sorted_wrt (\<lambda>p q. istate_lt (pub_state p) (pub_state q)) (w_log w)" "\<forall>p \<in> set (w_log w). published c p"
    using reachable_inv [OF assms] unfolding world_inv_def by blast+
  have "sorted_wrt (<) (map (\<lambda>p. st_LastVersion (pub_state p)) (w_log w))"
    unfolding sorted_wrt_map by (rule sorted_wrt_mono_rel [OF _ inv(1)]) (simp add: istate_lt_def)
  with inv show ?thesis by (simp add: strict_sorted_iff)
qed

theorem issuer_versions_increase_witness:
  "\<exists>w :: world. length (w_log w) = 2 \<and> sorted_wrt (\<lambda>p q. istate_lt (pub_state p) (pub_state q)) (w_log w) \<and>
    (\<forall>p \<in> set (w_log w). published sample_crypto p)"
proof -
  obtain w where w: "reachable sample_crypto sample_fs w" "length (w_log w) = 2" using sample_run by blast
  have "store_inv sample_fs" by (simp add: store_inv_def sample_fs_def)
  from issuer_versions_increase [OF sample_crypto_ok this w(1)] w(2) show ?thesis by blast
qed

text \<open>
  C17. At most one issuer runs on a state path: while one is running every start is refused,
  and a refused start leaves the lock as it found it.
\<close>
theorem issuer_single:
  assumes "crypto_ok c" and "store_inv fs" and "reachable c fs w"
    and "NewIssuer c options xk xl xs (w_fs w) = (r, fs')"
  shows "length (w_running w) \<le> 1 \<and> (w_running w \<noteq> [] \<longrightarrow> (\<exists>e. r = Inl e)) \<and>
    ((\<exists>e. r = Inl e) \<longrightarrow> fs_locked fs' = fs_locked (w_fs w))"
proof -
  note W = reachable_inv [OF assms(1-3), unfolded world_inv_def]
  show ?thesis using W NewIssuer_cases [OF conjunct1 [OF W] assms(4)] by (cases r) auto
qed

theorem issuer_single_witness:
  "\<exists>(w :: world) i e fs'. w_running w = [i] \<and>
    NewIssuer sample_crypto sample_options no_faults no_faults no_faults (w_fs w) = (Inl e, fs') \<and> fs_locked fs'"
proof -
  obtain w i where w: "reachable sample_crypto sample_fs w" "w_running w = [i]" using sample_run by blast
  obtain r fs' where new: "NewIssuer sample_crypto sample_options no_faults no_faults no_faults (w_fs w) = (r, fs')" by force
  have inv: "store_inv sample_fs" by (simp add: store_inv_def sample_fs_def)
  have "fs_locked (w_fs w)"
    using reachable_inv [OF sample_crypto_ok inv w(1)] w(2) by (simp add: world_inv_def)
  moreover obtain e where "r = Inl e" "fs_locked fs' = fs_locked (w_fs w)"
    using issuer_single [OF sample_crypto_ok inv w(1) new] w(2) by auto
  ultimately show ?thesis using w(2) new by blast
qed

text \<open>
  C18. Every envelope a running issuer returns, fresh or cached, during failures or not, is one
  it published, it has not expired at the second of the call, and its version is durable: from
  the moment of the return a load, also after a power loss, succeeds with a state whose version
  is not smaller. (The state directory must have been durable at the beginning.)
\<close>
theorem issuer_serves_published:
  assumes "crypto_ok c" and "store_inv fs" and "reachable c fs w" and "w_running w = us @ i # vs"
    and "Issuer_Issue c x catalogFile clock i (w_fs w) = (Inr env, i', fs')"
  shows "\<exists>p \<in> set (w_log w @ publications i catalogFile (Inr env) i'). pub_envelope p = env \<and> published c p \<and>
    truncate_second clock < st_LastIssuedAt (pub_state p) + i_ttl (pub_by p) \<and>
    (\<exists>st. Load (i_path i) no_faults fs' = Inr (Some st) \<and> st_LastVersion (pub_state p) \<le> st_LastVersion st) \<and>
    (\<forall>k. \<exists>st. Load (i_path i) no_faults (power_loss k fs') = Inr (Some st) \<and>
      st_LastVersion (pub_state p) \<le> st_LastVersion st)"
proof -
  let ?log = "w_log w @ publications i catalogFile (Inr env) i'"
  note inv = reachable_inv [OF assms(1-3)] and after = issue_inv [OF assms(1) reachable_inv [OF assms(1-3)] assms(4,5)]
  have "\<forall>p \<in> set ?log. published c p" using after(1) by (simp add: world_inv_def)
  moreover obtain p where p: "p \<in> set ?log" "pub_envelope p = env"
    "truncate_second clock < st_LastIssuedAt (pub_state p) + i_ttl (pub_by p)"
    using after(2) [OF refl] by blast
  moreover have path: "i_path i \<noteq> []"
    using inv assms(4) by (auto simp: world_inv_def running_ok_def append_eq_Cons_conv)
  moreover have "\<exists>st. Load (i_path i) no_faults fs' = Inr (Some st) \<and> st_LastVersion (pub_state p) \<le> st_LastVersion st"
    using logged_durable(1) [OF after(1) _ path, of p] p(1) by simp
  moreover have "\<exists>st. Load (i_path i) no_faults (power_loss k fs') = Inr (Some st) \<and>
      st_LastVersion (pub_state p) \<le> st_LastVersion st" for k
    using logged_durable(2) [OF after(1) _ path, of p k] p(1) by simp
  ultimately show ?thesis by blast
qed

theorem issuer_serves_published_witness:
  "\<exists>(w :: world) i env i' fs' st. Issuer_Issue sample_crypto no_faults sample_file (1001 * second) i (w_fs w) = (Inr env, i', fs') \<and>
    (\<exists>p \<in> set (w_log w @ publications i sample_file (Inr env) i'). pub_envelope p = env \<and> published sample_crypto p \<and>
      st_LastVersion (pub_state p) \<le> st_LastVersion st) \<and>
    Load (i_path i) no_faults (power_loss \<lparr>o_flushed = False, o_data = []\<rparr> fs') = Inr (Some st)"
proof -
  obtain w i env i' fs' where w: "reachable sample_crypto sample_fs w" "w_running w = [i]"
    "Issuer_Issue sample_crypto no_faults sample_file (1001 * second) i (w_fs w) = (Inr env, i', fs')"
    using sample_run by blast
  have "store_inv sample_fs" by (simp add: store_inv_def sample_fs_def)
  from issuer_serves_published [OF sample_crypto_ok this w(1) _ w(3), of "[]" "[]"] w show ?thesis
    by (metis append_Nil)
qed

text \<open>
  C19. A failed refresh is remembered, whether its call returned the error or a cached envelope
  that had not expired: for the shorter of five seconds and the cache period every further call
  leaves the issuer and the storage alone and answers, whatever the catalog file and the system
  calls would give by then, with the cached envelope while it is valid and with the same error
  otherwise.
\<close>
theorem issuer_failure_cached:
  assumes "\<not> i_closed i" and "hasCached i \<longrightarrow> i_cacheUntil i \<le> i_validUntil i"
    and "refresh c x catalogFile (truncate_second clock) i fs = (Inl e, i1, fs1)"
    and "\<not> (st_LastVersion (i_state i) > 0 \<and> truncate_second clock < st_LastIssuedAt (i_state i))"
    and "\<not> (hasCached i \<and> truncate_second clock < i_cacheUntil i)"
    and "truncate_second clock < i_retryAt i \<longrightarrow> i_lastError i = None"
    and "Issuer_Issue c x catalogFile clock i fs = (r, i', fs')"
    and "truncate_second clock \<le> truncate_second later"
    and "truncate_second later < truncate_second clock + min (5 * second) (i_cacheFor i)"
  shows "r = (if hasCached i \<and> truncate_second clock < i_validUntil i then Inr (i_cached i) else Inl e) \<and>
    Issuer_Issue c x2 catalogFile2 later i' fs2 =
      (if hasCached i \<and> truncate_second later < i_validUntil i then Inr (i_cached i) else Inl e, i', fs2)"
proof -
  note run = failed_refresh [OF assms(3,1,4,5,6), unfolded assms(7)]
  have i': "i_lastError i' = Some e" "i_retryAt i' = truncate_second clock + minDuration (5 * second) (i_cacheFor i)"
    "i_state i' = i_state i" "hasCached i' = hasCached i" "i_cached i' = i_cached i" "i_validUntil i' = i_validUntil i"
    "i_closed i' = i_closed i" "hasCached i' \<longrightarrow> i_cacheUntil i' \<le> i_validUntil i'"
    using run assms(2) by (auto simp: hasCached_def minTime_def split: if_split_asm)
  have "truncate_second later < i_retryAt i'" using assms(9) by (simp add: i'(2) minDuration_def min_def split: if_splits)
  from quiet_call [OF _ i'(1) this _ i'(8)] assms(1,4,8) i'(3-7)
  have "Issuer_Issue c x2 catalogFile2 later i' fs2 =
      (if hasCached i \<and> truncate_second later < i_validUntil i then Inr (i_cached i) else Inl e, i', fs2)"
    by force
  moreover have "r = (if hasCached i \<and> truncate_second clock < i_validUntil i then Inr (i_cached i) else Inl e)"
    using run by (auto split: if_split_asm)
  ultimately show ?thesis by blast
qed

theorem issuer_failure_cached_witness:
  "\<exists>i i' fs. Issuer_Issue sample_crypto no_faults None (1000 * second) i fs = (Inl (LoadCatalogFailed OpenCatalog), i', fs) \<and>
    Issuer_Issue sample_crypto no_faults sample_file (1000 * second) i' sample_fs =
      (Inl (LoadCatalogFailed OpenCatalog), i', sample_fs)"
proof -
  obtain i fs where start: "NewIssuer sample_crypto sample_options no_faults no_faults no_faults sample_fs = (Inr i, fs)"
    and i: "st_LastVersion (i_state i) = 0" "\<not> hasCached i" "i_retryAt i = zero_time" "i_cacheFor i = second"
    using sample_start by auto
  have "store_inv sample_fs" by (simp add: store_inv_def sample_fs_def)
  then have open_i: "\<not> i_closed i" using NewIssuer_ok(1) [OF _ start] by (simp add: issuer_ok_def)
  let ?e = "LoadCatalogFailed OpenCatalog"
  let ?i' = "i\<lparr>i_lastError := Some ?e, i_retryAt := 1000 * second + minDuration (5 * second) (i_cacheFor i)\<rparr>"
  have t: "truncate_second (1000 * second) = 1000 * second" "\<not> 1000 * second < zero_time"
    by (simp_all add: truncate_second_def second_def zero_time_def)
  have refresh: "refresh sample_crypto no_faults None (truncate_second (1000 * second)) i fs = (Inl ?e, i, fs)"
    by (simp add: refresh_def prepare_def LoadFile_def)
  have run: "Issuer_Issue sample_crypto no_faults None (1000 * second) i fs = (Inl ?e, ?i', fs)"
    using open_i i refresh by (simp add: Issuer_Issue_def Let_def t hasCached_def)
  have "Issuer_Issue sample_crypto no_faults sample_file (1000 * second) ?i' sample_fs = (Inl ?e, ?i', sample_fs)"
    using issuer_failure_cached [OF open_i _ refresh _ _ _ run, of "1000 * second" no_faults sample_file sample_fs] i t
    by (simp add: second_def)
  with run show ?thesis by blast
qed

text \<open>
  C20. The issuer recovers: a call past the retry time and the cached period, with a catalog that
  is not older than the durable one, a key and a policy for which \<open>Issue\<close> succeeds, a clock
  that is not behind and a working file system, publishes the next version, whatever errors
  preceded it, and a later start finds it.
\<close>
theorem issuer_recovers:
  assumes "crypto_ok c" and "issuer_ok c i" and "LoadFile catalogFile = Inr k"
    and "CatalogDigest c k = Inr digest" and "now = truncate_second clock" and "time_in_range now"
    and "Issue c k (st_LastVersion (i_state i) + 1) (i_keyPolicy i) (i_rootKey i) now (i_ttl i) (i_privateKey i) = Inr env"
    and "st_LastVersion (i_state i) \<noteq> 0 \<longrightarrow> st_LastVersion (i_state i) \<noteq> - 1 \<and>
      st_CatalogRevision (i_state i) \<le> cat_Revision k \<and>
      (st_CatalogRevision (i_state i) = cat_Revision k \<longrightarrow> st_CatalogSHA256 (i_state i) = digest) \<and>
      st_LastIssuedAt (i_state i) \<le> now"
    and "\<not> (hasCached i \<and> now < i_cacheUntil i)" and "\<not> now < i_retryAt i" and "store_inv fs"
    and "i_path i \<noteq> []" and "fs_dir fs = Some (Directory, False)" and "map_option fi_kind (fs_file fs) \<noteq> Some Directory"
  shows "\<exists>i' fs'. Issuer_Issue c no_faults catalogFile clock i fs = (Inr env, i', fs') \<and>
    st_LastVersion (i_state i') = st_LastVersion (i_state i) + 1 \<and>
    Load (i_path i) no_faults (power_loss lost fs') = Inr (Some (i_state i'))"
proof -
  note prep = prepare_ok [OF assms(3,4,7,8)]
  have "\<not> (st_LastVersion (i_state i) \<noteq> 0 \<and> now < st_LastIssuedAt (i_state i))" using assms(8) by auto
  from Issuer_Issue_publishes [OF assms(1,2) prep assms(5,6) this assms(9,10,12,13,14)]
  obtain fs' where run: "Issuer_Issue c no_faults catalogFile clock i fs =
      (Inr env, i\<lparr>i_state := nextState i k digest now, i_lastError := None, i_retryAt := zero_time, i_cached := env,
        i_cacheUntil := now + i_cacheFor i, i_validUntil := now + i_ttl i\<rparr>, fs')"
    and save: "Save (i_path i) no_faults fs (nextState i k digest now) = (None, fs')" by blast
  have "Load (i_path i) no_faults (power_loss lost fs') = Inr (Some (nextState i k digest now))"
    by (rule Save_Load(2) [OF assms(11) prepare_state(1) [OF assms(1,2) prep] save])
  with run prepare_state(4) [OF assms(1,2) prep] show ?thesis by simp
qed

theorem issuer_recovers_witness:
  "\<exists>i fs env i' fs'. Issuer_Issue sample_crypto no_faults sample_file (1000 * second) i fs = (Inr env, i', fs') \<and>
    st_LastVersion (i_state i') = 1 \<and> Load ''s'' no_faults (power_loss \<lparr>o_flushed = False, o_data = []\<rparr> fs') = Inr (Some (i_state i'))"
proof -
  obtain i fs where start: "NewIssuer sample_crypto sample_options no_faults no_faults no_faults sample_fs = (Inr i, fs)"
    and i: "st_LastVersion (i_state i) = 0" "\<not> hasCached i" "i_retryAt i = zero_time" "i_path i = ''s''"
      "i_privateKey i = sample_key CHR ''a''" "i_rootKey i = sample_root" "i_keyPolicy i = sample_policy"
      "i_ttl i = 10 * minute"
    and dir: "fs_dir fs = Some (Directory, False)" "fs_file fs = None"
    using sample_start by auto
  have inv: "store_inv sample_fs" by (simp add: store_inv_def sample_fs_def)
  obtain digest where digest: "CatalogDigest sample_crypto (sample_catalog 1) = Inr digest"
    using CatalogDigest_iff sample_catalog_spec by blast
  obtain env where "sample_issue 1 (1000 * second) = Inr env" using sample_issue_ok [of 1 "1000 * second"] by auto
  then have env: "Issue sample_crypto (sample_catalog 1) (st_LastVersion (i_state i) + 1) (i_keyPolicy i) (i_rootKey i)
      (1000 * second) (i_ttl i) (i_privateKey i) = Inr env"
    using i by (simp add: sample_issue_def)
  have t: "1000 * second = truncate_second (1000 * second)" "\<not> 1000 * second < zero_time"
    by (simp_all add: truncate_second_def second_def zero_time_def)
  have "store_inv fs" using NewIssuer_cases [OF inv start] by simp
  from issuer_recovers [OF sample_crypto_ok NewIssuer_ok(1) [OF inv start] sample_load digest t(1) sample_times(1) env
      _ _ _ this, of "\<lparr>o_flushed = False, o_data = []\<rparr>"] i t(2) dir
  obtain i' fs' where "Issuer_Issue sample_crypto no_faults sample_file (1000 * second) i fs = (Inr env, i', fs')"
    "st_LastVersion (i_state i') = 1" "Load ''s'' no_faults (power_loss \<lparr>o_flushed = False, o_data = []\<rparr> fs') = Inr (Some (i_state i'))"
    by auto
  then show ?thesis by blast
qed

end
