(* ===== verification/Discovery.thy ===== *)
theory Discovery
  imports ManifestVerify
begin

text \<open>
  \<open>internal/discovery/client.go\<close>: fetching a manifest from a list of mirrors, one after the
  other. The network, the clock and two library functions that depend on Unicode and MIME tables
  are inputs: an exchange gives, for one attempt, the time left before the overall deadline, the
  clock of the verification, what the HTTP client returned, and whether the overall context had
  ended afterwards.
\<close>

subsection \<open>Data\<close>

record response =
  rsp_URL :: "(string \<times> string) option"
  rsp_StatusCode :: int
  rsp_ContentType :: string
  rsp_Body :: reader

datatype outcome = CreateFailed | RequestFailed | Responded response

record exchange =
  x_until :: duration
  x_now :: time
  x_outcome :: outcome
  x_ended :: bool

record library =
  EqualFold :: "string \<Rightarrow> string \<Rightarrow> bool"
  ParseMediaType :: "string \<Rightarrow> string option"

record Client =
  cl_RootKey :: bytes
  cl_MaxAttempts :: int
  cl_AttemptTimeout :: duration
  cl_OverallTimeout :: duration

record Result =
  res_Document :: Document
  res_Trusted :: TrustedState
  res_SourceID :: string

datatype one_error =
    SourceNotHTTPS
  | CreateRequest
  | RequestManifest
  | OriginChanged
  | UnexpectedStatus int
  | UnexpectedContentType string
  | OneEnvelope envelope_error
  | OneVerify verify_error

datatype fetch_error =
    RootKeyRequired
  | SourceCount
  | MaxAttemptsRange
  | AttemptTimeoutRange
  | OverallTimeoutRange
  | SourceIDInvalid string
  | SourcePriorityRange string
  | SourceDuplicate string
  | SourceInvalid string one_error
  | NoSources
  | AllFailed "(string \<times> one_error) list"

definition defaultAttemptTimeout :: duration where "defaultAttemptTimeout = 12 * second"
definition defaultOverallTimeout :: duration where "defaultOverallTimeout = 60 * second"

subsection \<open>One attempt\<close>

definition validateSource :: "DiscoveryEndpoint \<Rightarrow> one_error + url" where
  "validateSource source =
    (case ParseRequestURI (disc_URL source) of
       None \<Rightarrow> Inl SourceNotHTTPS
     | Some parsed \<Rightarrow>
         if u_Scheme parsed \<noteq> ''https'' \<or> u_Host parsed = [] \<or> u_User parsed \<noteq> None \<or> u_RawQuery parsed \<noteq> [] \<or>
           u_Fragment parsed \<noteq> []
         then Inl SourceNotHTTPS else Inr parsed)"

text \<open>What \<open>fetchOne\<close> does with a response.\<close>

definition readResponse ::
  "crypto \<Rightarrow> library \<Rightarrow> bytes \<Rightarrow> url \<Rightarrow> response \<Rightarrow> time \<Rightarrow> TrustedState \<Rightarrow>
   one_error + (Document \<times> TrustedState)" where
  "readResponse c lib rootKey parsed response now trusted =
    (if (case rsp_URL response of
           None \<Rightarrow> True
         | Some (scheme, host) \<Rightarrow> scheme \<noteq> ''https'' \<or> \<not> EqualFold lib host (u_Host parsed))
     then Inl OriginChanged
     else if rsp_StatusCode response \<noteq> 200 then Inl (UnexpectedStatus (rsp_StatusCode response))
     else if (case ParseMediaType lib (rsp_ContentType response) of
           None \<Rightarrow> True
         | Some mediaType \<Rightarrow> \<not> EqualFold lib mediaType ''application/json'')
     then Inl (UnexpectedContentType (rsp_ContentType response))
     else case DecodeEnvelope (rsp_Body response) of
       Inl e \<Rightarrow> Inl (OneEnvelope e)
     | Inr envelope \<Rightarrow>
         (case Verify c envelope rootKey now trusted of
            (Inl e, _) \<Rightarrow> Inl (OneVerify e)
          | (Inr document, nextState) \<Rightarrow> Inr (document, nextState)))"

definition fetchOne ::
  "crypto \<Rightarrow> library \<Rightarrow> bytes \<Rightarrow> DiscoveryEndpoint \<Rightarrow> outcome \<Rightarrow> time \<Rightarrow> TrustedState \<Rightarrow>
   one_error + (Document \<times> TrustedState)" where
  "fetchOne c lib rootKey source oc now trusted =
    (case validateSource source of
       Inl e \<Rightarrow> Inl e
     | Inr parsed \<Rightarrow>
         (case oc of
            CreateFailed \<Rightarrow> Inl CreateRequest
          | RequestFailed \<Rightarrow> Inl RequestManifest
          | Responded response \<Rightarrow> readResponse c lib rootKey parsed response now trusted))"

subsection \<open>Fetch\<close>

fun checkSources :: "string list \<Rightarrow> DiscoveryEndpoint list \<Rightarrow> fetch_error option" where
  "checkSources seenIDs [] = None"
| "checkSources seenIDs (source # rest) =
    (if \<not> match_string idPattern (disc_ID source) then Some (SourceIDInvalid (disc_ID source))
     else if disc_Priority source = 0 \<or> disc_Priority source > 1000 then Some (SourcePriorityRange (disc_ID source))
     else if disc_ID source \<in> set seenIDs then Some (SourceDuplicate (disc_ID source))
     else case validateSource source of
       Inl e \<Rightarrow> Some (SourceInvalid (disc_ID source) e)
     | Inr _ \<Rightarrow> checkSources (disc_ID source # seenIDs) rest)"

text \<open>Go's division of durations truncates toward zero.\<close>

definition quo :: "int \<Rightarrow> int \<Rightarrow> int" where
  "quo a b = (if a < 0 then - ((- a) div b) else a div b)"

definition attemptBudgetOf :: "duration \<Rightarrow> duration \<Rightarrow> nat \<Rightarrow> duration" where
  "attemptBudgetOf attemptTimeout remainingBudget left =
    (let fairShare = quo remainingBudget (int left)
     in if fairShare < attemptTimeout then fairShare else attemptTimeout)"

text \<open>The loop of \<open>Fetch\<close>; it also gives the attempts that were made, with their budgets.\<close>

fun fetch_loop ::
  "crypto \<Rightarrow> library \<Rightarrow> bytes \<Rightarrow> duration \<Rightarrow> (nat \<Rightarrow> exchange) \<Rightarrow> TrustedState \<Rightarrow> nat \<Rightarrow>
   (string \<times> one_error) list \<Rightarrow> DiscoveryEndpoint list \<Rightarrow> (fetch_error + Result) \<times> (DiscoveryEndpoint \<times> duration) list" where
  "fetch_loop c lib rootKey attemptTimeout net trusted index failures [] =
    ((if failures = [] then Inl NoSources else Inl (AllFailed failures)), [])"
| "fetch_loop c lib rootKey attemptTimeout net trusted index failures (source # rest) =
    (let budget = attemptBudgetOf attemptTimeout (x_until (net index)) (length (source # rest)) in
     if budget \<le> 0 then ((if failures = [] then Inl NoSources else Inl (AllFailed failures)), [])
     else case fetchOne c lib rootKey source (x_outcome (net index)) (x_now (net index)) trusted of
       Inr (document, nextState) \<Rightarrow>
         (Inr \<lparr>res_Document = document, res_Trusted = nextState, res_SourceID = disc_ID source\<rparr>, [(source, budget)])
     | Inl e \<Rightarrow>
         if x_ended (net index) then (Inl (AllFailed (failures @ [(disc_ID source, e)])), [(source, budget)])
         else (case fetch_loop c lib rootKey attemptTimeout net trusted (index + 1) (failures @ [(disc_ID source, e)]) rest of
           (r, attempts) \<Rightarrow> (r, (source, budget) # attempts)))"

definition orElse :: "int \<Rightarrow> int \<Rightarrow> int" where
  "orElse v d = (if v = 0 then d else v)"

definition Fetch ::
  "crypto \<Rightarrow> library \<Rightarrow> Client \<Rightarrow> (nat \<Rightarrow> exchange) \<Rightarrow> DiscoveryEndpoint list \<Rightarrow> TrustedState \<Rightarrow>
   (fetch_error + Result) \<times> (DiscoveryEndpoint \<times> duration) list" where
  "Fetch c lib client net sources trusted =
    (let maxAttempts = orElse (cl_MaxAttempts client) (int (length sources));
         attemptTimeout = orElse (cl_AttemptTimeout client) defaultAttemptTimeout;
         overallTimeout = orElse (cl_OverallTimeout client) defaultOverallTimeout
     in if length (cl_RootKey client) \<noteq> public_key_size then (Inl RootKeyRequired, [])
        else if length sources = 0 \<or> length sources > 16 then (Inl SourceCount, [])
        else if maxAttempts < 1 \<or> maxAttempts > 16 then (Inl MaxAttemptsRange, [])
        else if attemptTimeout < second \<or> attemptTimeout > 30 * second then (Inl AttemptTimeoutRange, [])
        else if overallTimeout < 5 * second \<or> overallTimeout > 5 * minute then (Inl OverallTimeoutRange, [])
        else case checkSources [] sources of
          Some e \<Rightarrow> (Inl e, [])
        | None \<Rightarrow> fetch_loop c lib (cl_RootKey client) attemptTimeout net trusted 0 []
            (take (nat maxAttempts) (sort_slice discoveryLess sources)))"

subsection \<open>Facts\<close>

lemma fetchOne_Inr:
  assumes "fetchOne c lib root source oc now trusted = Inr (doc, st)"
  obtains parsed response host envelope where "validateSource source = Inr parsed" "oc = Responded response"
    "rsp_URL response = Some (''https'', host)" "EqualFold lib host (u_Host parsed)" "rsp_StatusCode response = 200"
    "DecodeEnvelope (rsp_Body response) = Inr envelope" "Verify c envelope root now trusted = (Inr doc, st)"
  using assms unfolding fetchOne_def readResponse_def
  by (auto split: sum.split_asm outcome.split_asm if_split_asm prod.split_asm option.split_asm)

lemma checkSources_None:
  assumes "checkSources seen sources = None"
  shows "distinct (map disc_ID sources)" "set (map disc_ID sources) \<inter> set seen = {}"
    "\<forall>s \<in> set sources. \<exists>parsed. validateSource s = Inr parsed"
    "\<forall>s \<in> set sources. match_string idPattern (disc_ID s) \<and> disc_Priority s \<noteq> 0 \<and> disc_Priority s \<le> 1000"
proof -
  have "distinct (map disc_ID sources) \<and> set (map disc_ID sources) \<inter> set seen = {} \<and>
    (\<forall>s \<in> set sources. \<exists>parsed. validateSource s = Inr parsed) \<and>
    (\<forall>s \<in> set sources. match_string idPattern (disc_ID s) \<and> disc_Priority s \<noteq> 0 \<and> disc_Priority s \<le> 1000)"
    using assms
  proof (induction sources arbitrary: seen)
    case (Cons s rest)
    then have "checkSources (disc_ID s # seen) rest = None" "match_string idPattern (disc_ID s)" "disc_Priority s \<noteq> 0"
      "disc_Priority s \<le> 1000" "disc_ID s \<notin> set seen" "\<exists>parsed. validateSource s = Inr parsed"
      by (auto simp: not_less split: if_split_asm sum.split_asm)
    with Cons.IH [of "disc_ID s # seen"] show ?case by auto
  qed simp
  then show "distinct (map disc_ID sources)" "set (map disc_ID sources) \<inter> set seen = {}"
    "\<forall>s \<in> set sources. \<exists>parsed. validateSource s = Inr parsed"
    "\<forall>s \<in> set sources. match_string idPattern (disc_ID s) \<and> disc_Priority s \<noteq> 0 \<and> disc_Priority s \<le> 1000" by blast+
qed

text \<open>The outcome of attempt \<open>i\<close> on a source.\<close>

abbreviation attempt ::
  "crypto \<Rightarrow> library \<Rightarrow> bytes \<Rightarrow> (nat \<Rightarrow> exchange) \<Rightarrow> TrustedState \<Rightarrow> nat \<Rightarrow> DiscoveryEndpoint \<Rightarrow>
   one_error + (Document \<times> TrustedState)" where
  "attempt c lib root net trusted i source \<equiv>
    fetchOne c lib root source (x_outcome (net i)) (x_now (net i)) trusted"

text \<open>The attempts of the loop: a prefix of the sources, all but a successful last one failing.\<close>

lemma fetch_loop_attempts:
  assumes "fetch_loop c lib root at net trusted i failures sources = (r, attempts)"
  shows "map fst attempts = take (length attempts) sources" "length attempts \<le> length sources"
    and "\<forall>j < length attempts. snd (attempts ! j) = attemptBudgetOf at (x_until (net (i + j))) (length sources - j) \<and>
      0 < snd (attempts ! j)"
    and "\<forall>j < length attempts. Suc j < length attempts \<or> (\<exists>e. r = Inl e) \<longrightarrow>
      (\<exists>e. attempt c lib root net trusted (i + j) (sources ! j) = Inl e)"
    and "r = Inr res \<Longrightarrow> attempts \<noteq> [] \<and> res_SourceID res = disc_ID (sources ! (length attempts - 1)) \<and>
      attempt c lib root net trusted (i + (length attempts - 1)) (sources ! (length attempts - 1)) =
        Inr (res_Document res, res_Trusted res)"
proof -
  have "map fst attempts = take (length attempts) sources \<and> length attempts \<le> length sources \<and>
    (\<forall>j < length attempts. snd (attempts ! j) = attemptBudgetOf at (x_until (net (i + j))) (length sources - j) \<and>
      0 < snd (attempts ! j)) \<and>
    (\<forall>j < length attempts. Suc j < length attempts \<or> (\<exists>e. r = Inl e) \<longrightarrow>
      (\<exists>e. attempt c lib root net trusted (i + j) (sources ! j) = Inl e)) \<and>
    (r = Inr res \<longrightarrow> attempts \<noteq> [] \<and> res_SourceID res = disc_ID (sources ! (length attempts - 1)) \<and>
      attempt c lib root net trusted (i + (length attempts - 1)) (sources ! (length attempts - 1)) =
        Inr (res_Document res, res_Trusted res))"
    using assms
  proof (induction sources arbitrary: i failures attempts)
    case (Cons s rest)
    let ?b = "attemptBudgetOf at (x_until (net i)) (length (s # rest))"
    show ?case
    proof (cases "?b \<le> 0")
      case True
      then show ?thesis using Cons.prems by (auto split: if_split_asm)
    next
      case pos: False
      show ?thesis
      proof (cases "attempt c lib root net trusted i s")
        case (Inr ds)
        then show ?thesis using Cons.prems pos by (cases ds) auto
      next
        case (Inl e)
        show ?thesis
        proof (cases "x_ended (net i)")
          case True
          then show ?thesis using Cons.prems pos Inl by auto
        next
          case False
          obtain as where loop: "fetch_loop c lib root at net trusted (i + 1) (failures @ [(disc_ID s, e)]) rest = (r, as)"
            and as: "attempts = (s, ?b) # as"
            using Cons.prems pos Inl False by (auto split: prod.split_asm)
          note IH = Cons.IH [OF loop]
          have res: "r = Inr res \<longrightarrow> res_SourceID res = disc_ID ((s # rest) ! length as) \<and>
              attempt c lib root net trusted (i + length as) ((s # rest) ! length as) = Inr (res_Document res, res_Trusted res)"
          proof
            assume "r = Inr res"
            then obtain n where n: "length as = Suc n" "res_SourceID res = disc_ID (rest ! n)"
              "attempt c lib root net trusted (i + 1 + n) (rest ! n) = Inr (res_Document res, res_Trusted res)"
              using IH by (cases as) auto
            then show "res_SourceID res = disc_ID ((s # rest) ! length as) \<and>
              attempt c lib root net trusted (i + length as) ((s # rest) ! length as) = Inr (res_Document res, res_Trusted res)"
              by simp
          qed
          have "\<forall>j < length as. Suc j < length as \<or> (\<exists>e. r = Inl e) \<longrightarrow>
              (\<exists>e. attempt c lib root net trusted (i + Suc j) (rest ! j) = Inl e)"
            using IH by simp
          moreover have "\<forall>j < length as. snd (as ! j) = attemptBudgetOf at (x_until (net (i + Suc j))) (length rest - j) \<and>
              0 < snd (as ! j)"
            using IH by auto
          ultimately show ?thesis
            using IH res pos Inl by (simp add: as All_less_Suc2)
        qed
      qed
    qed
  qed (auto split: if_split_asm)
  then show "map fst attempts = take (length attempts) sources" "length attempts \<le> length sources"
    "\<forall>j < length attempts. snd (attempts ! j) = attemptBudgetOf at (x_until (net (i + j))) (length sources - j) \<and>
      0 < snd (attempts ! j)"
    "\<forall>j < length attempts. Suc j < length attempts \<or> (\<exists>e. r = Inl e) \<longrightarrow>
      (\<exists>e. attempt c lib root net trusted (i + j) (sources ! j) = Inl e)"
    "r = Inr res \<Longrightarrow> attempts \<noteq> [] \<and> res_SourceID res = disc_ID (sources ! (length attempts - 1)) \<and>
      attempt c lib root net trusted (i + (length attempts - 1)) (sources ! (length attempts - 1)) =
        Inr (res_Document res, res_Trusted res)" by blast+
qed

text \<open>Each attempt takes at most its budget, and the overall context does not end before the deadline.\<close>

definition within_budget :: "duration \<Rightarrow> (nat \<Rightarrow> exchange) \<Rightarrow> nat \<Rightarrow> nat \<Rightarrow> bool" where
  "within_budget at net i n \<longleftrightarrow> (\<forall>j < n. \<not> x_ended (net (i + j)) \<and>
     x_until (net (i + j)) - attemptBudgetOf at (x_until (net (i + j))) (n - j) \<le> x_until (net (i + Suc j)))"

lemma div_mult_le_int: "0 < k \<Longrightarrow> r div k * k \<le> r" for r k :: int
  using pos_mod_sign [of k r] div_mult_mod_eq [of r k] by linarith

lemma fair_share:
  assumes "int k \<le> r" "0 < k" "1 \<le> at"
  shows "1 \<le> attemptBudgetOf at r k" "int k - 1 \<le> r - attemptBudgetOf at r k"
proof -
  define q where "q = r div int k"
  have q: "1 \<le> q" using assms(1,2) by (simp add: q_def pos_imp_zdiv_pos_iff less_le_trans zdiv_mono1 [of "int k" r "int k", simplified])
  have "q * int k \<le> r" unfolding q_def using assms(2) by (intro div_mult_le_int) simp
  moreover have "(int k - 1) * 1 \<le> (int k - 1) * q" using q assms(2) by (intro mult_left_mono) auto
  ultimately have "int k - 1 \<le> r - q" by (simp add: algebra_simps)
  moreover have "attemptBudgetOf at r k \<le> q" "attemptBudgetOf at r k = q \<or> attemptBudgetOf at r k = at"
    using assms(1) by (auto simp: attemptBudgetOf_def quo_def q_def Let_def)
  ultimately show "1 \<le> attemptBudgetOf at r k" "int k - 1 \<le> r - attemptBudgetOf at r k"
    using q assms(3) by auto
qed

lemma within_budget_Suc: "within_budget at net i (Suc n) \<Longrightarrow> within_budget at net (i + 1) n"
  by (simp add: within_budget_def All_less_Suc2)

lemma fetch_loop_reaches:
  assumes "fetch_loop c lib root at net trusted i failures sources = (r, attempts)"
    and "within_budget at net i (length sources)" "int (length sources) \<le> x_until (net i)" "1 \<le> at"
  shows "(\<exists>res. r = Inr res) \<or> length attempts = length sources"
  using assms
proof (induction sources arbitrary: i failures attempts)
  case (Cons s rest)
  let ?b = "attemptBudgetOf at (x_until (net i)) (length (s # rest))"
  note fair = fair_share [OF Cons.prems(3) _ Cons.prems(4)]
  have w: "\<not> x_ended (net i)" "x_until (net i) - ?b \<le> x_until (net (i + 1))"
    using Cons.prems(2) unfolding within_budget_def by (auto dest: spec [of _ 0])
  have pos: "\<not> ?b \<le> 0" using fair(1) by simp
  show ?case
  proof (cases "attempt c lib root net trusted i s")
    case (Inr ds)
    then show ?thesis using Cons.prems(1) pos by (cases ds) auto
  next
    case (Inl e)
    obtain as where loop: "fetch_loop c lib root at net trusted (i + 1) (failures @ [(disc_ID s, e)]) rest = (r, as)"
      and as: "attempts = (s, ?b) # as"
      using Cons.prems(1) pos Inl w(1) by (auto split: prod.split_asm)
    have "int (length rest) \<le> x_until (net (i + 1))" using fair(2) w(2) by simp
    from Cons.IH [OF loop within_budget_Suc this Cons.prems(4)] Cons.prems(2) show ?thesis by (simp add: as)
  qed
qed simp

text \<open>What a run of \<open>Fetch\<close> past its checks does.\<close>

definition timeout_of :: "Client \<Rightarrow> duration" where
  "timeout_of client = orElse (cl_AttemptTimeout client) defaultAttemptTimeout"

definition selected :: "Client \<Rightarrow> DiscoveryEndpoint list \<Rightarrow> DiscoveryEndpoint list" where
  "selected client sources =
    take (nat (orElse (cl_MaxAttempts client) (int (length sources)))) (sort_slice discoveryLess sources)"

lemma Fetch_unfold:
  assumes "Fetch c lib client net sources trusted = (r, attempts)"
  obtains (refused) e where "r = Inl e" "attempts = []"
  | (run) "length sources \<in> {1..16}" "checkSources [] sources = None" "second \<le> timeout_of client"
      "timeout_of client \<le> 30 * second" "length (selected client sources) \<in> {1..16}"
      "fetch_loop c lib (cl_RootKey client) (timeout_of client) net trusted 0 [] (selected client sources) = (r, attempts)"
proof -
  let ?max = "orElse (cl_MaxAttempts client) (int (length sources))"
  let ?over = "orElse (cl_OverallTimeout client) defaultOverallTimeout"
  note F = assms [unfolded Fetch_def Let_def, folded timeout_of_def, folded selected_def]
  show thesis
  proof (cases "length (cl_RootKey client) \<noteq> public_key_size \<or> (length sources = 0 \<or> length sources > 16) \<or>
      (?max < 1 \<or> ?max > 16) \<or> (timeout_of client < second \<or> timeout_of client > 30 * second) \<or>
      (?over < 5 * second \<or> ?over > 5 * minute) \<or> checkSources [] sources \<noteq> None")
    case True
    have "(\<exists>e. r = Inl e) \<and> attempts = []"
      using F True by (auto split: if_split_asm option.split_asm)
    then show thesis using refused by blast
  next
    case False
    then have "fetch_loop c lib (cl_RootKey client) (timeout_of client) net trusted 0 [] (selected client sources) = (r, attempts)"
      using F by simp
    moreover have "length (selected client sources) = min (nat ?max) (length sources)"
      by (simp add: selected_def)
    ultimately show thesis using False by (intro run) (auto simp: Suc_le_eq)
  qed
qed

text \<open>A mirror that serves what \<open>Issue\<close> made passes every check of \<open>fetchOne\<close> but the state's own.\<close>

definition serves :: "library \<Rightarrow> url \<Rightarrow> Envelope \<Rightarrow> response \<Rightarrow> bool" where
  "serves lib parsed env response \<longleftrightarrow> (\<exists>host mediaType. rsp_URL response = Some (''https'', host) \<and>
     EqualFold lib host (u_Host parsed) \<and> rsp_StatusCode response = 200 \<and>
     ParseMediaType lib (rsp_ContentType response) = Some mediaType \<and> EqualFold lib mediaType ''application/json'' \<and>
     rsp_Body response = bytes_reader (print_json (enc_Envelope env) @ [CHR 0x0A]))"

lemma fetchOne_issued:
  assumes "crypto_ok c" "Issue c catalog version policy root t ttl sk = Inr env" "validateSource source = Inr parsed"
    and "serves lib parsed env response" "Verify c env root now trusted = (Inr doc, st)"
  shows "fetchOne c lib root source (Responded response) now trusted = Inr (doc, st)"
  using assms Issue_DecodeEnvelope [OF assms(1,2)]
  by (auto simp: fetchOne_def readResponse_def serves_def)

subsection \<open>A sample fetch\<close>

definition sample_lib :: library where
  "sample_lib = \<lparr>EqualFold = (=), ParseMediaType = Some\<rparr>"

definition sample_client :: Client where
  "sample_client = \<lparr>cl_RootKey = sample_root, cl_MaxAttempts = 0, cl_AttemptTimeout = 0, cl_OverallTimeout = 0\<rparr>"

definition sample_sources :: "DiscoveryEndpoint list" where
  "sample_sources = cat_Discovery (sample_catalog 1)"

definition sample_net :: "Envelope \<Rightarrow> nat \<Rightarrow> exchange" where
  "sample_net env i = \<lparr>x_until = 60 * second, x_now = 1000 * second, x_outcome = Responded
     \<lparr>rsp_URL = Some (''https'', ''h''), rsp_StatusCode = 200, rsp_ContentType = ''application/json'',
      rsp_Body = bytes_reader (print_json (enc_Envelope env) @ [CHR 0x0A])\<rparr>, x_ended = False\<rparr>"

lemma sample_selected: "selected sample_client sample_sources = sample_sources"
  by (simp add: selected_def sample_client_def orElse_def sample_sources_def sample_catalog_def sort_slice_def)

lemma sample_fetchOne:
  "\<exists>env doc st. \<forall>i. fetchOne sample_crypto sample_lib sample_root (hd sample_sources) (x_outcome (sample_net env i))
     (x_now (sample_net env i)) zero_TrustedState = Inr (doc, st)"
proof -
  obtain env where env: "sample_issue 1 (1000 * second) = Inr env" using sample_issue_ok [of 1 "1000 * second"] by auto
  obtain doc st where v: "Verify sample_crypto env sample_root (1000 * second) zero_TrustedState = (Inr doc, st)"
    using sample_accepted [OF _ _ _ env] by auto
  have "validateSource (hd sample_sources) = Inr \<lparr>u_Scheme = ''https'', u_Opaque = [], u_User = None, u_Host = ''h'',
      u_Path = ''/m'', u_RawQuery = [], u_Fragment = []\<rparr>"
    by (simp add: validateSource_def sample_sources_def sample_catalog_def sample_url)
  from fetchOne_issued [OF sample_crypto_ok env [unfolded sample_issue_def] this _ v]
  have "fetchOne sample_crypto sample_lib sample_root (hd sample_sources) (x_outcome (sample_net env i))
     (x_now (sample_net env i)) zero_TrustedState = Inr (doc, st)" for i
    by (simp add: sample_net_def serves_def sample_lib_def)
  then show ?thesis by blast
qed

lemma sample_fetch:
  "\<exists>env doc st. (\<exists>res attempts. Fetch sample_crypto sample_lib sample_client (sample_net env) sample_sources zero_TrustedState =
     (Inr res, attempts)) \<and> (\<forall>i. attempt sample_crypto sample_lib sample_root (sample_net env) zero_TrustedState i
      (hd sample_sources) = Inr (doc, st))"
proof -
  obtain env doc st where one: "\<forall>i. fetchOne sample_crypto sample_lib sample_root (hd sample_sources) (x_outcome (sample_net env i))
     (x_now (sample_net env i)) zero_TrustedState = Inr (doc, st)"
    using sample_fetchOne by blast
  have src: "sample_sources = [hd sample_sources]" by (simp add: sample_sources_def sample_catalog_def)
  have "validateSource (hd sample_sources) = Inr \<lparr>u_Scheme = ''https'', u_Opaque = [], u_User = None, u_Host = ''h'',
      u_Path = ''/m'', u_RawQuery = [], u_Fragment = []\<rparr>"
    by (simp add: validateSource_def sample_sources_def sample_catalog_def sample_url)
  then have "checkSources [] [hd sample_sources] = None"
    using sample_patterns by (simp add: sample_sources_def sample_catalog_def)
  moreover have "attemptBudgetOf defaultAttemptTimeout (60 * second) 1 = 12 * second"
    by (simp add: attemptBudgetOf_def quo_def defaultAttemptTimeout_def second_def)
  then have "\<exists>res attempts. fetch_loop sample_crypto sample_lib sample_root defaultAttemptTimeout (sample_net env)
      zero_TrustedState 0 [] [hd sample_sources] = (Inr res, attempts)"
    using one by (simp add: second_def sample_net_def)
  moreover have "length sample_sources = 1" by (simp add: sample_sources_def sample_catalog_def)
  ultimately have "\<exists>res attempts. Fetch sample_crypto sample_lib sample_client (sample_net env) sample_sources zero_TrustedState =
     (Inr res, attempts)"
    using sample_selected [unfolded selected_def] src unfolding Fetch_def Let_def
    by (auto simp: sample_client_def orElse_def sample_root_def defaultAttemptTimeout_def defaultOverallTimeout_def
        duration_defs)
  with one show ?thesis by blast
qed

subsection \<open>Properties\<close>

text \<open>
  C24. What \<open>Fetch\<close> returns came from the source that the last attempt was made on: one of the
  sources given, with a valid https URL and the identifier in the result. The response to that
  attempt has status 200 and comes, also after redirects, by https from the host of the source's
  URL; the document was decoded from its body and accepted by \<open>Verify\<close> against the pinned root
  and the trusted state at the time of that attempt.
\<close>
theorem Fetch_authentic:
  assumes "Fetch c lib client net sources trusted = (Inr res, attempts)"
  shows "\<exists>source budget parsed response host envelope.
    attempts \<noteq> [] \<and> last attempts = (source, budget) \<and> source \<in> set sources \<and> res_SourceID res = disc_ID source \<and>
    validateSource source = Inr parsed \<and> u_Scheme parsed = ''https'' \<and>
    x_outcome (net (length attempts - 1)) = Responded response \<and>
    rsp_URL response = Some (''https'', host) \<and> EqualFold lib host (u_Host parsed) \<and> rsp_StatusCode response = 200 \<and>
    DecodeEnvelope (rsp_Body response) = Inr envelope \<and>
    Verify c envelope (cl_RootKey client) (x_now (net (length attempts - 1))) trusted = (Inr (res_Document res), res_Trusted res)"
  using assms
proof (cases rule: Fetch_unfold)
  case run
  note loop = fetch_loop_attempts [OF run(6)]
  let ?n = "length attempts - 1"
  have one: "attempts \<noteq> []" "res_SourceID res = disc_ID (selected client sources ! ?n)"
    "attempt c lib (cl_RootKey client) net trusted ?n (selected client sources ! ?n) = Inr (res_Document res, res_Trusted res)"
    using loop(5) [of res] by auto
  have n: "?n < length (selected client sources)" using one(1) loop(2) by (cases attempts) auto
  then have "selected client sources ! ?n \<in> set (selected client sources)" by (rule nth_mem)
  then have "selected client sources ! ?n \<in> set sources" by (auto simp: selected_def dest: in_set_takeD)
  moreover have "fst (last attempts) = map fst attempts ! ?n" using one(1) by (simp add: last_conv_nth)
  then have "fst (last attempts) = selected client sources ! ?n" unfolding loop(1) using one(1) by simp
  moreover obtain parsed response envelope host where "validateSource (selected client sources ! ?n) = Inr parsed"
    "x_outcome (net ?n) = Responded response"
    "rsp_URL response = Some (''https'', host)" "EqualFold lib host (u_Host parsed)" "rsp_StatusCode response = 200"
    "DecodeEnvelope (rsp_Body response) = Inr envelope"
    "Verify c envelope (cl_RootKey client) (x_now (net ?n)) trusted = (Inr (res_Document res), res_Trusted res)"
    by (rule fetchOne_Inr [OF one(3)]) blast
  moreover from this(1) have "u_Scheme parsed = ''https''"
    by (auto simp: validateSource_def split: option.splits if_splits)
  ultimately show ?thesis using one(1,2) by (metis prod.collapse)
qed simp

theorem Fetch_authentic_witness:
  "\<exists>env res attempts. Fetch sample_crypto sample_lib sample_client (sample_net env) sample_sources zero_TrustedState =
     (Inr res, attempts) \<and> res_SourceID res = ''d''"
proof -
  obtain env res attempts where f: "Fetch sample_crypto sample_lib sample_client (sample_net env) sample_sources
     zero_TrustedState = (Inr res, attempts)" using sample_fetch by blast
  with Fetch_authentic [OF f] show ?thesis by (auto simp: sample_sources_def sample_catalog_def)
qed

text \<open>
  C25. The sources are tried one after the other in the order of priority, none twice and at
  most sixteen; the first that succeeds ends the search, so every attempt before it failed.
\<close>
theorem Fetch_sequential:
  assumes "Fetch c lib client net sources trusted = (r, attempts)"
  shows "map fst attempts = take (length attempts) (sort_slice discoveryLess sources) \<and> length attempts \<le> 16 \<and>
    distinct (map (\<lambda>a. disc_ID (fst a)) attempts) \<and>
    (\<forall>j < length attempts. Suc j < length attempts \<or> (\<exists>e. r = Inl e) \<longrightarrow>
      (\<exists>e. attempt c lib (cl_RootKey client) net trusted j (fst (attempts ! j)) = Inl e))"
  using assms
proof (cases rule: Fetch_unfold)
  case run
  note loop = fetch_loop_attempts [OF run(6)]
  have pre: "map fst attempts = take (length attempts) (sort_slice discoveryLess sources)"
    using loop(1,2) by (simp add: selected_def min_absorb1)
  have nth: "fst (attempts ! j) = selected client sources ! j" if "j < length attempts" for j
    using that loop(1,2) by (metis nth_map nth_take)
  have "distinct (map disc_ID (map fst attempts))"
    unfolding pre take_map [symmetric] using checkSources_None(1) [OF run(2)] by simp
  then have "distinct (map (\<lambda>a. disc_ID (fst a)) attempts)" by (simp add: comp_def)
  then show ?thesis using pre loop(2,4) nth run(5) by auto
qed simp

theorem Fetch_sequential_witness:
  "\<exists>env r attempts. Fetch sample_crypto sample_lib sample_client (sample_net env) sample_sources zero_TrustedState =
     (r, attempts) \<and> length attempts \<le> 16 \<and>
     map fst attempts = take (length attempts) (sort_slice discoveryLess sample_sources)"
proof -
  obtain env res attempts where f: "Fetch sample_crypto sample_lib sample_client (sample_net env) sample_sources
     zero_TrustedState = (Inr res, attempts)" using sample_fetch by blast
  with Fetch_sequential [OF f] show ?thesis by blast
qed

text \<open>
  C26. Every attempt has a positive budget of at most thirty seconds that leaves the same share
  of the remaining time to each source still to be tried.
\<close>
theorem Fetch_budget:
  assumes "Fetch c lib client net sources trusted = (r, attempts)" and "j < length attempts"
  shows "0 < snd (attempts ! j) \<and> snd (attempts ! j) \<le> 30 * second \<and>
    snd (attempts ! j) * int (length (selected client sources) - j) \<le> x_until (net j)"
  using assms(1)
proof (cases rule: Fetch_unfold)
  case run
  note loop = fetch_loop_attempts [OF run(6)]
  let ?k = "length (selected client sources) - j"
  have b: "snd (attempts ! j) = attemptBudgetOf (timeout_of client) (x_until (net j)) ?k" "0 < snd (attempts ! j)"
    using loop(3) assms(2) by auto
  have k: "0 < ?k" using assms(2) loop(2) by simp
  have le: "snd (attempts ! j) \<le> quo (x_until (net j)) (int ?k)" "snd (attempts ! j) \<le> timeout_of client"
    unfolding b(1) by (simp_all add: attemptBudgetOf_def Let_def)
  have nn: "\<not> x_until (net j) < 0"
  proof
    assume neg: "x_until (net j) < 0"
    then have "0 \<le> (- x_until (net j)) div int ?k" by (intro div_int_pos_iff [THEN iffD2]) simp
    with neg le(1) b(2) show False by (simp add: quo_def)
  qed
  then have "snd (attempts ! j) * int ?k \<le> x_until (net j) div int ?k * int ?k"
    using le(1) by (intro mult_right_mono) (simp_all add: quo_def)
  also have "\<dots> \<le> x_until (net j)" using k by (intro div_mult_le_int) simp
  finally show ?thesis using b(2) le(2) run(4) by simp
qed (use assms(2) in simp)

theorem Fetch_budget_witness:
  "\<exists>env r attempts. Fetch sample_crypto sample_lib sample_client (sample_net env) sample_sources zero_TrustedState =
     (r, attempts) \<and> 0 < snd (attempts ! 0) \<and> snd (attempts ! 0) \<le> 30 * second"
proof -
  obtain env res attempts where f: "Fetch sample_crypto sample_lib sample_client (sample_net env) sample_sources
     zero_TrustedState = (Inr res, attempts)" using sample_fetch by blast
  have "attempts \<noteq> []" using f by (cases rule: Fetch_unfold) (auto dest: fetch_loop_attempts(5))
  with Fetch_budget [OF f, of 0] f show ?thesis by auto
qed

text \<open>
  C27. No good mirror is missed: when each attempt keeps to its budget, a search past its checks
  returns a manifest if any selected source would give an acceptable one in its turn.
\<close>
theorem Fetch_reaches_good_mirror:
  assumes "Fetch c lib client net sources trusted = (r, attempts)" and "attempts \<noteq> []"
    and "within_budget (timeout_of client) net 0 (length (selected client sources))"
    and "int (length (selected client sources)) \<le> x_until (net 0)" and "j < length (selected client sources)"
    and "attempt c lib (cl_RootKey client) net trusted j (selected client sources ! j) = Inr (doc, st)"
  shows "\<exists>res. r = Inr res"
  using assms(1)
proof (cases rule: Fetch_unfold)
  case run
  have "1 \<le> timeout_of client" using run(3) by (simp add: second_def)
  from fetch_loop_reaches [OF run(6) assms(3,4) this]
  show ?thesis using fetch_loop_attempts(4) [OF run(6)] assms(5,6) by (cases r) force+
qed (use assms(2) in simp)

theorem Fetch_reaches_good_mirror_witness:
  "\<exists>env r attempts res. Fetch sample_crypto sample_lib sample_client (sample_net env) sample_sources zero_TrustedState =
     (r, attempts) \<and> r = Inr res"
proof -
  obtain env doc st where one: "\<forall>i. attempt sample_crypto sample_lib sample_root (sample_net env) zero_TrustedState i
      (hd sample_sources) = Inr (doc, st)" and run: "\<exists>res attempts. Fetch sample_crypto sample_lib sample_client (sample_net env)
      sample_sources zero_TrustedState = (Inr res, attempts)"
    using sample_fetch by blast
  obtain r attempts where f: "Fetch sample_crypto sample_lib sample_client (sample_net env) sample_sources
     zero_TrustedState = (r, attempts)" and r: "\<exists>res. r = Inr res" using run by blast
  have len: "length sample_sources = 1" "sample_sources ! 0 = hd sample_sources"
    by (simp_all add: sample_sources_def sample_catalog_def)
  have "attempts \<noteq> []" using f r by (cases rule: Fetch_unfold) (auto dest: fetch_loop_attempts(5))
  moreover have "within_budget (timeout_of sample_client) (sample_net env) 0 1"
    by (simp add: within_budget_def sample_net_def attemptBudgetOf_def quo_def timeout_of_def sample_client_def orElse_def
        defaultAttemptTimeout_def second_def)
  moreover have "1 \<le> x_until (sample_net env 0)" "cl_RootKey sample_client = sample_root"
    by (simp_all add: sample_net_def second_def sample_client_def)
  ultimately obtain res where "r = Inr res"
    using Fetch_reaches_good_mirror [OF f, of 0 doc st] one len unfolding sample_selected by auto
  with f show ?thesis by blast
qed

end
