(* ===== verification/Delivery.thy ===== *)
theory Delivery
  imports IssuerRun Discovery Api
begin

text \<open>
  From the issuer to the clients: the state a client keeps after it accepted a publication, and
  that a publication's envelope is accepted by every client whose state allows the step. Shared
  by the properties of the whole system.
\<close>

definition pub_document :: "publication \<Rightarrow> Document" where
  "pub_document p = issuedDocument (pub_catalog p) (st_LastVersion (pub_state p)) (i_keyPolicy (pub_by p))
     (st_LastIssuedAt (pub_state p)) (i_ttl (pub_by p))"

definition client_state :: "crypto \<Rightarrow> publication \<Rightarrow> TrustedState" where
  "client_state c p =
    \<lparr>ts_Version = st_LastVersion (pub_state p), ts_IssuedAt = st_LastIssuedAt (pub_state p),
     ts_PayloadSHA256 = raw_url_encode (sha256_sum c (print_json (enc_Document (pub_document p)))),
     ts_PolicyVersion = st_PolicyVersion (pub_state p), ts_PolicySHA256 = st_PolicySHA256 (pub_state p),
     ts_SigningKeyID = st_KeyID (pub_state p), ts_SigningKeyEpoch = st_KeyEpoch (pub_state p)\<rparr>"

text \<open>
  What delivery relies on besides the code: the URLs of the catalog are UTF-8, as the decoder of
  the catalog file makes them, and SHA-256 does not map the signing key and the key that the
  policy grants under its identifier to one value.
\<close>

definition deliverable :: "crypto \<Rightarrow> publication \<Rightarrow> bool" where
  "deliverable c p \<longleftrightarrow> urls_utf8 (cat_Discovery (pub_catalog p)) \<and>
     (\<forall>grant pk. KeyPolicyGrant (i_keyPolicy (pub_by p)) (i_keyID (pub_by p)) (st_LastVersion (pub_state p)) = Inr (grant, pk) \<longrightarrow>
       sha256_sum c pk = sha256_sum c (public_of (i_privateKey (pub_by p))) \<longrightarrow> pk = public_of (i_privateKey (pub_by p)))"

definition valid_at :: "publication \<Rightarrow> time \<Rightarrow> bool" where
  "valid_at p now \<longleftrightarrow> st_LastIssuedAt (pub_state p) - allowedClockSkew \<le> now \<and>
     now < st_LastIssuedAt (pub_state p) + i_ttl (pub_by p)"

lemma grant_epoch_unique:
  assumes "validateKeyPolicyShape c p = None" "KeyPolicyGrant p k v = Inr (g, r)" "KeyPolicyGrant p k v' = Inr (g', r')"
  shows "kg_Epoch g = kg_Epoch g'"
  using KeyPolicyGrant_epochs [OF assms] KeyPolicyGrant_epochs [OF assms(1,3,2)] by (cases "v \<le> v'") auto

lemma published_accepts:
  assumes c: "crypto_ok c" and p: "published c p" "deliverable c p" "valid_at p now"
  shows "accepts c (pub_envelope p) (i_rootKey (pub_by p)) now (print_json (enc_Document (pub_document p)))
    (pub_document p) (client_state c p)"
proof -
  let ?i = "pub_by p" and ?s = "pub_state p"
  have ok: "issuer_ok c ?i"
    and issue: "Issue c (pub_catalog p) (st_LastVersion ?s) (i_keyPolicy ?i) (i_rootKey ?i) (st_LastIssuedAt ?s)
        (i_ttl ?i) (i_privateKey ?i) = Inr (pub_envelope p)"
    and t: "truncate_second (st_LastIssuedAt ?s) = st_LastIssuedAt ?s"
    and st: "st_PolicyVersion ?s = kp_Version (i_keyPolicy ?i)" "st_PolicySHA256 ?s = i_policySHA ?i"
      "st_KeyID ?s = i_keyID ?i" "st_KeyEpoch ?s = i_keyEpoch ?i"
    using p(1) unfolding published_def by blast+
  have id': "i_keyID ?i = KeyID c (public_of (i_privateKey ?i))"
    and policy: "ValidateKeyPolicy c (i_keyPolicy ?i) (i_rootKey ?i) = Inr (i_policySHA ?i)"
    using ok unfolding issuer_ok_def by blast+
  obtain v g pk where g: "KeyPolicyGrant (i_keyPolicy ?i) (i_keyID ?i) v = Inr (g, pk)" "kg_Epoch g = i_keyEpoch ?i"
    using ok unfolding issuer_ok_def by blast
  have uniq: "\<forall>grant pk. KeyPolicyGrant (i_keyPolicy ?i) (KeyID c (public_of (i_privateKey ?i))) (st_LastVersion ?s) =
        Inr (grant, pk) \<longrightarrow> sha256_sum c pk = sha256_sum c (public_of (i_privateKey ?i)) \<longrightarrow> pk = public_of (i_privateKey ?i)"
    and utf8: "urls_utf8 (cat_Discovery (pub_catalog p))"
    using p(2) unfolding deliverable_def id' by blast+
  have now: "truncate_second (st_LastIssuedAt ?s) - allowedClockSkew \<le> now"
    "now < truncate_second (st_LastIssuedAt ?s) + i_ttl ?i"
    using p(3) unfolding valid_at_def t by blast+
  obtain digest grant pk' where digest: "ValidateKeyPolicy c (i_keyPolicy ?i) (i_rootKey ?i) = Inr digest"
    and grant: "KeyPolicyGrant (i_keyPolicy ?i) (i_keyID ?i) (st_LastVersion ?s) = Inr (grant, pk')"
    and acc: "accepts c (pub_envelope p) (i_rootKey ?i) now (print_json (enc_Document (pub_document p))) (pub_document p)
      (candidateState c (print_json (enc_Document (pub_document p))) (pub_document p) digest grant)"
    using Issue_accepts [OF c issue utf8 uniq now] unfolding id' pub_document_def by blast
  have shape: "validateKeyPolicyShape c (i_keyPolicy ?i) = None" by (rule ValidateKeyPolicy_ok(2) [OF policy])
  have "kg_KeyID grant = i_keyID ?i" using grant KeyPolicyGrant_iff [OF shape] by blast
  moreover have "kg_Epoch grant = i_keyEpoch ?i" using grant_epoch_unique [OF shape grant g(1)] g(2) by simp
  moreover have "digest = i_policySHA ?i" using digest policy by simp
  moreover have "doc_KeyPolicy (pub_document p) = canonicalKeyPolicy (i_keyPolicy ?i)"
    "doc_Version (pub_document p) = st_LastVersion ?s" "doc_IssuedAt (pub_document p) = st_LastIssuedAt ?s"
    by (simp_all add: pub_document_def issuedDocument_def t)
  moreover have "kp_Version (canonicalKeyPolicy (i_keyPolicy ?i)) = kp_Version (i_keyPolicy ?i)"
    by (simp add: canonicalKeyPolicy_def)
  ultimately have "candidateState c (print_json (enc_Document (pub_document p))) (pub_document p) digest grant =
      client_state c p"
    by (simp add: candidateState_def client_state_def st)
  then show ?thesis using acc by simp
qed

lemma issued_valid_at: "issuer_ok c (pub_by p) \<Longrightarrow> valid_at p (st_LastIssuedAt (pub_state p))"
  by (simp add: valid_at_def issuer_ok_def allowedClockSkew_def duration_defs)

lemma client_state_complete:
  assumes "crypto_ok c" "published c p" "deliverable c p"
  shows "state_complete (client_state c p)"
proof -
  have "valid_at p (st_LastIssuedAt (pub_state p))"
    using assms(2) issued_valid_at unfolding published_def by blast
  from candidate_complete(1) [OF assms(1) published_accepts [OF assms this]] show ?thesis .
qed

lemma transition_newer:
  assumes "state_complete s" and v: "ts_Version s < ts_Version t" and p: "ts_PolicyVersion s \<le> ts_PolicyVersion t"
    and pd: "ts_PolicyVersion s = ts_PolicyVersion t \<longrightarrow> ts_PolicySHA256 s = ts_PolicySHA256 t"
    and i: "ts_IssuedAt s \<le> ts_IssuedAt t" and e: "ts_SigningKeyEpoch s \<le> ts_SigningKeyEpoch t"
    and k: "ts_SigningKeyID s = ts_SigningKeyID t \<longleftrightarrow> ts_SigningKeyEpoch s = ts_SigningKeyEpoch t"
  shows "validateStateTransition s t = None"
proof -
  have "ts_Version s \<noteq> 0" "\<not> (ts_PayloadSHA256 s = [] \<or> is_zero (ts_IssuedAt s) \<or> ts_PolicyVersion s = 0 \<or>
      ts_PolicySHA256 s = [] \<or> ts_SigningKeyID s = [] \<or> ts_SigningKeyEpoch s = 0)"
    "\<not> (\<not> validSHA256Digest (ts_PayloadSHA256 s) \<or> \<not> validSHA256Digest (ts_PolicySHA256 s) \<or>
      length (ts_SigningKeyID s) \<noteq> encoded_len sha256_size)"
    using assms(1) by (auto simp: state_complete_def encoded_len_def)
  moreover have "\<not> ts_PolicyVersion t < ts_PolicyVersion s" "\<not> ts_Version t < ts_Version s" "ts_Version t \<noteq> ts_Version s"
    "\<not> ts_IssuedAt t < ts_IssuedAt s" "\<not> ts_SigningKeyEpoch t < ts_SigningKeyEpoch s"
    using v p i e by simp_all
  moreover have "\<not> (ts_PolicyVersion t = ts_PolicyVersion s \<and> ts_PolicySHA256 t \<noteq> ts_PolicySHA256 s)" using pd by auto
  moreover have "\<not> (ts_SigningKeyID t = ts_SigningKeyID s \<and> ts_SigningKeyEpoch t \<noteq> ts_SigningKeyEpoch s)"
    "\<not> (ts_SigningKeyID t \<noteq> ts_SigningKeyID s \<and> ts_SigningKeyEpoch t \<le> ts_SigningKeyEpoch s)"
    using k antisym [OF e] by (blast dest: sym)+
  ultimately show ?thesis unfolding validateStateTransition_def by (simp only: if_False)
qed

lemma newer_transition:
  assumes "state_complete (client_state c p)" "istate_lt (pub_state p) (pub_state q)"
    and "st_KeyID (pub_state p) = st_KeyID (pub_state q) \<longrightarrow> st_KeyEpoch (pub_state p) = st_KeyEpoch (pub_state q)"
  shows "validateStateTransition (client_state c p) (client_state c q) = None"
proof (rule transition_newer [OF assms(1)])
  show "ts_SigningKeyID (client_state c p) = ts_SigningKeyID (client_state c q) \<longleftrightarrow>
      ts_SigningKeyEpoch (client_state c p) = ts_SigningKeyEpoch (client_state c q)"
    using assms(2,3) unfolding istate_lt_def client_state_def TrustedState.select_convs by (metis less_irrefl)
qed (use assms(2) in \<open>simp_all add: client_state_def istate_lt_def\<close>)

lemma Verify_newer:
  assumes "crypto_ok c" "published c p" "deliverable c p" "published c q" "deliverable c q" "valid_at q now"
    and "istate_lt (pub_state p) (pub_state q)"
    and "st_KeyID (pub_state p) = st_KeyID (pub_state q) \<longrightarrow> st_KeyEpoch (pub_state p) = st_KeyEpoch (pub_state q)"
  shows "Verify c (pub_envelope q) (i_rootKey (pub_by q)) now (client_state c p) = (Inr (pub_document q), client_state c q)"
proof -
  have "ts_Version (client_state c p) \<noteq> ts_Version (client_state c q)"
    using assms(7) by (auto simp: client_state_def istate_lt_def)
  then show ?thesis
    using newer_transition [OF client_state_complete [OF assms(1-3)] assms(7,8)]
    unfolding Verify_accepts [OF published_accepts [OF assms(1,4-6)]] by simp
qed

subsection \<open>Mirrors\<close>

text \<open>
  A mirror relays an answer of the control plane when its response comes from the source's own
  host and has the answer's status, content type and body. \<open>reads_json\<close> is what a client relies on
  of the library: that it recognises the content type.
\<close>

definition relays :: "library \<Rightarrow> url \<Rightarrow> text_response \<Rightarrow> response \<Rightarrow> bool" where
  "relays lib parsed a response \<longleftrightarrow>
    (\<exists>host. rsp_URL response = Some (''https'', host) \<and> EqualFold lib host (u_Host parsed)) \<and>
    rsp_StatusCode response = tx_Status a \<and> tx_Header a ''Content-Type'' = Some (rsp_ContentType response) \<and>
    rsp_Body response = bytes_reader (tx_Body a)"

definition reads_json :: "library \<Rightarrow> bool" where
  "reads_json lib \<longleftrightarrow>
    (\<exists>mediaType. ParseMediaType lib ''application/json'' = Some mediaType \<and> EqualFold lib mediaType ''application/json'')"

lemma relays_serves:
  assumes "reads_json lib" "relays lib parsed (manifest_answer (Inr env :: string + Envelope) ''GET'') response"
  shows "serves lib parsed env response"
  using assms by (auto simp: relays_def reads_json_def serves_def manifest_answer_def newline_def)

lemma sample_delivery:
  "\<exists>w p q. reachable sample_crypto sample_fs w \<and> w_log w = [] @ p # [] @ q # [] \<and>
     deliverable sample_crypto p \<and> deliverable sample_crypto q \<and> sample_issuer (pub_by p) \<and> sample_issuer (pub_by q)"
proof -
  obtain w where w: "reachable sample_crypto sample_fs w" "length (w_log w) = 2"
    and log: "\<forall>p \<in> set (w_log w). pub_catalog p = sample_catalog 1 \<and> sample_issuer (pub_by p)"
    using sample_run by blast
  obtain p q where pq: "w_log w = [p, q]" using w(2) by (auto simp: numeral_2_eq_2 length_Suc_conv)
  have "deliverable sample_crypto x" if "pub_catalog x = sample_catalog 1" "sample_issuer (pub_by x)" for x
    using that sample_catalog_utf8 [of 1] sample_keys_unique [of "CHR ''a''" "st_LastVersion (pub_state x)"]
    unfolding deliverable_def sample_issuer_def issuer_ok_def by metis
  then show ?thesis using w(1) log pq by (intro exI [of _ w] exI [of _ p] exI [of _ q]) simp
qed

end
