(* ===== verification/Selector.thy ===== *)
theory Selector
  imports ManifestVerify
begin

text \<open>
  \<open>internal/selector\<close>: the ranking of the endpoints of a document into a bounded plan of
  connection attempts, the cooldown after failures and the classification of probes.
\<close>

subsection \<open>Data\<close>

record Options =
  opt_UDPAvailable :: bool
  opt_MaxCandidates :: int

record Observation =
  obs_ConsecutiveFailures :: uint16
  obs_CooldownUntil :: time
  obs_LastSuccess :: time
  obs_TransferVerified :: bool

definition zero_Observation :: Observation where
  "zero_Observation = \<lparr>obs_ConsecutiveFailures = 0, obs_CooldownUntil = zero_time, obs_LastSuccess = zero_time,
     obs_TransferVerified = False\<rparr>"

record Candidate =
  cand_NodeID :: string
  cand_Provider :: string
  cand_ASN :: uint32
  cand_Endpoint :: Endpoint

record Plan =
  plan_Candidates :: "Candidate list"
  plan_RetryAt :: time

record scoredCandidate =
  sc_candidate :: Candidate
  sc_score :: uint64

datatype rank_error = RankDocument document_error | MaxCandidatesRange

type_synonym FailureClass = string

definition FailureNone :: FailureClass where "FailureNone = ''''"
definition FailureDNS :: FailureClass where "FailureDNS = ''dns''"
definition FailureHandshake :: FailureClass where "FailureHandshake = ''handshake''"
definition FailureTransfer :: FailureClass where "FailureTransfer = ''transfer''"
definition FailureSuspected :: FailureClass where "FailureSuspected = ''suspected-censorship''"
definition FailureAllowlist :: FailureClass where "FailureAllowlist = ''suspected-allowlist''"

lemmas failure_classes = FailureNone_def FailureDNS_def FailureHandshake_def FailureTransfer_def
  FailureSuspected_def FailureAllowlist_def

subsection \<open>Rank\<close>

definition defaultMaxCandidates :: int where "defaultMaxCandidates = 8"

definition observe :: "(string \<rightharpoonup> Observation) \<Rightarrow> string \<Rightarrow> Observation" where
  "observe observations i = (case observations i of None \<Rightarrow> zero_Observation | Some o' \<Rightarrow> o')"

definition score :: "Endpoint \<Rightarrow> Observation \<Rightarrow> uint64" where
  "score endpoint observation =
    (let s = ucast (ep_Priority endpoint) * 1000 + ucast (obs_ConsecutiveFailures observation) * 100000
     in if obs_TransferVerified observation \<and> \<not> is_zero (obs_LastSuccess observation) \<and> s \<ge> 100 then s - 100 else s)"

text \<open>One endpoint of the collecting loop; the accumulator is \<open>active\<close> and \<open>retryAt\<close>.\<close>

definition collect_endpoint ::
  "(string \<rightharpoonup> Observation) \<Rightarrow> time \<Rightarrow> Options \<Rightarrow> Node \<Rightarrow> Endpoint \<Rightarrow>
   scoredCandidate list \<times> time \<Rightarrow> scoredCandidate list \<times> time" where
  "collect_endpoint observations now options node endpoint acc =
    (case acc of (active, retryAt) \<Rightarrow>
       if ep_Transport endpoint = TransportAmneziaWG \<and> \<not> opt_UDPAvailable options then acc
       else
         (let observation = observe observations (ep_ID endpoint) in
          if now < obs_CooldownUntil observation then
            (active, if is_zero retryAt \<or> obs_CooldownUntil observation < retryAt
               then obs_CooldownUntil observation else retryAt)
          else
            (active @ [\<lparr>sc_candidate = \<lparr>cand_NodeID = node_ID node, cand_Provider = node_Provider node,
               cand_ASN = node_ASN node, cand_Endpoint = endpoint\<rparr>, sc_score = score endpoint observation\<rparr>], retryAt)))"

definition collect ::
  "(string \<rightharpoonup> Observation) \<Rightarrow> time \<Rightarrow> Options \<Rightarrow> Node list \<Rightarrow> scoredCandidate list \<times> time" where
  "collect observations now options nodes =
    fold (\<lambda>node acc. fold (collect_endpoint observations now options node) (node_Endpoints node) acc) nodes ([], zero_time)"

definition activeLess :: "scoredCandidate \<Rightarrow> scoredCandidate \<Rightarrow> bool" where
  "activeLess a b \<longleftrightarrow>
    (if sc_score a = sc_score b then ep_ID (cand_Endpoint (sc_candidate a)) < ep_ID (cand_Endpoint (sc_candidate b))
     else sc_score a < sc_score b)"

text \<open>A scan of \<open>mostDiverse\<close>: the first index within the score window that meets the condition.\<close>

fun scan_window :: "uint64 \<Rightarrow> (Candidate \<Rightarrow> bool) \<Rightarrow> nat \<Rightarrow> scoredCandidate list \<Rightarrow> nat option" where
  "scan_window maximumScore ok' index [] = None"
| "scan_window maximumScore ok' index (item # rest) =
    (if sc_score item > maximumScore then None
     else if ok' (sc_candidate item) then Some index
     else scan_window maximumScore ok' (index + 1) rest)"

definition mostDiverse :: "scoredCandidate list \<Rightarrow> string list \<Rightarrow> uint32 list \<Rightarrow> nat" where
  "mostDiverse candidates seenProviders seenASNs =
    (let maximumScore = sc_score (hd candidates) + 10000 in
     case scan_window maximumScore
       (\<lambda>s. cand_Provider s \<notin> set seenProviders \<and> cand_ASN s \<notin> set seenASNs) 0 candidates of
       Some index \<Rightarrow> index
     | None \<Rightarrow>
         (case scan_window maximumScore
            (\<lambda>s. cand_Provider s \<notin> set seenProviders \<or> cand_ASN s \<notin> set seenASNs) 0 candidates of
            Some index \<Rightarrow> index
          | None \<Rightarrow> 0))"

lemma scan_window_Some:
  "scan_window m P k xs = Some i \<Longrightarrow> k \<le> i \<and> i < k + length xs \<and> P (sc_candidate (xs ! (i - k))) \<and>
     (\<forall>j \<le> i - k. sc_score (xs ! j) \<le> m) \<and> (\<forall>j < i - k. \<not> P (sc_candidate (xs ! j)))"
proof (induction xs arbitrary: k)
  case (Cons x xs)
  show ?case
  proof (cases "P (sc_candidate x)")
    case True
    with Cons.prems show ?thesis by (auto split: if_split_asm)
  next
    case False
    with Cons.prems have x: "sc_score x \<le> m" and s: "scan_window m P (k + 1) xs = Some i"
      by (auto split: if_split_asm)
    note ih = Cons.IH [OF s]
    then obtain d where d: "i = Suc k + d" using le_Suc_ex [of "Suc k" i] by auto
    have "\<forall>j \<le> Suc d. sc_score ((x # xs) ! j) \<le> m" "\<forall>j < Suc d. \<not> P (sc_candidate ((x # xs) ! j))"
      using ih x False d by (auto simp: nth_Cons split: nat.split)
    with ih d show ?thesis by simp
  qed
qed simp

lemma scan_window_None:
  assumes "scan_window m P k xs = None" "j < length xs" "\<forall>i \<le> j. sc_score (xs ! i) \<le> m"
  shows "\<not> P (sc_candidate (xs ! j))"
  using assms
proof (induction xs arbitrary: k j)
  case (Cons x xs)
  have "sc_score x \<le> m" using Cons.prems(3) by (metis le0 nth_Cons_0)
  then have x: "\<not> P (sc_candidate x)" "scan_window m P (k + 1) xs = None"
    using Cons.prems(1) by (auto split: if_split_asm)
  show ?case
  proof (cases j)
    case (Suc i)
    have "\<forall>l \<le> i. sc_score (xs ! l) \<le> m" using Cons.prems(3) Suc by (metis Suc_le_mono nth_Cons_Suc)
    then show ?thesis using Cons.IH [OF x(2), of i] Cons.prems(2) Suc by simp
  qed (use x in simp)
qed simp

lemma mostDiverse_less: "candidates \<noteq> [] \<Longrightarrow> mostDiverse candidates ps as < length candidates"
  by (auto simp: mostDiverse_def Let_def split: option.split dest: scan_window_Some)

text \<open>The selecting loop; \<open>result\<close> is kept in order.\<close>

function select_loop ::
  "int \<Rightarrow> scoredCandidate list \<Rightarrow> Candidate list \<Rightarrow> string list \<Rightarrow> uint32 list \<Rightarrow> Candidate list" where
  "select_loop maxCandidates active result seenProviders seenASNs =
    (if active \<noteq> [] \<and> int (length result) < maxCandidates then
       (let index = mostDiverse active seenProviders seenASNs;
            selected = sc_candidate (active ! index)
        in select_loop maxCandidates (take index active @ drop (index + 1) active) (result @ [selected])
             (cand_Provider selected # seenProviders) (cand_ASN selected # seenASNs))
     else result)"
  by auto
termination
proof (relation "measure (\<lambda>(_, active, _). length active)", goal_cases)
  case (2 maxCandidates active result ps as index selected)
  then show ?case using mostDiverse_less [of active ps as] by auto
qed simp

definition Rank ::
  "crypto \<Rightarrow> Document \<Rightarrow> (string \<rightharpoonup> Observation) \<Rightarrow> time \<Rightarrow> Options \<Rightarrow> rank_error + Plan" where
  "Rank c document observations now options =
    (case Validate c document of
       Some e \<Rightarrow> Inl (RankDocument e)
     | None \<Rightarrow>
         (let maxCandidates = (if opt_MaxCandidates options = 0 then defaultMaxCandidates else opt_MaxCandidates options)
          in if maxCandidates < 1 \<or> maxCandidates > 16 then Inl MaxCandidatesRange
             else case collect observations now options (doc_Nodes document) of
               (active, retryAt) \<Rightarrow>
                 Inr \<lparr>plan_Candidates = select_loop maxCandidates (sort_slice activeLess active) [] [] [],
                   plan_RetryAt = retryAt\<rparr>))"

subsection \<open>Cooldown and probes\<close>

lemma unat_less_Suc: "x < n \<Longrightarrow> unat (x + 1) = Suc (unat x)" for x n :: "'a::len word"
  by (rule unat_Suc_word) (metis not_less word_n1_ge)

definition cooldownBounds :: "FailureClass \<Rightarrow> (duration \<times> duration) option" where
  "cooldownBounds class =
    (if class = FailureDNS then Some (5 * second, 2 * minute)
     else if class = FailureHandshake then Some (15 * second, 10 * minute)
     else if class = FailureTransfer then Some (30 * second, 15 * minute)
     else if class = FailureSuspected then Some (2 * minute, 30 * minute)
     else if class = FailureAllowlist then Some (15 * minute, 6 * hour)
     else None)"

function cooldown_loop :: "uint16 \<Rightarrow> duration \<Rightarrow> uint16 \<Rightarrow> duration \<Rightarrow> duration" where
  "cooldown_loop consecutiveFailures capDuration counter delay =
    (if counter < consecutiveFailures \<and> delay < capDuration then
       (if delay > capDuration div 2 then capDuration
        else cooldown_loop consecutiveFailures capDuration (counter + 1) (delay * 2))
     else if delay > capDuration then capDuration else delay)"
  by auto
termination
proof (relation "measure (\<lambda>(n, _, counter, _). unat n - unat counter)", goal_cases)
  case (2 n cap counter delay)
  then have "unat counter < unat n" "unat (counter + 1) = Suc (unat counter)"
    using unat_less_Suc by (auto simp: word_less_nat_alt)
  then show ?case by simp
qed simp

text \<open>\<open>None\<close> is the error for an unknown class.\<close>

definition Cooldown :: "FailureClass \<Rightarrow> uint16 \<Rightarrow> duration option" where
  "Cooldown class consecutiveFailures =
    (case cooldownBounds class of
       None \<Rightarrow> None
     | Some (base, capDuration) \<Rightarrow>
         if consecutiveFailures = 0 then Some 0
         else Some (cooldown_loop consecutiveFailures capDuration 1 base))"

definition minimumVerifiedTransferBytes :: uint64 where
  "minimumVerifiedTransferBytes = 64 * 1024"

record ProbeEvidence =
  pe_Resolved :: bool
  pe_AllowedWitnessReachable :: bool
  pe_EndpointReachable :: bool
  pe_HandshakeComplete :: bool
  pe_ProtectedDNSResolved :: bool
  pe_TunnelRouteConfirmed :: bool
  pe_UploadedBytes :: uint64
  pe_DownloadedBytes :: uint64

definition ClassifyProbe :: "ProbeEvidence \<Rightarrow> FailureClass" where
  "ClassifyProbe evidence =
    (if \<not> pe_Resolved evidence then FailureDNS
     else if \<not> pe_EndpointReachable evidence then
       (if pe_AllowedWitnessReachable evidence then FailureAllowlist else FailureHandshake)
     else if \<not> pe_HandshakeComplete evidence then FailureHandshake
     else if \<not> pe_ProtectedDNSResolved evidence \<or> \<not> pe_TunnelRouteConfirmed evidence \<or>
       pe_UploadedBytes evidence < minimumVerifiedTransferBytes \<or>
       pe_DownloadedBytes evidence < minimumVerifiedTransferBytes
     then FailureTransfer
     else FailureNone)"

definition ProbeHealthy :: "ProbeEvidence \<Rightarrow> bool" where
  "ProbeHealthy evidence \<longleftrightarrow> ClassifyProbe evidence = FailureNone"

subsection \<open>Facts\<close>

declare select_loop.simps [simp del] cooldown_loop.simps [simp del]

lemma cooldown_loop_closed:
  assumes "0 < delay" "delay \<le> cap" "counter \<le> n"
  shows "cooldown_loop n cap counter delay = min (delay * 2 ^ (unat n - unat counter)) cap"
  using assms
proof (induction n cap counter delay rule: cooldown_loop.induct)
  case (1 n cap counter delay)
  show ?case
  proof (cases "counter < n \<and> delay < cap")
    case False
    have "delay * 1 \<le> delay * 2 ^ (unat n - unat counter)"
      using 1(2) by (intro mult_left_mono) auto
    moreover have "counter = n \<or> delay = cap" using False 1(3,4) by auto
    ultimately show ?thesis
      using 1(3) False by (subst cooldown_loop.simps) auto
  next
    case True
    then have lt: "unat counter < unat n" by (simp add: word_less_nat_alt)
    have suc: "unat (counter + 1) = unat counter + 1" using True unat_less_Suc by auto
    then have le: "counter + 1 \<le> n" using lt by (simp add: word_le_nat_alt)
    have pow: "delay * 2 ^ (unat n - unat counter) = (delay * 2) * 2 ^ (unat n - unat (counter + 1))"
      using lt suc by (simp add: Suc_diff_Suc flip: power_Suc)
    show ?thesis
    proof (cases "delay > cap div 2")
      case half: True
      have "delay * 2 * 1 \<le> delay * 2 * 2 ^ (unat n - unat (counter + 1))"
        using 1(2) by (intro mult_left_mono) auto
      then have "cap \<le> delay * 2 ^ (unat n - unat counter)" unfolding pow using half by linarith
      then show ?thesis using True half by (subst cooldown_loop.simps) simp
    next
      case half: False
      then have "delay * 2 \<le> cap" by linarith
      then show ?thesis
        using True half 1(1) [OF True half _ _ le] 1(2) by (subst cooldown_loop.simps) (simp add: pow)
    qed
  qed
qed

text \<open>The endpoints in the order of the loops, and what one of them contributes.\<close>

definition endpoints_of :: "Node list \<Rightarrow> (Node \<times> Endpoint) list" where
  "endpoints_of nodes = concat (map (\<lambda>n. map (Pair n) (node_Endpoints n)) nodes)"

definition usable :: "Options \<Rightarrow> Endpoint \<Rightarrow> bool" where
  "usable options e \<longleftrightarrow> ep_Transport e = TransportAmneziaWG \<longrightarrow> opt_UDPAvailable options"

definition cooling :: "(string \<rightharpoonup> Observation) \<Rightarrow> time \<Rightarrow> Endpoint \<Rightarrow> bool" where
  "cooling observations now e \<longleftrightarrow> now < obs_CooldownUntil (observe observations (ep_ID e))"

definition candidate_of :: "Node \<times> Endpoint \<Rightarrow> Candidate" where
  "candidate_of ne = \<lparr>cand_NodeID = node_ID (fst ne), cand_Provider = node_Provider (fst ne),
     cand_ASN = node_ASN (fst ne), cand_Endpoint = snd ne\<rparr>"

definition score_of :: "(string \<rightharpoonup> Observation) \<Rightarrow> Candidate \<Rightarrow> nat" where
  "score_of observations x = unat (score (cand_Endpoint x) (observe observations (ep_ID (cand_Endpoint x))))"

definition eligible :: "(string \<rightharpoonup> Observation) \<Rightarrow> time \<Rightarrow> Options \<Rightarrow> Node list \<Rightarrow> (Node \<times> Endpoint) list" where
  "eligible observations now options nodes =
    filter (\<lambda>(n, e). usable options e \<and> \<not> cooling observations now e) (endpoints_of nodes)"

definition waiting :: "(string \<rightharpoonup> Observation) \<Rightarrow> time \<Rightarrow> Options \<Rightarrow> Node list \<Rightarrow> time list" where
  "waiting observations now options nodes =
    map (\<lambda>(n, e). obs_CooldownUntil (observe observations (ep_ID e)))
      (filter (\<lambda>(n, e). usable options e \<and> cooling observations now e) (endpoints_of nodes))"

definition sooner :: "time \<Rightarrow> time \<Rightarrow> time" where
  "sooner t retryAt = (if is_zero retryAt \<or> t < retryAt then t else retryAt)"

definition scored :: "(string \<rightharpoonup> Observation) \<Rightarrow> Node \<times> Endpoint \<Rightarrow> scoredCandidate" where
  "scored observations ne = \<lparr>sc_candidate = candidate_of ne,
     sc_score = score (snd ne) (observe observations (ep_ID (snd ne)))\<rparr>"

lemma collect_endpoint_eq:
  "collect_endpoint observations now options n e (active, t) =
    (active @ (if usable options e \<and> \<not> cooling observations now e then [scored observations (n, e)] else []),
     if usable options e \<and> cooling observations now e
     then sooner (obs_CooldownUntil (observe observations (ep_ID e))) t else t)"
  by (simp add: collect_endpoint_def Let_def usable_def cooling_def sooner_def scored_def candidate_of_def)

lemma collect_pairs:
  "fold (\<lambda>(n, e). collect_endpoint observations now options n e) ps (active, t) =
    (active @ map (scored observations) (filter (\<lambda>(n, e). usable options e \<and> \<not> cooling observations now e) ps),
     fold sooner (map (\<lambda>(n, e). obs_CooldownUntil (observe observations (ep_ID e)))
       (filter (\<lambda>(n, e). usable options e \<and> cooling observations now e) ps)) t)"
  by (induction ps arbitrary: active t) (auto simp: collect_endpoint_eq split: if_splits)

lemma collect_eq:
  "collect observations now options nodes =
    (map (scored observations) (eligible observations now options nodes),
     fold sooner (waiting observations now options nodes) zero_time)"
proof -
  have "fold (\<lambda>node acc. fold (collect_endpoint observations now options node) (node_Endpoints node) acc) nodes acc =
      fold (\<lambda>(n, e). collect_endpoint observations now options n e) (endpoints_of nodes) acc" for acc
    by (induction nodes arbitrary: acc) (simp_all add: endpoints_of_def fold_map comp_def)
  then show ?thesis
    by (simp add: collect_def collect_pairs eligible_def waiting_def)
qed

lemma fold_sooner:
  assumes "\<forall>t \<in> set ts. zero_time < t" "r = zero_time \<or> zero_time < r"
  shows "fold sooner ts r = (if r = zero_time then if ts = [] then zero_time else Min (set ts) else Min (insert r (set ts)))"
  using assms
proof (induction ts arbitrary: r)
  case (Cons t ts)
  have Min: "Min (insert (min t r) A) = Min (insert r (insert t A))" if "finite A" for A
    using that by (cases "A = {}") (simp_all add: min.commute min.left_commute)
  have "sooner t r = (if r = zero_time then t else min t r)" by (auto simp: sooner_def is_zero_def)
  moreover have "zero_time < (if r = zero_time then t else min t r)" using Cons.prems by auto
  ultimately show ?case
    using Cons.IH [of "sooner t r"] Cons.prems Min [of "set ts"] by auto
qed auto

lemma score_value:
  "unat (score e ob) = (let s = unat (ep_Priority e) * 1000 + unat (obs_ConsecutiveFailures ob) * 100000
     in if obs_TransferVerified ob \<and> \<not> is_zero (obs_LastSuccess ob) \<and> s \<ge> 100 then s - 100 else s)"
  "unat (score e ob) \<le> 7000000000"
proof -
  let ?s = "ucast (ep_Priority e) * 1000 + ucast (obs_ConsecutiveFailures ob) * 100000 :: uint64"
  have p: "unat (ep_Priority e) < 65536" "unat (obs_ConsecutiveFailures ob) < 65536"
    using unsigned_less [where 'a = nat, of "ep_Priority e"] unsigned_less [where 'a = nat, of "obs_ConsecutiveFailures ob"]
    by simp_all
  have s: "unat ?s = unat (ep_Priority e) * 1000 + unat (obs_ConsecutiveFailures ob) * 100000"
    using p by (simp add: unat_word_ariths unsigned_ucast_eq take_bit_nat_eq_self [of _ 64])
  then show v: "unat (score e ob) = (let s = unat (ep_Priority e) * 1000 + unat (obs_ConsecutiveFailures ob) * 100000
     in if obs_TransferVerified ob \<and> \<not> is_zero (obs_LastSuccess ob) \<and> s \<ge> 100 then s - 100 else s)"
    by (simp add: score_def Let_def word_le_nat_alt unat_sub)
  show "unat (score e ob) \<le> 7000000000" unfolding v Let_def using p by auto
qed

interpretation active_order: slice_order activeLess "\<lambda>a. (sc_score a, ep_ID (cand_Endpoint (sc_candidate a)))"
  by unfold_locales (auto simp: activeLess_def less_prod_def)

definition bounded :: "scoredCandidate list \<Rightarrow> bool" where
  "bounded xs \<longleftrightarrow> sorted (map sc_score xs) \<and> (\<forall>x \<in> set xs. unat (sc_score x) \<le> 7000000000)"

lemma mostDiverse_window:
  assumes "bounded xs" "xs \<noteq> []" "y \<in> set xs"
  shows "unat (sc_score (xs ! mostDiverse xs ps as)) \<le> unat (sc_score y) + 10000"
proof -
  have hd: "sc_score (hd xs) \<le> sc_score y"
    using assms by (cases xs) (auto simp: bounded_def)
  have "unat (sc_score (hd xs) + 10000) = unat (sc_score (hd xs)) + 10000"
    using assms(1,2) by (cases xs) (auto simp: bounded_def unat_word_ariths)
  moreover have "sc_score (xs ! mostDiverse xs ps as) \<le> sc_score (hd xs) + 10000 \<or> mostDiverse xs ps as = 0"
    by (auto simp: mostDiverse_def Let_def split: option.split dest!: scan_window_Some)
  ultimately show ?thesis
    using hd assms(2) by (auto simp: word_le_nat_alt hd_conv_nth)
qed

lemma sorted_remove:
  assumes "sorted (ys :: 'a::linorder list)"
  shows "sorted (take i ys @ drop (Suc i) ys)"
proof -
  have "sorted (take i ys @ drop i ys)" using assms by simp
  moreover have "set (drop (Suc i) ys) \<subseteq> set (drop i ys)" by (rule set_drop_subset_set_drop) simp
  ultimately show ?thesis
    unfolding sorted_append using sorted_wrt_drop [OF assms, of "Suc i"] by blast
qed

lemma bounded_remove: "bounded xs \<Longrightarrow> bounded (take i xs @ drop (i + 1) xs)"
  using sorted_remove [of "map sc_score xs" i]
  by (auto simp: bounded_def take_map drop_map dest: in_set_takeD in_set_dropD)

lemma mset_remove: "i < length xs \<Longrightarrow> mset xs = add_mset (xs ! i) (mset (take i xs @ drop (i + 1) xs))"
  by (metis Suc_eq_plus1 append_take_drop_id Cons_nth_drop_Suc mset_append mset.simps(2) union_mset_add_mset_right)

lemma select_loop_spec:
  assumes "bounded active"
  shows "\<exists>picks rest. select_loop m active result ps as = result @ map sc_candidate picks \<and>
    mset active = mset picks + mset rest \<and> (rest = [] \<or> m \<le> int (length result + length picks)) \<and>
    (picks = [] \<or> int (length result + length picks) \<le> m) \<and>
    sorted_wrt (\<lambda>x y. unat (sc_score x) \<le> unat (sc_score y) + 10000) picks \<and>
    (\<forall>x \<in> set picks. \<forall>y \<in> set rest. unat (sc_score x) \<le> unat (sc_score y) + 10000)"
  using assms
proof (induction m active result ps as rule: select_loop.induct)
  case (1 m active result ps as)
  show ?case
  proof (cases "active \<noteq> [] \<and> int (length result) < m")
    case False
    then have "select_loop m active result ps as = result @ map sc_candidate []"
      by (subst select_loop.simps) auto
    moreover have "active = [] \<or> m \<le> int (length result + length [])" using False by auto
    ultimately show ?thesis by (intro exI [of _ "[]"] exI [of _ active]) auto
  next
    case True
    let ?i = "mostDiverse active ps as"
    let ?rest = "take ?i active @ drop (?i + 1) active"
    let ?sel = "sc_candidate (active ! ?i)"
    have i: "?i < length active" using True mostDiverse_less by blast
    obtain picks rest where IH: "select_loop m ?rest (result @ [?sel]) (cand_Provider ?sel # ps) (cand_ASN ?sel # as) =
        (result @ [?sel]) @ map sc_candidate picks" "mset ?rest = mset picks + mset rest"
      "rest = [] \<or> m \<le> int (length (result @ [?sel]) + length picks)"
      "picks = [] \<or> int (length (result @ [?sel]) + length picks) \<le> m"
      "sorted_wrt (\<lambda>x y. unat (sc_score x) \<le> unat (sc_score y) + 10000) picks"
      "\<forall>x \<in> set picks. \<forall>y \<in> set rest. unat (sc_score x) \<le> unat (sc_score y) + 10000"
      using 1(1) [OF True refl refl bounded_remove [OF 1(2)]] by blast
    have ms: "mset active = mset ((active ! ?i) # picks) + mset rest"
      using mset_remove [OF i] IH(2) by simp
    have sub: "set picks \<subseteq> set active" "set rest \<subseteq> set active"
      using ms by (metis set_mset_mset set_mset_union Un_upper1 Un_upper2 list.set_intros(2) subset_eq, metis set_mset_mset set_mset_union Un_upper2)
    have win: "unat (sc_score (active ! ?i)) \<le> unat (sc_score y) + 10000" if "y \<in> set active" for y
      using mostDiverse_window [OF 1(2) _ that] True by blast
    have "select_loop m active result ps as = result @ map sc_candidate ((active ! ?i) # picks)"
      using True IH(1) by (subst select_loop.simps) (simp add: Let_def)
    then show ?thesis
      using ms IH(3-6) win sub True by (intro exI [of _ "(active ! ?i) # picks"] exI [of _ rest]) auto
  qed
qed

text \<open>A successful \<open>Rank\<close>, in terms of the eligible endpoints.\<close>

definition max_of :: "Options \<Rightarrow> int" where
  "max_of options = (if opt_MaxCandidates options = 0 then defaultMaxCandidates else opt_MaxCandidates options)"

lemma Rank_Inr:
  assumes "Rank c document observations now options = Inr plan"
  shows "catalog_spec (doc_Discovery document) (doc_Nodes document)" "1 \<le> max_of options" "max_of options \<le> 16"
    and "plan = \<lparr>plan_Candidates = select_loop (max_of options)
        (sort_slice activeLess (map (scored observations) (eligible observations now options (doc_Nodes document)))) [] [] [],
      plan_RetryAt = fold sooner (waiting observations now options (doc_Nodes document)) zero_time\<rparr>"
proof -
  have V: "Validate c document = None" using assms by (auto simp: Rank_def split: option.split_asm)
  then show "catalog_spec (doc_Discovery document) (doc_Nodes document)" by (rule Validate_None(8))
  show "1 \<le> max_of options" "max_of options \<le> 16"
    "plan = \<lparr>plan_Candidates = select_loop (max_of options)
        (sort_slice activeLess (map (scored observations) (eligible observations now options (doc_Nodes document)))) [] [] [],
      plan_RetryAt = fold sooner (waiting observations now options (doc_Nodes document)) zero_time\<rparr>"
    using assms V by (simp_all add: Rank_def Let_def max_of_def [symmetric] collect_eq split: if_split_asm)
qed

lemma sorted_fst: "sorted (map (\<lambda>a. (f a, g a)) xs) \<Longrightarrow> sorted (map f xs)"
  for f :: "'a \<Rightarrow> 'b::linorder" and g :: "'a \<Rightarrow> 'c::linorder"
  by (induction xs) (auto simp: less_eq_prod_def)

lemma Rank_picks:
  assumes "Rank c document observations now options = Inr plan"
  defines "el \<equiv> map candidate_of (eligible observations now options (doc_Nodes document))"
  obtains rest where "mset el = mset (plan_Candidates plan) + mset rest"
    and "int (length (plan_Candidates plan)) = min (max_of options) (int (length el))"
    and "sorted_wrt (\<lambda>x y. score_of observations x \<le> score_of observations y + 10000) (plan_Candidates plan)"
    and "\<forall>x \<in> set (plan_Candidates plan). \<forall>y \<in> set rest. score_of observations x \<le> score_of observations y + 10000"
proof -
  note R = Rank_Inr [OF assms(1)]
  let ?el = "eligible observations now options (doc_Nodes document)"
  let ?xs = "sort_slice activeLess (map (scored observations) ?el)"
  have "bounded ?xs"
    using sorted_fst [OF active_order.sorted_sort_slice [of "map (scored observations) ?el"]] score_value(2)
    by (auto simp: bounded_def scored_def)
  from select_loop_spec [OF this, of "max_of options" "[]" "[]" "[]"]
  obtain ps rs where sel: "select_loop (max_of options) ?xs [] [] [] = map sc_candidate ps"
    "mset ?xs = mset ps + mset rs" "rs = [] \<or> max_of options \<le> int (length ps)"
    "ps = [] \<or> int (length ps) \<le> max_of options"
    "sorted_wrt (\<lambda>x y. unat (sc_score x) \<le> unat (sc_score y) + 10000) ps"
    "\<forall>x \<in> set ps. \<forall>y \<in> set rs. unat (sc_score x) \<le> unat (sc_score y) + 10000"
    by auto
  have plan: "plan_Candidates plan = map sc_candidate ps" using R(4) sel(1) by simp
  have sc: "unat (sc_score x) = score_of observations (sc_candidate x)" if "x \<in> set ps \<union> set rs" for x
  proof -
    have "x \<in> set_mset (mset ?xs)" using that sel(2) by auto
    then show ?thesis by (auto simp: scored_def score_of_def candidate_of_def)
  qed
  have len: "length ?el = length ps + length rs"
    using arg_cong [OF sel(2), of size] by simp
  show thesis
  proof (rule that)
    have "image_mset sc_candidate (mset (map (scored observations) ?el)) = image_mset sc_candidate (mset ps + mset rs)"
      using sel(2) by simp
    then show "mset el = mset (plan_Candidates plan) + mset (map sc_candidate rs)"
      by (simp add: plan el_def image_mset.compositionality comp_def scored_def)
    show "int (length (plan_Candidates plan)) = min (max_of options) (int (length el))"
      using sel(3,4) len R(2) by (auto simp: plan el_def)
    have "sorted_wrt (\<lambda>x y. score_of observations (sc_candidate x) \<le> score_of observations (sc_candidate y) + 10000) ps"
      using sc by (intro sorted_wrt_mono_rel [OF _ sel(5)]) auto
    then show "sorted_wrt (\<lambda>x y. score_of observations x \<le> score_of observations y + 10000) (plan_Candidates plan)"
      by (simp add: plan sorted_wrt_map)
    show "\<forall>x \<in> set (plan_Candidates plan). \<forall>y \<in> set (map sc_candidate rs).
        score_of observations x \<le> score_of observations y + 10000"
      using sel(6) sc by (auto simp: plan)
  qed
qed

lemma eligible_ids:
  assumes "catalog_spec ds nodes"
  shows "distinct (map (\<lambda>x. ep_ID (cand_Endpoint x)) (map candidate_of (eligible observations now options nodes)))"
proof -
  have "map snd (endpoints_of nodes) = concat (map node_Endpoints nodes)"
    by (simp add: endpoints_of_def map_concat comp_def)
  then have "map (\<lambda>ne. ep_ID (snd ne)) (endpoints_of nodes) = map ep_ID (concat (map node_Endpoints nodes))"
    by (metis (no_types, lifting) map_eq_conv map_map comp_apply)
  then have "distinct (map (\<lambda>ne. ep_ID (snd ne)) (endpoints_of nodes))"
    using assms unfolding catalog_spec_def by presburger
  from distinct_map_filter [OF this] show ?thesis
    by (simp add: eligible_def candidate_of_def comp_def)
qed

text \<open>\<open>Cooldown\<close> in closed form.\<close>

lemma cooldownBounds_Some:
  assumes "cooldownBounds class = Some (base, cap)"
  shows "5 * second \<le> base" "base \<le> cap" "cap \<le> 6 * hour" "0 < base"
  using assms by (auto simp: cooldownBounds_def duration_defs split: if_split_asm)

lemma Cooldown_closed:
  "Cooldown class n = map_option (\<lambda>(base, cap). if n = 0 then 0 else min (base * 2 ^ (unat n - 1)) cap) (cooldownBounds class)"
proof (cases "cooldownBounds class")
  case (Some bc)
  obtain base cap where bc: "bc = (base, cap)" by (cases bc)
  note b = cooldownBounds_Some [OF Some [unfolded bc]]
  have "cooldown_loop n cap 1 base = min (base * 2 ^ (unat n - 1)) cap" if "n \<noteq> 0"
    using cooldown_loop_closed [OF b(4,2), of 1 n] that by (simp add: word_le_nat_alt unat_gt_0 Suc_le_eq)
  then show ?thesis by (simp add: Cooldown_def Some bc)
qed (simp add: Cooldown_def)

text \<open>The candidates within the score window of \<open>mostDiverse\<close>, and how much variety one adds.\<close>

definition window :: "scoredCandidate list \<Rightarrow> scoredCandidate set" where
  "window xs = {x \<in> set xs. unat (sc_score x) \<le> unat (sc_score (hd xs)) + 10000}"

definition novelty :: "string list \<Rightarrow> uint32 list \<Rightarrow> scoredCandidate \<Rightarrow> nat" where
  "novelty ps as x = of_bool (cand_Provider (sc_candidate x) \<notin> set ps) + of_bool (cand_ASN (sc_candidate x) \<notin> set as)"

lemma window_nth:
  assumes "bounded xs" "x \<in> window xs"
  obtains j where "j < length xs" "x = xs ! j" "\<forall>i \<le> j. sc_score (xs ! i) \<le> sc_score (hd xs) + 10000"
proof -
  obtain j where j: "j < length xs" "x = xs ! j" using assms(2) by (auto simp: window_def in_set_conv_nth)
  have m: "unat (sc_score (hd xs) + 10000) = unat (sc_score (hd xs)) + 10000"
    using assms(1) j(1) by (cases xs) (auto simp: bounded_def unat_word_ariths)
  have "sc_score (xs ! i) \<le> sc_score (hd xs) + 10000" if "i \<le> j" for i
  proof -
    have "sc_score (xs ! i) \<le> sc_score x"
      using sorted_nth_mono [of "map sc_score xs" i j] assms(1) that j by (simp add: bounded_def)
    moreover have "sc_score x \<le> sc_score (hd xs) + 10000"
      using assms(2) m by (simp add: window_def word_le_nat_alt)
    ultimately show ?thesis by (rule order_trans)
  qed
  with j that show thesis by blast
qed

lemma scan_window_found:
  assumes "bounded xs" "xs \<noteq> []" "scan_window (sc_score (hd xs) + 10000) P 0 xs = Some i"
  shows "xs ! i \<in> window xs" "P (sc_candidate (xs ! i))"
proof -
  have m: "unat (sc_score (hd xs) + 10000) = unat (sc_score (hd xs)) + 10000"
    using assms(1,2) by (cases xs) (auto simp: bounded_def unat_word_ariths)
  note s = scan_window_Some [OF assms(3)]
  then have "sc_score (xs ! i) \<le> sc_score (hd xs) + 10000" by simp
  with s m show "xs ! i \<in> window xs" "P (sc_candidate (xs ! i))"
    by (simp_all add: window_def word_le_nat_alt)
qed

lemma scan_window_missing:
  assumes "bounded xs" "scan_window (sc_score (hd xs) + 10000) P 0 xs = None" "x \<in> window xs"
  shows "\<not> P (sc_candidate x)"
  by (rule window_nth [OF assms(1,3)]) (use scan_window_None [OF assms(2)] in blast)

lemma mostDiverse_novelty:
  assumes "bounded xs" "xs \<noteq> []"
  shows "xs ! mostDiverse xs ps as \<in> window xs \<and>
    (\<forall>x \<in> window xs. novelty ps as x \<le> novelty ps as (xs ! mostDiverse xs ps as))"
proof -
  let ?both = "\<lambda>s. cand_Provider s \<notin> set ps \<and> cand_ASN s \<notin> set as"
  let ?one = "\<lambda>s. cand_Provider s \<notin> set ps \<or> cand_ASN s \<notin> set as"
  let ?m = "sc_score (hd xs) + 10000"
  show ?thesis
  proof (cases "scan_window ?m ?both 0 xs")
    case (Some i)
    note f = scan_window_found [OF assms Some]
    have "novelty ps as x \<le> 2" for x by (simp add: novelty_def)
    then show ?thesis using f Some by (simp add: mostDiverse_def novelty_def)
  next
    case both: None
    have le1: "novelty ps as x \<le> 1" if "x \<in> window xs" for x
      using scan_window_missing [OF assms(1) both that] by (auto simp: novelty_def)
    show ?thesis
    proof (cases "scan_window ?m ?one 0 xs")
      case (Some i)
      note f = scan_window_found [OF assms Some]
      have "1 \<le> novelty ps as (xs ! i)" using f(2) by (auto simp: novelty_def)
      with f(1) le1 both Some show ?thesis by (fastforce simp: mostDiverse_def)
    next
      case None
      have "novelty ps as x = 0" if "x \<in> window xs" for x
        using scan_window_missing [OF assms(1) None that] by (auto simp: novelty_def)
      moreover have "xs ! 0 \<in> window xs" using assms(2) by (simp add: window_def hd_conv_nth)
      ultimately show ?thesis using both None by (simp add: mostDiverse_def)
    qed
  qed
qed

subsection \<open>A sample plan\<close>

definition sample_doc :: Document where
  "sample_doc = issuedDocument (sample_catalog 1) 1 sample_policy (1000 * second) (10 * minute)"

definition sample_opts :: Options where
  "sample_opts = \<lparr>opt_UDPAvailable = True, opt_MaxCandidates = 0\<rparr>"

lemma sample_nodes: "doc_Nodes sample_doc = cat_Nodes (sample_catalog 1)"
  by (simp add: sample_doc_def issuedDocument_def sample_catalog_def canonicalNodes_def sort_slice_def)

lemma sample_eligible:
  "eligible (\<lambda>_. None) 0 sample_opts (doc_Nodes sample_doc) = map (Pair (hd (doc_Nodes sample_doc))) (node_Endpoints (hd (doc_Nodes sample_doc)))"
  by (simp add: eligible_def endpoints_of_def sample_nodes sample_catalog_def usable_def sample_opts_def cooling_def
      observe_def zero_Observation_def zero_time_def)

lemma sample_rank: "\<exists>plan. Rank sample_crypto sample_doc observations now sample_opts = Inr plan"
  using sample_document_valid [of 1 "1000 * second"]
  by (auto simp: Rank_def sample_doc_def sample_opts_def Let_def defaultMaxCandidates_def split: prod.split)

subsection \<open>Properties\<close>

text \<open>
  C21. A plan holds distinct endpoints of the document that are usable and out of cooldown, as
  many as the limit (at most sixteen) allows: when there is room, every such endpoint is in it.
\<close>
theorem Rank_plan:
  assumes "Rank c document observations now options = Inr plan"
  shows "set (plan_Candidates plan) \<subseteq> set (map candidate_of (eligible observations now options (doc_Nodes document))) \<and>
    distinct (map (\<lambda>x. ep_ID (cand_Endpoint x)) (plan_Candidates plan)) \<and> length (plan_Candidates plan) \<le> 16 \<and>
    int (length (plan_Candidates plan)) =
      min (max_of options) (int (length (eligible observations now options (doc_Nodes document))))"
proof -
  obtain rest where ms: "mset (map candidate_of (eligible observations now options (doc_Nodes document))) =
      mset (plan_Candidates plan) + mset rest"
    and len: "int (length (plan_Candidates plan)) =
      min (max_of options) (int (length (map candidate_of (eligible observations now options (doc_Nodes document)))))"
    by (rule Rank_picks [OF assms]) blast
  have "distinct (map (\<lambda>x. ep_ID (cand_Endpoint x)) (plan_Candidates plan @ rest))"
    using eligible_ids [OF Rank_Inr(1) [OF assms], of observations now options] ms
    by (metis mset_append mset_eq_imp_distinct_iff mset_map)
  moreover have "set (plan_Candidates plan) \<subseteq> set (map candidate_of (eligible observations now options (doc_Nodes document)))"
    using ms by (metis set_mset_mset set_mset_union Un_upper1)
  ultimately show ?thesis using len Rank_Inr(3) [OF assms] by simp
qed

theorem Rank_plan_witness:
  "\<exists>plan. Rank sample_crypto sample_doc (\<lambda>_. None) 0 sample_opts = Inr plan \<and> length (plan_Candidates plan) = 1"
proof -
  obtain plan where plan: "Rank sample_crypto sample_doc (\<lambda>_. None) 0 sample_opts = Inr plan" using sample_rank by blast
  have "length (eligible (\<lambda>_. None) 0 sample_opts (doc_Nodes sample_doc)) = 1"
    unfolding sample_eligible by (simp add: sample_nodes sample_catalog_def)
  with Rank_plan [OF plan] have "length (plan_Candidates plan) = 1"
    by (simp add: max_of_def sample_opts_def defaultMaxCandidates_def)
  with plan show ?thesis by blast
qed

text \<open>
  C22. Diversity never costs health: nothing is placed before a candidate, or taken instead of
  an eligible endpoint, that is more than 10000 points better.
\<close>
theorem Rank_health:
  assumes "Rank c document observations now options = Inr plan"
  shows "sorted_wrt (\<lambda>x y. score_of observations x \<le> score_of observations y + 10000) (plan_Candidates plan) \<and>
    (\<forall>x \<in> set (plan_Candidates plan). \<forall>y \<in> set (map candidate_of (eligible observations now options (doc_Nodes document))).
       y \<notin> set (plan_Candidates plan) \<longrightarrow> score_of observations x \<le> score_of observations y + 10000)"
proof -
  obtain rest where ms: "mset (map candidate_of (eligible observations now options (doc_Nodes document))) =
      mset (plan_Candidates plan) + mset rest"
    and s: "sorted_wrt (\<lambda>x y. score_of observations x \<le> score_of observations y + 10000) (plan_Candidates plan)"
      "\<forall>x \<in> set (plan_Candidates plan). \<forall>y \<in> set rest. score_of observations x \<le> score_of observations y + 10000"
    by (rule Rank_picks [OF assms]) blast
  have "set (map candidate_of (eligible observations now options (doc_Nodes document))) =
      set (plan_Candidates plan) \<union> set rest"
    using ms by (metis set_mset_mset set_mset_union)
  with s show ?thesis by blast
qed

theorem Rank_health_witness:
  "\<exists>plan. Rank sample_crypto sample_doc (\<lambda>_. None) 0 sample_opts = Inr plan \<and>
    sorted_wrt (\<lambda>x y. score_of (\<lambda>_. None) x \<le> score_of (\<lambda>_. None) y + 10000) (plan_Candidates plan)"
proof -
  obtain plan where plan: "Rank sample_crypto sample_doc (\<lambda>_. None) 0 sample_opts = Inr plan" using sample_rank by blast
  with Rank_health [OF plan] show ?thesis by blast
qed

text \<open>
  C23. The retry time of a plan is the earliest end of a cooldown among the usable endpoints
  that were skipped for it, later than now, and the zero time when there is none.
\<close>
theorem Rank_retry:
  assumes "Rank c document observations now options = Inr plan" and "zero_time \<le> now"
  shows "plan_RetryAt plan = (if waiting observations now options (doc_Nodes document) = [] then zero_time
      else Min (set (waiting observations now options (doc_Nodes document)))) \<and>
    (waiting observations now options (doc_Nodes document) \<noteq> [] \<longrightarrow> now < plan_RetryAt plan)"
proof -
  let ?w = "waiting observations now options (doc_Nodes document)"
  have later: "\<forall>t \<in> set ?w. now < t" by (auto simp: waiting_def cooling_def)
  then have "\<forall>t \<in> set ?w. zero_time < t" using assms(2) by auto
  from fold_sooner [OF this, of zero_time] later show ?thesis
    using Rank_Inr(4) [OF assms(1)] by simp
qed

theorem Rank_retry_witness:
  "\<exists>plan. Rank sample_crypto sample_doc [''e'' \<mapsto> zero_Observation\<lparr>obs_CooldownUntil := 5\<rparr>] 0 sample_opts = Inr plan \<and>
    plan_RetryAt plan = 5"
proof -
  let ?o = "[''e'' \<mapsto> zero_Observation\<lparr>obs_CooldownUntil := 5\<rparr>]"
  obtain plan where plan: "Rank sample_crypto sample_doc ?o 0 sample_opts = Inr plan" using sample_rank by blast
  have "waiting ?o 0 sample_opts (doc_Nodes sample_doc) = [5]"
    by (simp add: waiting_def endpoints_of_def sample_nodes sample_catalog_def usable_def sample_opts_def cooling_def
        observe_def zero_Observation_def)
  with Rank_retry [OF plan] have "plan_RetryAt plan = 5" by (simp add: zero_time_def)
  with plan show ?thesis by blast
qed

text \<open>A failed probe always gets a cooldown, between five seconds and six hours.\<close>

lemma ClassifyProbe_cooldown:
  "(ProbeHealthy evidence \<longleftrightarrow> pe_Resolved evidence \<and> pe_EndpointReachable evidence \<and> pe_HandshakeComplete evidence \<and>
     pe_ProtectedDNSResolved evidence \<and> pe_TunnelRouteConfirmed evidence \<and> 65536 \<le> unat (pe_UploadedBytes evidence) \<and>
     65536 \<le> unat (pe_DownloadedBytes evidence)) \<and>
   (ProbeHealthy evidence \<or> (\<exists>d. Cooldown (ClassifyProbe evidence) n = Some d \<and>
     (if n = 0 then d = 0 else 5 * second \<le> d \<and> d \<le> 6 * hour)))"
proof -
  have bounds: "(if n = 0 then d = 0 else 5 * second \<le> d \<and> d \<le> 6 * hour)" if "Cooldown cl n = Some d" for cl d
  proof -
    obtain base cap where bc: "cooldownBounds cl = Some (base, cap)"
      and d: "d = (if n = 0 then 0 else min (base * 2 ^ (unat n - 1)) cap)"
      using \<open>Cooldown cl n = Some d\<close> unfolding Cooldown_closed by auto
    note b = cooldownBounds_Some [OF bc]
    have "base * 1 \<le> base * 2 ^ (unat n - 1)" using b(4) by (intro mult_left_mono) auto
    with b(1) have "5 * second \<le> base * 2 ^ (unat n - 1)" by linarith
    then show ?thesis using b(1-3) d by (simp add: min_def)
  qed
  have "ProbeHealthy evidence \<or> cooldownBounds (ClassifyProbe evidence) \<noteq> None"
    by (simp add: ProbeHealthy_def ClassifyProbe_def cooldownBounds_def)
  then have "ProbeHealthy evidence \<or> (\<exists>d. Cooldown (ClassifyProbe evidence) n = Some d)"
    unfolding Cooldown_closed by auto
  moreover have "ProbeHealthy evidence \<longleftrightarrow> pe_Resolved evidence \<and> pe_EndpointReachable evidence \<and>
      pe_HandshakeComplete evidence \<and> pe_ProtectedDNSResolved evidence \<and> pe_TunnelRouteConfirmed evidence \<and>
      65536 \<le> unat (pe_UploadedBytes evidence) \<and> 65536 \<le> unat (pe_DownloadedBytes evidence)"
    by (auto simp: ProbeHealthy_def ClassifyProbe_def failure_classes minimumVerifiedTransferBytes_def word_less_nat_alt
        not_less split: if_split_asm)
  ultimately show ?thesis using bounds by blast
qed

end
