(* ===== verification/VpnNode.thy ===== *)
theory VpnNode
  imports Complex_Main GoNet
begin

text \<open>
  \<open>internal/vpnnode\<close> and \<open>internal/providers/timeweb\<close>: the observations of a VPN node, their
  validators, the validators of the provisioning boundary, and the Timeweb node that only
  hands out observations that pass them. The lemmas characterise each validator by the values
  it accepts.

  A \<open>float64\<close> is a special value or a finite number; only comparisons are used of it.
  \<open>netip.Addr\<close> is the zero value or the bytes and the zone.
\<close>

subsection \<open>Data\<close>

type_synonym Transport = string

definition AmneziaWG :: Transport where "AmneziaWG = ''amneziawg''"
definition XRayReality :: Transport where "XRayReality = ''xray_reality''"

type_synonym NodeState = string

definition StateReady :: NodeState where "StateReady = ''READY''"
definition StateDegraded :: NodeState where "StateDegraded = ''DEGRADED''"
definition StateDown :: NodeState where "StateDown = ''DOWN''"

lemmas node_states = StateReady_def StateDegraded_def StateDown_def

record TransportHealth =
  th_Transport :: Transport
  th_Up :: bool

record Health =
  he_State :: NodeState
  he_Transports :: "TransportHealth list"
  he_ObservedAt :: time

record Listener =
  li_Network :: string
  li_Address :: string
  li_Port :: uint16
  li_Owner :: string
  li_Public :: bool

record Workload =
  wl_Name :: string
  wl_Image :: string
  wl_Runtime :: string
  wl_State :: string
  wl_RestartPolicy :: string

record Inventory =
  inv_OS :: string
  inv_Kernel :: string
  inv_Listeners :: "Listener list"
  inv_Workloads :: "Workload list"
  inv_ObservedAt :: time

datatype float64 = NaN | PosInf | NegInf | Finite rat

record Metrics =
  me_CPUPercent :: float64
  me_MemoryTotalBytes :: uint64
  me_MemoryUsedBytes :: uint64
  me_NetworkRXBytes :: uint64
  me_NetworkTXBytes :: uint64
  me_ActiveConnectionCount :: "uint64 option"
  me_ConfigRevision :: string
  me_ObservedAt :: time

datatype node_error =
    InvalidIdentifier string
  | UnsupportedTransport Transport
  | CapabilitiesCount
  | DuplicateTransport Transport
  | InvalidNodeState NodeState
  | HealthTimeRequired
  | TransportHealthCount
  | DuplicateTransportHealth Transport
  | ReadyRequiresUp
  | DegradedRequiresBoth
  | DownRequiresDown
  | InventoryTimeRequired
  | InventoryNamesRequired
  | InventoryBounds
  | ListenerNetwork string
  | ListenerIncomplete
  | WorkloadIncomplete
  | MetricsTimeRequired
  | CPURange
  | MemoryInvalid
  | ConfigRevisionLong

subsection \<open>The validators of a node\<close>

definition node_lower_digit :: "(nat \<times> nat) list" where
  "node_lower_digit = [(0x61, 0x7A), (0x30, 0x39)]"

definition identifierPattern :: rx where
  "identifierPattern = Seq (Cls node_lower_digit) (Upto (Cls (node_lower_digit @ [(0x2D, 0x2D)])) 62)"

definition ValidateID :: "string \<Rightarrow> node_error option" where
  "ValidateID value' = (if \<not> match_string identifierPattern value' then Some (InvalidIdentifier value') else None)"

definition ValidateTransport :: "Transport \<Rightarrow> node_error option" where
  "ValidateTransport value' =
    (if value' = AmneziaWG \<or> value' = XRayReality then None
     else Some (UnsupportedTransport value'))"

fun checkCapabilities :: "Transport list \<Rightarrow> Transport list \<Rightarrow> node_error option" where
  "checkCapabilities seen [] = None"
| "checkCapabilities seen (v # rest) =
    (case ValidateTransport v of
       Some err \<Rightarrow> Some err
     | None \<Rightarrow> if v \<in> set seen then Some (DuplicateTransport v) else checkCapabilities (v # seen) rest)"

definition ValidateCapabilities :: "Transport list \<Rightarrow> node_error option" where
  "ValidateCapabilities values =
    (if values = [] \<or> 8 < length values then Some CapabilitiesCount else checkCapabilities [] values)"

definition transportLess :: "Transport \<Rightarrow> Transport \<Rightarrow> bool" where
  "transportLess a b \<longleftrightarrow> a < b"

definition CanonicalCapabilities :: "Transport list \<Rightarrow> node_error + Transport list" where
  "CanonicalCapabilities values =
    (case ValidateCapabilities values of
       Some err \<Rightarrow> Inl err
     | None \<Rightarrow> Inr (sort_slice transportLess values))"

fun countUp :: "Transport list \<Rightarrow> int \<Rightarrow> TransportHealth list \<Rightarrow> node_error + int" where
  "countUp seen upCount [] = Inr upCount"
| "countUp seen upCount (t # rest) =
    (case ValidateTransport (th_Transport t) of
       Some err \<Rightarrow> Inl err
     | None \<Rightarrow>
         if th_Transport t \<in> set seen then Inl (DuplicateTransportHealth (th_Transport t))
         else countUp (th_Transport t # seen) (if th_Up t then upCount + 1 else upCount) rest)"

definition ValidateHealth :: "Health \<Rightarrow> node_error option" where
  "ValidateHealth value' =
    (if \<not> (he_State value' = StateReady \<or> he_State value' = StateDegraded \<or> he_State value' = StateDown)
     then Some (InvalidNodeState (he_State value'))
     else if is_zero (he_ObservedAt value') then Some HealthTimeRequired
     else if he_Transports value' = [] \<or> 8 < length (he_Transports value') then Some TransportHealthCount
     else
       case countUp [] 0 (he_Transports value') of
         Inl err \<Rightarrow> Some err
       | Inr upCount \<Rightarrow>
           let n = int (length (he_Transports value')) in
           if he_State value' = StateReady \<and> upCount \<noteq> n then Some ReadyRequiresUp
           else if he_State value' = StateDegraded \<and> (upCount = 0 \<or> upCount = n) then Some DegradedRequiresBoth
           else if he_State value' = StateDown \<and> upCount \<noteq> 0 then Some DownRequiresDown
           else None)"

fun checkListeners :: "Listener list \<Rightarrow> node_error option" where
  "checkListeners [] = None"
| "checkListeners (l # rest) =
    (if li_Network l \<noteq> ''tcp'' \<and> li_Network l \<noteq> ''udp'' then Some (ListenerNetwork (li_Network l))
     else if li_Port l = 0 \<or> li_Owner l = '''' \<or> ParseIP (li_Address l) = None then Some ListenerIncomplete
     else checkListeners rest)"

fun checkWorkloads :: "Workload list \<Rightarrow> node_error option" where
  "checkWorkloads [] = None"
| "checkWorkloads (w # rest) =
    (if wl_Name w = '''' \<or> wl_Runtime w = '''' \<or> wl_State w = '''' then Some WorkloadIncomplete
     else checkWorkloads rest)"

definition ValidateInventory :: "Inventory \<Rightarrow> node_error option" where
  "ValidateInventory value' =
    (if is_zero (inv_ObservedAt value') then Some InventoryTimeRequired
     else if inv_OS value' = '''' \<or> inv_Kernel value' = '''' then Some InventoryNamesRequired
     else if 256 < length (inv_Listeners value') \<or> 256 < length (inv_Workloads value') then Some InventoryBounds
     else case checkListeners (inv_Listeners value') of
       Some err \<Rightarrow> Some err
     | None \<Rightarrow> checkWorkloads (inv_Workloads value'))"

fun is_nan :: "float64 \<Rightarrow> bool" where
  "is_nan NaN \<longleftrightarrow> True" | "is_nan _ \<longleftrightarrow> False"

fun is_inf :: "float64 \<Rightarrow> bool" where
  "is_inf PosInf \<longleftrightarrow> True" | "is_inf NegInf \<longleftrightarrow> True" | "is_inf _ \<longleftrightarrow> False"

fun float_less :: "float64 \<Rightarrow> float64 \<Rightarrow> bool" where
  "float_less NaN _ \<longleftrightarrow> False"
| "float_less _ NaN \<longleftrightarrow> False"
| "float_less NegInf b \<longleftrightarrow> b \<noteq> NegInf"
| "float_less PosInf b \<longleftrightarrow> False"
| "float_less (Finite x) PosInf \<longleftrightarrow> True"
| "float_less (Finite x) NegInf \<longleftrightarrow> False"
| "float_less (Finite x) (Finite y) \<longleftrightarrow> x < y"

definition ValidateMetrics :: "Metrics \<Rightarrow> node_error option" where
  "ValidateMetrics value' =
    (if is_zero (me_ObservedAt value') then Some MetricsTimeRequired
     else if is_nan (me_CPUPercent value') \<or> is_inf (me_CPUPercent value') \<or>
       float_less (me_CPUPercent value') (Finite 0) \<or> float_less (Finite 100) (me_CPUPercent value') then Some CPURange
     else if me_MemoryTotalBytes value' = 0 \<or> me_MemoryTotalBytes value' < me_MemoryUsedBytes value'
     then Some MemoryInvalid
     else if 128 < length (me_ConfigRevision value') then Some ConfigRevisionLong
     else None)"

subsection \<open>The provisioning boundary\<close>

record CreateNodeInput =
  cn_Region :: string
  cn_SSHPublicKeyReference :: string
  cn_Labels :: "(string \<times> string) list"

type_synonym ProvisioningStatus = string

definition ProvisioningPending :: ProvisioningStatus where "ProvisioningPending = ''pending''"
definition ProvisioningReady :: ProvisioningStatus where "ProvisioningReady = ''ready''"
definition ProvisioningFailed :: ProvisioningStatus where "ProvisioningFailed = ''failed''"

record NodeRecord =
  nr_ID :: string
  nr_Provider :: string
  nr_Region :: string
  nr_Status :: ProvisioningStatus

record PublicIP =
  pip_ID :: string
  pip_Address :: "(nat list \<times> string) option"

datatype provider_error =
    InvalidRegion string
  | SSHReferenceLength
  | TooManyLabels
  | InvalidLabel
  | RecordID node_error
  | ProviderRegionInvalid
  | InvalidProvisioningStatus ProvisioningStatus
  | PublicIPInvalid
  | Unsupported string

definition nodeRegionPattern :: rx where
  "nodeRegionPattern = Seq (Cls node_lower_digit) (Upto (Cls (node_lower_digit @ [(0x2D, 0x2D)])) 62)"

definition ValidateCreateNodeInput :: "CreateNodeInput \<Rightarrow> provider_error option" where
  "ValidateCreateNodeInput input =
    (if \<not> match_string nodeRegionPattern (cn_Region input) then Some (InvalidRegion (cn_Region input))
     else if cn_SSHPublicKeyReference input = '''' \<or> 256 < length (cn_SSHPublicKeyReference input)
     then Some SSHReferenceLength
     else if 32 < length (cn_Labels input) then Some TooManyLabels
     else if list_ex (\<lambda>(key, v). \<not> match_string identifierPattern key \<or> v = '''' \<or> 128 < length v) (cn_Labels input)
     then Some InvalidLabel
     else None)"

definition ValidateNodeRecord :: "NodeRecord \<Rightarrow> provider_error option" where
  "ValidateNodeRecord record' =
    (case ValidateID (nr_ID record') of
       Some err \<Rightarrow> Some (RecordID err)
     | None \<Rightarrow>
         if nr_Provider record' = '''' \<or> 64 < length (nr_Provider record') \<or>
           \<not> match_string nodeRegionPattern (nr_Region record') then Some ProviderRegionInvalid
         else if nr_Status record' = ProvisioningPending \<or> nr_Status record' = ProvisioningReady \<or>
           nr_Status record' = ProvisioningFailed then None
         else Some (InvalidProvisioningStatus (nr_Status record')))"

text \<open>
  The predicates of \<open>netip.Addr\<close>. An IPv4-mapped IPv6 address is classified as the IPv4
  address it holds, except by \<open>IsUnspecified\<close>, which compares with the two zero addresses.
\<close>

definition unmap :: "nat list \<Rightarrow> nat list" where
  "unmap ip = (if length ip = 16 \<and> take 12 ip = replicate 10 0 @ [255, 255] then drop 12 ip else ip)"

definition IsUnspecified :: "nat list \<times> string \<Rightarrow> bool" where
  "IsUnspecified a \<longleftrightarrow> a = (replicate 4 0, '''') \<or> a = (replicate 16 0, '''')"

definition IsPrivate :: "nat list \<times> string \<Rightarrow> bool" where
  "IsPrivate a \<longleftrightarrow>
    (let ip = unmap (fst a) in
     if length ip = 4 then
       ip ! 0 = 10 \<or> (ip ! 0 = 172 \<and> 16 \<le> ip ! 1 \<and> ip ! 1 < 32) \<or> (ip ! 0 = 192 \<and> ip ! 1 = 168)
     else length ip = 16 \<and> 0xFC \<le> ip ! 0 \<and> ip ! 0 < 0xFE)"

definition IsLoopback :: "nat list \<times> string \<Rightarrow> bool" where
  "IsLoopback a \<longleftrightarrow>
    (let ip = unmap (fst a) in
     if length ip = 4 then ip ! 0 = 127 else ip = replicate 15 0 @ [1])"

definition IsLinkLocalUnicast :: "nat list \<times> string \<Rightarrow> bool" where
  "IsLinkLocalUnicast a \<longleftrightarrow>
    (let ip = unmap (fst a) in
     if length ip = 4 then ip ! 0 = 169 \<and> ip ! 1 = 254
     else length ip = 16 \<and> ip ! 0 = 0xFE \<and> 0x80 \<le> ip ! 1 \<and> ip ! 1 < 0xC0)"

definition ValidatePublicIP :: "PublicIP \<Rightarrow> provider_error option" where
  "ValidatePublicIP value' =
    (if pip_ID value' = '''' \<or> 128 < length (pip_ID value') then Some PublicIPInvalid
     else case pip_Address value' of
       None \<Rightarrow> Some PublicIPInvalid
     | Some a \<Rightarrow>
         if IsUnspecified a \<or> IsPrivate a \<or> IsLoopback a \<or> IsLinkLocalUnicast a then Some PublicIPInvalid else None)"

subsection \<open>The Timeweb node and provider\<close>

definition ProviderName :: string where "ProviderName = ''timeweb-cloud''"

record 'e Observer =
  ob_Health :: "string \<Rightarrow> 'e + Health"
  ob_Capabilities :: "string \<Rightarrow> 'e + Transport list"
  ob_Inventory :: "string \<Rightarrow> 'e + Inventory"
  ob_Metrics :: "string \<Rightarrow> 'e + Metrics"

record 'e TimewebNode =
  tn_id :: string
  tn_observer :: "'e Observer"

datatype 'e timeweb_error =
    NodeIDInvalid node_error
  | ObserverRequired
  | Observe 'e
  | InvalidObservation node_error

definition NewNode :: "string \<Rightarrow> 'e Observer option \<Rightarrow> 'e timeweb_error + 'e TimewebNode" where
  "NewNode i observer =
    (case ValidateID i of
       Some err \<Rightarrow> Inl (NodeIDInvalid err)
     | None \<Rightarrow> (case observer of
           None \<Rightarrow> Inl ObserverRequired
         | Some ob \<Rightarrow> Inr \<lparr>tn_id = i, tn_observer = ob\<rparr>))"

definition Node_Health :: "'e TimewebNode \<Rightarrow> 'e timeweb_error + Health" where
  "Node_Health node =
    (case ob_Health (tn_observer node) (tn_id node) of
       Inl err \<Rightarrow> Inl (Observe err)
     | Inr v \<Rightarrow> (case ValidateHealth v of Some err \<Rightarrow> Inl (InvalidObservation err) | None \<Rightarrow> Inr v))"

definition Node_Capabilities :: "'e TimewebNode \<Rightarrow> 'e timeweb_error + Transport list" where
  "Node_Capabilities node =
    (case ob_Capabilities (tn_observer node) (tn_id node) of
       Inl err \<Rightarrow> Inl (Observe err)
     | Inr vs \<Rightarrow> (case CanonicalCapabilities vs of Inl err \<Rightarrow> Inl (InvalidObservation err) | Inr cs \<Rightarrow> Inr cs))"

definition Node_Inventory :: "'e TimewebNode \<Rightarrow> 'e timeweb_error + Inventory" where
  "Node_Inventory node =
    (case ob_Inventory (tn_observer node) (tn_id node) of
       Inl err \<Rightarrow> Inl (Observe err)
     | Inr v \<Rightarrow> (case ValidateInventory v of Some err \<Rightarrow> Inl (InvalidObservation err) | None \<Rightarrow> Inr v))"

definition Node_Metrics :: "'e TimewebNode \<Rightarrow> 'e timeweb_error + Metrics" where
  "Node_Metrics node =
    (case ob_Metrics (tn_observer node) (tn_id node) of
       Inl err \<Rightarrow> Inl (Observe err)
     | Inr v \<Rightarrow> (case ValidateMetrics v of Some err \<Rightarrow> Inl (InvalidObservation err) | None \<Rightarrow> Inr v))"

definition CreateNode :: "CreateNodeInput \<Rightarrow> provider_error + NodeRecord" where
  "CreateNode input = Inl (Unsupported ''create node'')"

definition DeleteNode :: "string \<Rightarrow> provider_error option" where
  "DeleteNode i = Some (Unsupported ''delete node'')"

definition GetNode :: "string \<Rightarrow> provider_error + NodeRecord" where
  "GetNode i = Inl (Unsupported ''get node'')"

definition AttachPublicIP :: "string \<Rightarrow> provider_error + PublicIP" where
  "AttachPublicIP i = Inl (Unsupported ''attach public IP'')"

definition DetachPublicIP :: "string \<Rightarrow> string \<Rightarrow> provider_error option" where
  "DetachPublicIP i ip = Some (Unsupported ''detach public IP'')"

subsection \<open>What the validators accept\<close>

interpretation transport_order: slice_order transportLess "\<lambda>t. t"
  by unfold_locales (simp add: transportLess_def)

lemma ValidateTransport_None:
  "ValidateTransport t = None \<longleftrightarrow> t \<in> {AmneziaWG, XRayReality}"
  by (simp add: ValidateTransport_def)

lemma checkCapabilities_None:
  "checkCapabilities seen ts = None \<longleftrightarrow>
     set ts \<subseteq> {AmneziaWG, XRayReality} \<and> distinct ts \<and> set ts \<inter> set seen = {}"
proof (induction ts arbitrary: seen)
  case (Cons t ts)
  then show ?case
    by (cases "t \<in> {AmneziaWG, XRayReality}") (auto simp: ValidateTransport_def)
qed simp

lemma countUp_ok:
  "countUp seen n ts = Inr m \<longleftrightarrow>
     th_Transport ` set ts \<subseteq> {AmneziaWG, XRayReality} \<and> distinct (map th_Transport ts) \<and>
     th_Transport ` set ts \<inter> set seen = {} \<and> m = n + int (length (filter th_Up ts))"
proof (induction ts arbitrary: seen n)
  case (Cons t ts)
  then show ?case
    by (cases "th_Transport t \<in> {AmneziaWG, XRayReality}") (auto simp: ValidateTransport_def)
qed auto

lemma countUp_iff:
  "(\<exists>m. countUp [] 0 ts = Inr m) \<longleftrightarrow>
     th_Transport ` set ts \<subseteq> {AmneziaWG, XRayReality} \<and> distinct (map th_Transport ts)"
  by (simp add: countUp_ok)

lemma two_transports:
  assumes "th_Transport ` set ts \<subseteq> {AmneziaWG, XRayReality}" "distinct (map th_Transport ts)"
  shows "length ts \<le> 2"
proof -
  have "card (set (map th_Transport ts)) \<le> card {AmneziaWG, XRayReality}"
    by (rule card_mono) (use assms(1) in auto)
  also have "\<dots> \<le> 2" by (simp add: card_insert_if)
  finally show ?thesis using distinct_card [OF assms(2)] by simp
qed

definition implied_state :: "TransportHealth list \<Rightarrow> NodeState" where
  "implied_state ts =
    (if list_all th_Up ts then StateReady else if list_ex th_Up ts then StateDegraded else StateDown)"

lemma filter_up_all: "length (filter th_Up ts) = length ts \<longleftrightarrow> list_all th_Up ts"
  by (metis filter_True length_filter_less list_all_iff nat_neq_iff)

lemma filter_up_none: "length (filter th_Up ts) = 0 \<longleftrightarrow> \<not> list_ex th_Up ts"
  by (simp add: filter_empty_conv list_ex_iff)

text \<open>
  C32. A health report is accepted exactly when it is dated, lists each known transport at most
  once and at least one of them, and carries the one state the transports imply: ready when all
  are up, down when none is, degraded otherwise.
\<close>

theorem ValidateHealth_iff:
  "ValidateHealth h = None \<longleftrightarrow>
     \<not> is_zero (he_ObservedAt h) \<and> he_Transports h \<noteq> [] \<and>
     th_Transport ` set (he_Transports h) \<subseteq> {AmneziaWG, XRayReality} \<and>
     distinct (map th_Transport (he_Transports h)) \<and>
     he_State h = implied_state (he_Transports h)"
proof (cases "\<exists>m. countUp [] 0 (he_Transports h) = Inr m")
  case False
  then obtain e where "countUp [] 0 (he_Transports h) = Inl e" by (metis sum.exhaust)
  then show ?thesis using False unfolding countUp_iff by (simp add: ValidateHealth_def) blast
next
  case True
  let ?n = "length (filter th_Up (he_Transports h))"
  have known: "th_Transport ` set (he_Transports h) \<subseteq> {AmneziaWG, XRayReality}"
    "distinct (map th_Transport (he_Transports h))" using True unfolding countUp_iff by blast+
  have count': "countUp [] 0 (he_Transports h) = Inr (int ?n)" using known by (simp add: countUp_ok)
  have len: "\<not> 8 < length (he_Transports h)" using two_transports [OF known] by simp
  have all: "int ?n = int (length (he_Transports h)) \<longleftrightarrow> list_all th_Up (he_Transports h)"
    using filter_up_all by simp
  have none: "int ?n = 0 \<longleftrightarrow> \<not> list_ex th_Up (he_Transports h)"
    using filter_up_none [of "he_Transports h"] by simp
  have some: "he_Transports h \<noteq> [] \<Longrightarrow> list_all th_Up (he_Transports h) \<Longrightarrow> list_ex th_Up (he_Transports h)"
    by (cases "he_Transports h") auto
  show ?thesis
    unfolding ValidateHealth_def count' sum.case Let_def all none implied_state_def
    using known len some by (auto simp: node_states)
qed

lemma CanonicalCapabilities_ok:
  "CanonicalCapabilities vs = Inr cs \<longleftrightarrow>
     vs \<noteq> [] \<and> set vs \<subseteq> {AmneziaWG, XRayReality} \<and> distinct vs \<and> length vs \<le> 8 \<and>
     cs = sort_slice transportLess vs"
  using checkCapabilities_None [of "[]" vs]
  by (auto simp: CanonicalCapabilities_def ValidateCapabilities_def split: if_splits option.splits)

lemma capabilities_order:
  assumes "CanonicalCapabilities vs = Inr cs" and "mset ws = mset vs"
  shows "CanonicalCapabilities ws = Inr cs"
  using assms mset_eq_imp_distinct_iff [OF assms(2)] mset_eq_setD [OF assms(2)] mset_eq_length [OF assms(2)]
    transport_order.sort_slice_perm [of vs ws]
  by (auto simp: CanonicalCapabilities_ok)

lemma ValidateMetrics_None:
  "ValidateMetrics m = None \<longleftrightarrow>
     \<not> is_zero (me_ObservedAt m) \<and> (\<exists>x. me_CPUPercent m = Finite x \<and> 0 \<le> x \<and> x \<le> 100) \<and>
     me_MemoryTotalBytes m \<noteq> 0 \<and> me_MemoryUsedBytes m \<le> me_MemoryTotalBytes m \<and>
     length (me_ConfigRevision m) \<le> 128"
  by (cases "me_CPUPercent m") (auto simp: ValidateMetrics_def not_less split: if_splits)

lemma Node_observations:
  "Node_Health node = Inr h \<Longrightarrow> ValidateHealth h = None"
  "Node_Inventory node = Inr i \<Longrightarrow> ValidateInventory i = None"
  "Node_Metrics node = Inr m \<Longrightarrow> ValidateMetrics m = None"
  "Node_Capabilities node = Inr cs \<Longrightarrow> distinct cs \<and> sorted cs \<and> cs \<noteq> []"
  using transport_order.sorted_sort_slice distinct_map_sort_slice [of "\<lambda>t. t"]
  by (auto simp: Node_Health_def Node_Inventory_def Node_Metrics_def Node_Capabilities_def
      CanonicalCapabilities_ok split: result_splits)

end
