(* ===== verification/GoStrings.thy ===== *)
theory GoStrings
  imports GoJsonDecode
begin

text \<open>
  More of Go's \<open>strings\<close>, \<open>unicode\<close> and \<open>encoding/hex\<close>: trimming white space, control
  characters, comparison up to case, and hexadecimal text.
\<close>

subsection \<open>White space and control characters\<close>

text \<open>
  \<open>strings.TrimSpace\<close> removes the runes with the Unicode property White\_Space at both ends.
  No rune's encoding contains the first byte of another, so cutting the string into runes from
  the front finds the same last rune as decoding from the back.
\<close>

definition is_white :: "nat \<Rightarrow> bool" where
  "is_white r \<longleftrightarrow>
    in_cls [(0x09, 0x0D), (0x20, 0x20), (0x85, 0x85), (0xA0, 0xA0), (0x1680, 0x1680), (0x2000, 0x200A),
      (0x2028, 0x2029), (0x202F, 0x202F), (0x205F, 0x205F), (0x3000, 0x3000)] r"

function rune_chunks :: "string \<Rightarrow> string list" where
  "rune_chunks [] = []"
| "rune_chunks (a # s) = (let w = snd (decode_rune (a # s)) in (a # take (w - 1) s) # rune_chunks (drop (w - 1) s))"
  by pat_completeness auto
termination by (relation "measure length") auto

definition space_chunk :: "string \<Rightarrow> bool" where
  "space_chunk c \<longleftrightarrow> is_white (fst (decode_rune c))"

definition TrimSpace :: "string \<Rightarrow> string" where
  "TrimSpace s = concat (rev (dropWhile space_chunk (rev (dropWhile space_chunk (rune_chunks s)))))"

text \<open>\<open>unicode.IsControl\<close> is the category Cc.\<close>

definition is_control :: "nat \<Rightarrow> bool" where
  "is_control r \<longleftrightarrow> r \<le> 0x1F \<or> (0x7F \<le> r \<and> r \<le> 0x9F)"

text \<open>
  \<open>strings.EqualFold\<close> against an ASCII text: the runes agree up to simple folding, and besides
  ASCII letters only the long s and the Kelvin sign fold to one.
\<close>

definition equal_fold :: "string \<Rightarrow> string \<Rightarrow> bool" where
  "equal_fold s t \<longleftrightarrow> fold_name s = fold_name t"

text \<open>
  \<open>strings.Contains(strings.ToLower(s), p)\<close> for an ASCII text \<open>p\<close> in lower case. Of the runes
  outside ASCII only the dotted capital I and the Kelvin sign have an ASCII lower case; what the
  others become cannot match.
\<close>

definition lower_rune :: "nat \<Rightarrow> nat" where
  "lower_rune r =
    (if 0x41 \<le> r \<and> r \<le> 0x5A then r + 0x20 else if r = 0x130 then 0x69 else if r = 0x212A then 0x6B else r)"

fun runes_contain :: "nat list \<Rightarrow> nat list \<Rightarrow> bool" where
  "runes_contain [] p = (p = [])"
| "runes_contain (x # xs) p = (take (length p) (x # xs) = p \<or> runes_contain xs p)"

definition lower_contains :: "string \<Rightarrow> string \<Rightarrow> bool" where
  "lower_contains s p \<longleftrightarrow> runes_contain (map lower_rune (runes s)) (map of_char p)"

subsection \<open>Hexadecimal text\<close>

definition hex_text :: "bytes \<Rightarrow> string" where
  "hex_text raw = concat (map (\<lambda>c. [hex_char (byte c div 16), hex_char (byte c mod 16)]) raw)"

lemma length_hex_text [simp]: "length (hex_text raw) = 2 * length raw"
  by (induction raw) (simp_all add: hex_text_def)

subsection \<open>Trimming a line\<close>

lemma rune_chunks_ascii: "\<forall>c \<in> set s. byte c < 0x80 \<Longrightarrow> rune_chunks s = map (\<lambda>c. [c]) s"
  by (induction s) (simp_all add: Let_def)

lemma dropWhile_none: "\<forall>x \<in> set xs. \<not> P x \<Longrightarrow> dropWhile P xs = xs"
  by (cases xs) simp_all

lemma TrimSpace_line:
  assumes "\<forall>c \<in> set s. byte c < 0x80 \<and> \<not> is_white (byte c)"
  shows "TrimSpace (s @ [CHR 0x0A]) = s"
proof -
  have chunks: "rune_chunks (s @ [CHR 0x0A]) = map (\<lambda>c. [c]) s @ [[CHR 0x0A]]"
    using rune_chunks_ascii [of "s @ [CHR 0x0A]"] assms by simp
  have s: "\<not> space_chunk [c]" if "c \<in> set s" for c
    using assms that by (simp add: space_chunk_def)
  have nl: "space_chunk [CHR 0x0A]" by (simp add: space_chunk_def is_white_def in_cls_def)
  show ?thesis
  proof (cases "s = []")
    case True
    then show ?thesis using nl by (simp add: TrimSpace_def chunks)
  next
    case False
    then have "dropWhile space_chunk (map (\<lambda>c. [c]) s @ [[CHR 0x0A]]) = map (\<lambda>c. [c]) s @ [[CHR 0x0A]]"
      using s by (cases s) simp_all
    moreover have "dropWhile space_chunk (rev (map (\<lambda>c. [c]) s)) = rev (map (\<lambda>c. [c]) s)"
      by (rule dropWhile_none) (use s in auto)
    ultimately show ?thesis using nl by (simp add: TrimSpace_def chunks)
  qed
qed

lemma TrimSpace_plain:
  assumes "\<forall>c \<in> set s. byte c < 0x80 \<and> \<not> is_white (byte c)"
  shows "TrimSpace s = s"
proof -
  have chunks: "rune_chunks s = map (\<lambda>c. [c]) s" using rune_chunks_ascii [of s] assms by simp
  have "dropWhile space_chunk xs = xs" if "set xs \<subseteq> (\<lambda>c. [c]) ` set s" for xs
    by (rule dropWhile_none) (use assms that in \<open>auto simp: space_chunk_def\<close>)
  then show ?thesis by (simp add: TrimSpace_def chunks image_subset_iff)
qed

end
