(* ===== verification/PilotAccess.thy ===== *)
theory PilotAccess
  imports VpnNode GoBase64 GoStrings
begin

text \<open>
  \<open>internal/pilotaccess\<close>: the records of manually issued VPN access, their validation, the
  service that registers and revokes them, and the Postgres store behind it.

  The service is written against the store's interface: \<open>Register\<close> and \<open>Revoke\<close> take the
  store's two operations as arguments, the locale \<open>access_store\<close> states what they promise, and
  the Postgres store is shown to be an instance. The database is its tables; a statement is a
  function from the tables to the tables or to the Postgres error its constraints raise
  (\<open>migrations/000001_initial.sql\<close>, \<open>migrations/000002_pilot_vpn_access.sql\<close>). A transaction is
  one step; every failure of the connection is an input, including a commit whose
  acknowledgement is lost. A row lock serialises two revocations of one row, so steps
  interleave only as whole transactions. Times carry whole seconds, which a \<open>timestamptz\<close>
  column stores exactly, and identifiers are canonical UUIDs, which a \<open>uuid\<close> column returns as
  they were given; the session's time zone is UTC, where \<open>interval '90 days'\<close> is 90 times 24
  hours.
\<close>

unbundle bit_operations_syntax

subsection \<open>Data\<close>

definition maximumPilotAccessLifetime :: duration where "maximumPilotAccessLifetime = 90 * 24 * hour"

definition hex_class :: "(nat \<times> nat) list" where "hex_class = [(0x30, 0x39), (0x61, 0x66)]"

definition hyphen :: rx where "hyphen = Cls [(0x2D, 0x2D)]"

definition uuidPattern :: rx where
  "uuidPattern =
    Seq (Times (Cls hex_class) 8) (Seq hyphen (Seq (Times (Cls hex_class) 4) (Seq hyphen
      (Seq (Cls [(0x31, 0x35)]) (Seq (Times (Cls hex_class) 3) (Seq hyphen
      (Seq (Cls [(0x38, 0x39), (0x61, 0x62)]) (Seq (Times (Cls hex_class) 3) (Seq hyphen
      (Times (Cls hex_class) 12))))))))))"

definition alnum_class :: "(nat \<times> nat) list" where
  "alnum_class = [(0x41, 0x5A), (0x61, 0x7A), (0x30, 0x39)]"

definition externalReferencePattern :: rx where
  "externalReferencePattern =
    Seq (Cls alnum_class)
      (Upto (Cls (alnum_class @ map (\<lambda>c. (of_char c, of_char c)) ''._:@/+-='')) 255)"

type_synonym Status = string

definition StatusActive :: Status where "StatusActive = ''active''"
definition StatusRevoked :: Status where "StatusRevoked = ''revoked''"

record Access =
  ac_ID :: string
  ac_DeviceID :: string
  ac_NodeID :: string
  ac_Transport :: Transport
  ac_ExternalReference :: string
  ac_CreatedAt :: time
  ac_ExpiresAt :: "time option"
  ac_RevokedAt :: "time option"
  ac_Status :: Status

record RegisterInput =
  ri_DeviceID :: string
  ri_NodeID :: string
  ri_Transport :: Transport
  ri_ExternalReference :: string
  ri_ExpiresAt :: "time option"

datatype access_invalid =
    IDsNotUUID
  | AccessNode node_error
  | AccessTransport node_error
  | ExternalReferenceInvalid
  | ExternalReferenceSecret
  | CreationTimeRequired
  | ExpiryRange
  | ActiveRevoked
  | RevocationTime
  | UnsupportedStatus Status
  | AccessIDInvalid
  | ReferencedInvalid

datatype pg_error = NotNullViolation | CheckViolation | UniqueViolation | ForeignKeyViolation | NoRows | ConnectionFailed

datatype access_error =
    ErrInvalid access_invalid
  | ErrNotFound
  | ErrConflict
  | GenerateID
  | StoredInvalid access_invalid
  | GenerateAuditID
  | BeginFailed
  | StatementFailed pg_error
  | AuditFailed pg_error
  | CommitFailed

subsection \<open>Identifiers and validation\<close>

text \<open>The 16 random bytes are the argument; \<open>None\<close> stands for a failing \<open>rand.Read\<close>.\<close>

definition newUUID :: "bytes option \<Rightarrow> string option" where
  "newUUID random =
    map_option (\<lambda>raw0.
      let raw1 = raw0[6 := char_of ((byte (raw0 ! 6) AND 0x0F) OR 0x40)];
          raw = raw1[8 := char_of ((byte (raw1 ! 8) AND 0x3F) OR 0x80)]
      in hex_text (take 4 raw) @ ''-'' @ hex_text (take 2 (drop 4 raw)) @ ''-'' @
         hex_text (take 2 (drop 6 raw)) @ ''-'' @ hex_text (take 2 (drop 8 raw)) @ ''-'' @
         hex_text (take 6 (drop 10 raw))) random"

text \<open>
  The other three base64 encodings. The standard alphabet differs from the URL alphabet in its
  last two characters; the padded decoders want a multiple of four characters of which at most
  the last two are \<open>=\<close>.
\<close>

definition std_to_url :: "char \<Rightarrow> char" where
  "std_to_url c = (if c = CHR ''+'' then CHR ''-'' else if c = CHR ''/'' then CHR ''_'' else c)"

definition raw_std_decode :: "string \<Rightarrow> bytes option" where
  "raw_std_decode s =
    (if CHR ''-'' \<in> set s \<or> CHR ''_'' \<in> set s then None else raw_url_decode (map std_to_url s))"

definition unpad :: "string \<Rightarrow> string option" where
  "unpad s =
    (let t = filter (\<lambda>c. \<not> is_newline c) s in
     if length t mod 4 \<noteq> 0 then None
     else if has_suffix t ''=='' then Some (take (length t - 2) t)
     else if has_suffix t ''='' then Some (take (length t - 1) t)
     else Some t)"

definition url_decode :: "string \<Rightarrow> bytes option" where
  "url_decode s = Option.bind (unpad s) raw_url_decode"

definition std_decode :: "string \<Rightarrow> bytes option" where
  "std_decode s = Option.bind (unpad s) raw_std_decode"

definition resemblesSecret :: "string \<Rightarrow> bool" where
  "resemblesSecret value' \<longleftrightarrow>
    (let lower = to_lower value' in
     contains lower ''private'' \<or> has_prefix lower ''vpn://'' \<or> has_prefix value' ''-----BEGIN'' \<or>
     list_ex (\<lambda>decode. case decode value' of None \<Rightarrow> False | Some raw \<Rightarrow> 32 \<le> length raw)
       [std_decode, raw_std_decode, url_decode, raw_url_decode])"

definition checkExpiry :: "Access \<Rightarrow> bool" where
  "checkExpiry access \<longleftrightarrow>
    (case ac_ExpiresAt access of
       None \<Rightarrow> False
     | Some e \<Rightarrow> ac_CreatedAt access < e \<and> e \<le> ac_CreatedAt access + maximumPilotAccessLifetime)"

definition checkStatus :: "Access \<Rightarrow> access_invalid option" where
  "checkStatus access =
    (if ac_Status access = StatusActive then
       (if ac_RevokedAt access \<noteq> None then Some ActiveRevoked else None)
     else if ac_Status access = StatusRevoked then
       (case ac_RevokedAt access of
          None \<Rightarrow> Some RevocationTime
        | Some r \<Rightarrow> if r < ac_CreatedAt access then Some RevocationTime else None)
     else Some (UnsupportedStatus (ac_Status access)))"

definition ValidateAccess :: "Access \<Rightarrow> access_invalid option" where
  "ValidateAccess access =
    (if \<not> match_string uuidPattern (ac_ID access) \<or> \<not> match_string uuidPattern (ac_DeviceID access)
     then Some IDsNotUUID
     else case ValidateID (ac_NodeID access) of
       Some err \<Rightarrow> Some (AccessNode err)
     | None \<Rightarrow>
     case ValidateTransport (ac_Transport access) of
       Some err \<Rightarrow> Some (AccessTransport err)
     | None \<Rightarrow>
     if \<not> match_string externalReferencePattern (ac_ExternalReference access) then Some ExternalReferenceInvalid
     else if resemblesSecret (ac_ExternalReference access) then Some ExternalReferenceSecret
     else if is_zero (ac_CreatedAt access) then Some CreationTimeRequired
     else if \<not> checkExpiry access then Some ExpiryRange
     else checkStatus access)"

definition cloneTime :: "time option \<Rightarrow> time option" where
  "cloneTime value' = map_option truncate_second value'"

subsection \<open>The service\<close>

definition registration :: "time \<Rightarrow> string \<Rightarrow> RegisterInput \<Rightarrow> Access" where
  "registration now identifier input =
    \<lparr>ac_ID = identifier, ac_DeviceID = ri_DeviceID input, ac_NodeID = ri_NodeID input,
     ac_Transport = ri_Transport input, ac_ExternalReference = ri_ExternalReference input,
     ac_CreatedAt = now, ac_ExpiresAt = cloneTime (ri_ExpiresAt input), ac_RevokedAt = None,
     ac_Status = StatusActive\<rparr>"

definition Register ::
  "(Access \<Rightarrow> 's \<Rightarrow> (access_error + Access) \<times> 's) \<Rightarrow> time \<Rightarrow> string option \<Rightarrow> RegisterInput \<Rightarrow> 's \<Rightarrow>
   (access_error + Access) \<times> 's" where
  "Register create time' newID input s =
    (case newID of
       None \<Rightarrow> (Inl GenerateID, s)
     | Some identifier \<Rightarrow>
         let access = registration (truncate_second time') identifier input in
         case ValidateAccess access of
           Some err \<Rightarrow> (Inl (ErrInvalid err), s)
         | None \<Rightarrow>
             (case create access s of
                (Inl err, s') \<Rightarrow> (Inl err, s')
              | (Inr result, s') \<Rightarrow>
                  (case ValidateAccess result of
                     Some err \<Rightarrow> (Inl (StoredInvalid err), s')
                   | None \<Rightarrow> (Inr result, s'))))"

definition Revoke ::
  "(string \<Rightarrow> time \<Rightarrow> 's \<Rightarrow> (access_error + Access) \<times> 's) \<Rightarrow> time \<Rightarrow> string \<Rightarrow> 's \<Rightarrow>
   (access_error + Access) \<times> 's" where
  "Revoke revoke time' i s =
    (if \<not> match_string uuidPattern i then (Inl (ErrInvalid AccessIDInvalid), s)
     else case revoke i (truncate_second time') s of
       (Inl err, s') \<Rightarrow> (Inl err, s')
     | (Inr result, s') \<Rightarrow>
         (case ValidateAccess result of
            Some err \<Rightarrow> (Inl (StoredInvalid err), s')
          | None \<Rightarrow> (Inr result, s')))"

subsection \<open>The tables\<close>

record audit =
  au_id :: string
  au_action :: string
  au_object :: string

record pilot_db =
  db_devices :: "(string \<times> string) list"
  db_nodes :: "string list"
  db_accesses :: "Access list"
  db_audits :: "audit list"

definition access_checks :: "Access \<Rightarrow> bool" where
  "access_checks a \<longleftrightarrow>
    (ac_Transport a = ''amneziawg'' \<or> ac_Transport a = ''xray_reality'') \<and>
    1 \<le> length (runes (ac_ExternalReference a)) \<and> length (runes (ac_ExternalReference a)) \<le> 256 \<and>
    (ac_Status a = ''active'' \<or> ac_Status a = ''revoked'') \<and>
    (\<forall>e \<in> set_option (ac_ExpiresAt a). ac_CreatedAt a < e \<and> e \<le> ac_CreatedAt a + 90 * 24 * hour) \<and>
    (\<forall>r \<in> set_option (ac_RevokedAt a). ac_CreatedAt a \<le> r) \<and>
    (ac_Status a = ''revoked'' \<longleftrightarrow> ac_RevokedAt a \<noteq> None)"

definition same_reference :: "Access \<Rightarrow> Access \<Rightarrow> bool" where
  "same_reference a b \<longleftrightarrow>
    ac_NodeID a = ac_NodeID b \<and> ac_Transport a = ac_Transport b \<and> ac_ExternalReference a = ac_ExternalReference b"

definition insert_access :: "Access \<Rightarrow> 'z pilot_db_scheme \<Rightarrow> pg_error + 'z pilot_db_scheme" where
  "insert_access a db =
    (if ac_ExpiresAt a = None then Inl NotNullViolation
     else if \<not> access_checks a then Inl CheckViolation
     else if list_ex (\<lambda>b. ac_ID b = ac_ID a \<or> same_reference b a) (db_accesses db) then Inl UniqueViolation
     else if ac_DeviceID a \<notin> fst ` set (db_devices db) \<or> ac_NodeID a \<notin> set (db_nodes db) then Inl ForeignKeyViolation
     else Inr (db\<lparr>db_accesses := db_accesses db @ [a]\<rparr>))"

definition audit_checks :: "audit \<Rightarrow> bool" where
  "audit_checks e \<longleftrightarrow> 1 \<le> length (runes (au_object e)) \<and> length (runes (au_object e)) \<le> 256"

definition insert_audit :: "audit \<Rightarrow> 'z pilot_db_scheme \<Rightarrow> pg_error + 'z pilot_db_scheme" where
  "insert_audit e db =
    (if \<not> audit_checks e then Inl CheckViolation
     else if au_id e \<in> au_id ` set (db_audits db) then Inl UniqueViolation
     else Inr (db\<lparr>db_audits := db_audits db @ [e]\<rparr>))"

definition revoked_at :: "time \<Rightarrow> Access \<Rightarrow> Access" where
  "revoked_at when a =
    a\<lparr>ac_Status := ''revoked'',
      ac_RevokedAt := Some (case ac_RevokedAt a of None \<Rightarrow> when | Some r \<Rightarrow> r)\<rparr>"

definition update_revoked :: "string \<Rightarrow> time \<Rightarrow> 'z pilot_db_scheme \<Rightarrow> pg_error + Access \<times> 'z pilot_db_scheme" where
  "update_revoked i when db =
    (case find (\<lambda>a. ac_ID a = i \<and> ac_Status a = ''active'') (db_accesses db) of
       None \<Rightarrow> Inl NoRows
     | Some a \<Rightarrow>
         if \<not> access_checks (revoked_at when a) then Inl CheckViolation
         else Inr (revoked_at when a, db\<lparr>db_accesses :=
           map (\<lambda>b. if ac_ID b = i \<and> ac_Status b = ''active'' then revoked_at when b else b) (db_accesses db)\<rparr>))"

definition select_revoked :: "string \<Rightarrow> 'z pilot_db_scheme \<Rightarrow> pg_error + Access" where
  "select_revoked i db =
    (case find (\<lambda>a. ac_ID a = i \<and> ac_Status a = ''revoked'') (db_accesses db) of
       None \<Rightarrow> Inl NoRows
     | Some a \<Rightarrow> Inr a)"

subsection \<open>The Postgres store\<close>

text \<open>
  What happens to a transaction: the audit identifier it drew, whether the connection survives
  \<open>BEGIN\<close> and each statement, and the fate of its commit.
\<close>

datatype commit = Committed | RolledBack | AcknowledgementLost

record transaction =
  tx_auditID :: "string option"
  tx_begin :: bool
  tx_row :: bool
  tx_retry :: bool
  tx_audit :: bool
  tx_commit :: commit

definition classify :: "pg_error \<Rightarrow> access_error" where
  "classify err =
    (case err of
       NoRows \<Rightarrow> ErrNotFound
     | UniqueViolation \<Rightarrow> ErrConflict
     | ForeignKeyViolation \<Rightarrow> ErrInvalid ReferencedInvalid
     | CheckViolation \<Rightarrow> ErrInvalid ReferencedInvalid
     | _ \<Rightarrow> StatementFailed err)"

definition statement :: "bool \<Rightarrow> pg_error + 'a \<Rightarrow> pg_error + 'a" where
  "statement alive r = (if alive then r else Inl ConnectionFailed)"

definition commit_result :: "commit \<Rightarrow> 'a \<Rightarrow> 's \<Rightarrow> 's \<Rightarrow> (access_error + 'a) \<times> 's" where
  "commit_result c r before after =
    (case c of
       Committed \<Rightarrow> (Inr r, after)
     | RolledBack \<Rightarrow> (Inl CommitFailed, before)
     | AcknowledgementLost \<Rightarrow> (Inl CommitFailed, after))"

definition Store_Create ::
  "transaction \<Rightarrow> Access \<Rightarrow> 'z pilot_db_scheme \<Rightarrow> (access_error + Access) \<times> 'z pilot_db_scheme" where
  "Store_Create tx access db =
    (case tx_auditID tx of
       None \<Rightarrow> (Inl GenerateAuditID, db)
     | Some auditID \<Rightarrow>
     if \<not> tx_begin tx then (Inl BeginFailed, db)
     else case statement (tx_row tx) (insert_access access db) of
       Inl err \<Rightarrow> (Inl (classify err), db)
     | Inr db1 \<Rightarrow>
     (case statement (tx_audit tx)
         (insert_audit \<lparr>au_id = auditID, au_action = ''pilot_access_registered'', au_object = ac_ID access\<rparr> db1) of
       Inl err \<Rightarrow> (Inl (AuditFailed err), db)
     | Inr db2 \<Rightarrow> commit_result (tx_commit tx) access db db2))"

definition Store_Revoke ::
  "transaction \<Rightarrow> string \<Rightarrow> time \<Rightarrow> 'z pilot_db_scheme \<Rightarrow> (access_error + Access) \<times> 'z pilot_db_scheme" where
  "Store_Revoke tx i when db =
    (case tx_auditID tx of
       None \<Rightarrow> (Inl GenerateAuditID, db)
     | Some auditID \<Rightarrow>
     if \<not> tx_begin tx then (Inl BeginFailed, db)
     else case statement (tx_row tx) (update_revoked i when db) of
       Inl err \<Rightarrow>
         (if err = NoRows then
            (case statement (tx_retry tx) (select_revoked i db) of
               Inl err' \<Rightarrow> (Inl (classify err'), db)
             | Inr result \<Rightarrow> commit_result (tx_commit tx) result db db)
          else (Inl (classify err), db))
     | Inr (result, db1) \<Rightarrow>
     (case statement (tx_audit tx)
         (insert_audit \<lparr>au_id = auditID, au_action = ''pilot_access_revoked'', au_object = ac_ID result\<rparr> db1) of
       Inl err \<Rightarrow> (Inl (AuditFailed err), db)
     | Inr db2 \<Rightarrow> commit_result (tx_commit tx) result db db2))"

subsection \<open>Identifiers\<close>

lemma times_cls_append:
  "length s = n \<Longrightarrow> list_all (\<lambda>c. in_cls rs (of_char c)) s \<Longrightarrow>
   rx_rest (Times (Cls rs) n) (map of_char s @ zs) = [zs]"
  by (induction n arbitrary: s) (auto simp: length_Suc_conv)

lemma match_uuid:
  assumes "length a = 8" "length b = 4" "length c = 3" "length d = 3" "length e = 12"
    and "list_all (\<lambda>x. in_cls hex_class (of_char x)) (a @ b @ c @ d @ e)"
    and "in_cls [(0x31, 0x35)] (of_char m)" and "in_cls [(0x38, 0x39), (0x61, 0x62)] (of_char v)"
    and "\<forall>x \<in> set (a @ b @ c @ d @ e @ [m, v]). byte x < 0x80"
  shows "match_string uuidPattern (a @ ''-'' @ b @ ''-'' @ (m # c) @ ''-'' @ (v # d) @ ''-'' @ e)"
proof -
  have "runes (a @ ''-'' @ b @ ''-'' @ (m # c) @ ''-'' @ (v # d) @ ''-'' @ e) =
    map of_char (a @ ''-'' @ b @ ''-'' @ (m # c) @ ''-'' @ (v # d) @ ''-'' @ e)"
    by (rule runes_ascii) (use assms(9) in auto)
  then show ?thesis
    using assms times_cls_append [of e 12 hex_class "[]"]
    by (simp add: match_string_def uuidPattern_def hyphen_def times_cls_append)
      (simp add: in_cls_def)
qed

lemma hex_char_hex: "n < 16 \<Longrightarrow> in_cls hex_class (of_char (hex_char n)) \<and> byte (hex_char n) < 0x80"
  by (auto simp: hex_char_def in_cls_def hex_class_def of_char_of)

lemma hex_text_hex: "x \<in> set (hex_text raw) \<Longrightarrow> in_cls hex_class (of_char x) \<and> byte x < 0x80"
proof -
  assume "x \<in> set (hex_text raw)"
  then obtain c where "x = hex_char (byte c div 16) \<or> x = hex_char (byte c mod 16)"
    by (auto simp: hex_text_def)
  moreover have "byte c div 16 < 16" using byte_bound [of c] by linarith
  ultimately show ?thesis using hex_char_hex by auto
qed

lemma version_bits:
  "((byte c AND 0x0F) OR 0x40) < 256" "((byte c AND 0x0F) OR 0x40) div 16 = 4"
  "((byte c AND 0x3F) OR 0x80) < 256" "((byte c AND 0x3F) OR 0x80) div 16 \<in> {8, 9, 10, 11}"
proof -
  have "list_all (\<lambda>n :: nat. n OR 0x40 < 256 \<and> (n OR 0x40) div 16 = 4) [0..<16]"
    by code_simp
  then have low: "\<And>n :: nat. n < 16 \<Longrightarrow> n OR 0x40 < 256 \<and> (n OR 0x40) div 16 = 4"
    unfolding list_all_iff set_upt by simp
  have "list_all (\<lambda>n :: nat. n OR 0x80 < 256 \<and> (n OR 0x80) div 16 \<in> {8, 9, 10, 11}) [0..<64]"
    by code_simp
  then have high: "\<And>n :: nat. n < 64 \<Longrightarrow> n OR 0x80 < 256 \<and> (n OR 0x80) div 16 \<in> {8, 9, 10, 11}"
    unfolding list_all_iff set_upt by simp
  have m: "byte c AND 0x0F < 16" "byte c AND 0x3F < 64"
    using take_bit_nat_less_exp [of 4 "byte c"] take_bit_nat_less_exp [of 6 "byte c"]
    by (simp_all add: take_bit_eq_mask mask_eq_exp_minus_1)
  show "((byte c AND 0x0F) OR 0x40) < 256" "((byte c AND 0x0F) OR 0x40) div 16 = 4"
    "((byte c AND 0x3F) OR 0x80) < 256" "((byte c AND 0x3F) OR 0x80) div 16 \<in> {8, 9, 10, 11}"
    using low [OF m(1)] high [OF m(2)] by blast+
qed

lemma newUUID_canonical:
  assumes "length raw = 16"
  shows "\<exists>i. newUUID (Some raw) = Some i \<and> length i = 36 \<and> match_string uuidPattern i \<and> i ! 14 = CHR ''4''"
proof -
  let ?x = "char_of ((byte (raw ! 6) AND 0x0F) OR 0x40) :: char"
  let ?y = "char_of ((byte (raw ! 8) AND 0x3F) OR 0x80) :: char"
  let ?raw = "raw[6 := ?x, 8 := ?y]"
  have raw: "take 2 (drop 6 ?raw) = [?x, raw ! 7]" "take 2 (drop 8 ?raw) = [?y, raw ! 9]"
    using assms by (simp_all add: list_eq_iff_nth_eq nth_list_update less_Suc_eq numeral_2_eq_2)
  have x: "byte ?x = (byte (raw ! 6) AND 0x0F) OR 0x40" and y: "byte ?y = (byte (raw ! 8) AND 0x3F) OR 0x80"
    by (simp_all only: of_char_of version_bits mod_less)
  let ?m = "hex_char (byte ?x div 16)" and ?v = "hex_char (byte ?y div 16)"
  let ?c = "hex_char (byte ?x mod 16) # hex_text [raw ! 7]" and ?d = "hex_char (byte ?y mod 16) # hex_text [raw ! 9]"
  let ?i = "hex_text (take 4 ?raw) @ ''-'' @ hex_text (take 2 (drop 4 ?raw)) @ ''-'' @ (?m # ?c) @ ''-'' @
    (?v # ?d) @ ''-'' @ hex_text (take 6 (drop 10 ?raw))"
  have m: "?m = CHR ''4''" unfolding x version_bits by (simp add: hex_char_def char_of_eq_iff)
  have v: "?v \<in> {CHR ''8'', CHR ''9'', CHR ''a'', CHR ''b''}"
    using version_bits(4) [of "raw ! 8"] unfolding y by (auto simp: hex_char_def char_of_eq_iff)
  have "match_string uuidPattern ?i"
  proof (rule match_uuid)
    show "list_all (\<lambda>z. in_cls hex_class (of_char z)) (hex_text (take 4 ?raw) @ hex_text (take 2 (drop 4 ?raw)) @
      ?c @ ?d @ hex_text (take 6 (drop 10 ?raw)))"
      using hex_text_hex hex_char_hex by (auto simp: list_all_iff)
    show "\<forall>z \<in> set (hex_text (take 4 ?raw) @ hex_text (take 2 (drop 4 ?raw)) @
      ?c @ ?d @ hex_text (take 6 (drop 10 ?raw)) @ [?m, ?v]). byte z < 0x80"
      using hex_text_hex hex_char_hex m v by auto
    show "in_cls [(0x31, 0x35)] (of_char ?m)" unfolding m by (simp add: in_cls_def)
    show "in_cls [(0x38, 0x39), (0x61, 0x62)] (of_char ?v)" using v by (auto simp: in_cls_def)
  qed (use assms in simp_all)
  moreover have "newUUID (Some raw) = Some ?i"
    using assms by (simp add: newUUID_def Let_def raw) (simp add: hex_text_def)
  moreover have "length ?i = 36" using assms by simp
  moreover have "?i ! 14 = CHR ''4''" using assms m by (simp add: nth_append)
  ultimately show ?thesis by blast
qed

subsection \<open>The interface of the store\<close>

datatype 't access_call =
    CallRegister 't time "string option" RegisterInput
  | CallRevoke 't time string

fun access_step ::
  "('t \<Rightarrow> Access \<Rightarrow> 's \<Rightarrow> (access_error + Access) \<times> 's) \<Rightarrow>
   ('t \<Rightarrow> string \<Rightarrow> time \<Rightarrow> 's \<Rightarrow> (access_error + Access) \<times> 's) \<Rightarrow> 't access_call \<Rightarrow> 's \<Rightarrow> 's" where
  "access_step create revoke (CallRegister tx now newID input) s = snd (Register (create tx) now newID input s)"
| "access_step create revoke (CallRevoke tx now i) s = snd (Revoke (revoke tx) now i s)"

locale access_store =
  fixes create :: "'t \<Rightarrow> Access \<Rightarrow> 's \<Rightarrow> (access_error + Access) \<times> 's"
    and revoke :: "'t \<Rightarrow> string \<Rightarrow> time \<Rightarrow> 's \<Rightarrow> (access_error + Access) \<times> 's"
    and rows :: "'s \<Rightarrow> Access list"
    and inv :: "'s \<Rightarrow> bool"
  assumes inv_valid: "inv s \<Longrightarrow> a \<in> set (rows s) \<Longrightarrow> ValidateAccess a = None"
    and create_inv: "inv s \<Longrightarrow> ValidateAccess a = None \<Longrightarrow> ac_Status a = StatusActive \<Longrightarrow> inv (snd (create tx a s))"
    and create_row: "create tx a s = (Inr b, s') \<Longrightarrow> b = a \<and> a \<in> set (rows s')"
    and create_keeps: "set (rows s) \<subseteq> set (rows (snd (create tx a s)))"
    and revoke_inv: "inv s \<Longrightarrow> inv (snd (revoke tx i w s))"
    and revoke_row: "revoke tx i w s = (Inr b, s') \<Longrightarrow>
      b \<in> set (rows s') \<and> ac_ID b = i \<and> ac_Status b = StatusRevoked"
    and revoke_keeps: "a \<in> set (rows s) \<Longrightarrow> ac_Status a = StatusRevoked \<Longrightarrow> a \<in> set (rows (snd (revoke tx i w s)))"
begin

lemma Register_state:
  "snd (Register (create tx) now newID input s) = s \<or>
   (\<exists>a. ValidateAccess a = None \<and> ac_Status a = StatusActive \<and>
      snd (Register (create tx) now newID input s) = snd (create tx a s))"
proof (cases newID)
  case (Some i)
  let ?a = "registration (truncate_second now) i input"
  have "snd (Register (create tx) now newID input s) = (if ValidateAccess ?a = None then snd (create tx ?a s) else s)"
    by (auto simp: Register_def Let_def Some split: option.splits sum.splits prod.splits)
  then show ?thesis by (cases "ValidateAccess ?a") (auto simp: registration_def)
qed (simp add: Register_def)

lemma Revoke_state:
  "snd (Revoke (revoke tx) now i s) = s \<or>
   snd (Revoke (revoke tx) now i s) = snd (revoke tx i (truncate_second now) s)"
  by (auto simp: Revoke_def split: option.splits sum.splits prod.splits)

lemma call_inv: "inv s \<Longrightarrow> inv (access_step create revoke c s)"
proof (cases c)
  case (CallRegister tx now newID input)
  show "inv s \<Longrightarrow> ?thesis"
    using Register_state [of tx now newID input s] create_inv [of s _ tx] unfolding CallRegister by auto
next
  case (CallRevoke tx now i)
  show "inv s \<Longrightarrow> ?thesis"
    using Revoke_state [of tx now i s] revoke_inv [of s tx i] unfolding CallRevoke by auto
qed

lemma call_keeps:
  "a \<in> set (rows s) \<Longrightarrow> ac_Status a = StatusRevoked \<Longrightarrow> a \<in> set (rows (access_step create revoke c s))"
proof (cases c)
  case (CallRegister tx now newID input)
  show "a \<in> set (rows s) \<Longrightarrow> ?thesis"
    using Register_state [of tx now newID input s] subsetD [OF create_keeps [of s tx]]
    unfolding CallRegister by auto
next
  case (CallRevoke tx now i)
  show "a \<in> set (rows s) \<Longrightarrow> ac_Status a = StatusRevoked \<Longrightarrow> ?thesis"
    using Revoke_state [of tx now i s] revoke_keeps [of a s tx i] unfolding CallRevoke by auto
qed

lemma run_inv: "inv s \<Longrightarrow> inv (fold (access_step create revoke) cs s)"
  by (induction cs arbitrary: s) (simp_all add: call_inv)

lemma run_keeps:
  "a \<in> set (rows s) \<Longrightarrow> ac_Status a = StatusRevoked \<Longrightarrow> a \<in> set (rows (fold (access_step create revoke) cs s))"
  by (induction cs arbitrary: s) (simp_all add: call_keeps)

lemma Register_result:
  assumes "Register (create tx) now newID input s = (Inr a, s')"
  shows "ValidateAccess a = None \<and> a \<in> set (rows s') \<and> ac_Status a = StatusActive \<and>
    (\<exists>i. newID = Some i \<and> a = registration (truncate_second now) i input)"
proof -
  obtain i where "newID = Some i" "create tx (registration (truncate_second now) i input) s = (Inr a, s')"
      "ValidateAccess a = None"
    using assms by (auto simp: Register_def Let_def split: option.splits sum.splits prod.splits)
  then show ?thesis using create_row [of tx "registration (truncate_second now) i input" s a s']
    by (simp add: registration_def)
qed

lemma Revoke_result:
  assumes "Revoke (revoke tx) now i s = (Inr a, s')"
  shows "a \<in> set (rows s') \<and> ac_ID a = i \<and> ac_Status a = StatusRevoked"
  using assms revoke_row
  by (auto simp: Revoke_def split: option.splits sum.splits prod.splits if_splits)

end

subsection \<open>The Postgres store keeps its tables consistent\<close>

definition events :: "string \<Rightarrow> string \<Rightarrow> 'z pilot_db_scheme \<Rightarrow> nat" where
  "events action i db = length (filter (\<lambda>e. au_action e = action \<and> au_object e = i) (db_audits db))"

definition audited :: "'z pilot_db_scheme \<Rightarrow> Access \<Rightarrow> bool" where
  "audited db a \<longleftrightarrow>
    events ''pilot_access_registered'' (ac_ID a) db = 1 \<and>
    events ''pilot_access_revoked'' (ac_ID a) db = (if ac_Status a = StatusRevoked then 1 else 0)"

definition access_inv :: "'z pilot_db_scheme \<Rightarrow> bool" where
  "access_inv db \<longleftrightarrow>
    (\<forall>a \<in> set (db_accesses db). ValidateAccess a = None \<and> audited db a) \<and>
    distinct (map ac_ID (db_accesses db)) \<and>
    (\<forall>e \<in> set (db_audits db). au_object e \<in> ac_ID ` set (db_accesses db))"

lemma statement_True [simp]: "statement True r = r"
  by (simp add: statement_def)

lemma Store_Create_cases:
  obtains "snd (Store_Create tx a db) = db" "\<And>b. fst (Store_Create tx a db) \<noteq> Inr b"
  | i where "snd (Store_Create tx a db) = db\<lparr>db_accesses := db_accesses db @ [a],
        db_audits := db_audits db @ [\<lparr>au_id = i, au_action = ''pilot_access_registered'', au_object = ac_ID a\<rparr>]\<rparr>"
      "\<And>b. fst (Store_Create tx a db) = Inr b \<Longrightarrow> b = a"
      "ac_ID a \<notin> ac_ID ` set (db_accesses db)" "tx_auditID tx = Some i" "i \<notin> au_id ` set (db_audits db)"
proof (cases "tx_auditID tx")
  case None
  then show ?thesis using that(1) by (simp add: Store_Create_def)
next
  case (Some i)
  note id' = Some
  let ?e = "\<lparr>au_id = i, au_action = ''pilot_access_registered'', au_object = ac_ID a\<rparr>"
  show ?thesis
  proof (cases "tx_begin tx \<and> tx_row tx \<and> tx_audit tx")
    case False
    then show ?thesis using that(1) id'
      by (cases "insert_access a db") (auto simp: Store_Create_def statement_def split: if_splits)
  next
    case True
    show ?thesis
    proof (cases "insert_access a db")
      case (Inl e)
      then show ?thesis using that(1) True id' by (simp add: Store_Create_def statement_def)
    next
      case (Inr db1)
      then have db1: "db1 = db\<lparr>db_accesses := db_accesses db @ [a]\<rparr>"
        and new: "ac_ID a \<notin> ac_ID ` set (db_accesses db)"
        by (auto simp: insert_access_def list_ex_iff split: if_splits)
      show ?thesis
      proof (cases "insert_audit ?e db1")
        case (Inl e)
        then show ?thesis using that(1) True id' \<open>insert_access a db = Inr db1\<close>
          by (simp add: Store_Create_def statement_def)
      next
        case (Inr db2)
        then have db2: "db2 = db1\<lparr>db_audits := db_audits db1 @ [?e]\<rparr>" "i \<notin> au_id ` set (db_audits db)"
          by (auto simp: insert_audit_def db1 split: if_splits)
        have "Store_Create tx a db = commit_result (tx_commit tx) a db db2"
          using True id' \<open>insert_access a db = Inr db1\<close> Inr by (simp add: Store_Create_def statement_def)
        then show ?thesis
          using that id' new db2 db1 by (cases "tx_commit tx") (auto simp: commit_result_def)
      qed
    qed
  qed
qed

lemma ValidateAccess_None:
  "ValidateAccess a = None \<longleftrightarrow>
     match_string uuidPattern (ac_ID a) \<and> match_string uuidPattern (ac_DeviceID a) \<and>
     ValidateID (ac_NodeID a) = None \<and> ValidateTransport (ac_Transport a) = None \<and>
     match_string externalReferencePattern (ac_ExternalReference a) \<and>
     \<not> resemblesSecret (ac_ExternalReference a) \<and> \<not> is_zero (ac_CreatedAt a) \<and> checkExpiry a \<and> checkStatus a = None"
  unfolding ValidateAccess_def by (auto split: option.split)

lemma checkStatus_None:
  "checkStatus a = None \<longleftrightarrow>
     (ac_Status a = StatusActive \<and> ac_RevokedAt a = None) \<or>
     (ac_Status a = StatusRevoked \<and> (\<exists>r. ac_RevokedAt a = Some r \<and> ac_CreatedAt a \<le> r))"
  by (auto simp: checkStatus_def StatusActive_def StatusRevoked_def not_less split: option.splits)

lemma revoked_at_valid:
  assumes "ValidateAccess a = None" "ac_Status a = ''active''" "access_checks (revoked_at w a)"
  shows "ValidateAccess (revoked_at w a) = None"
proof -
  have "ac_RevokedAt a = None"
    using assms(1,2) by (auto simp: ValidateAccess_None checkStatus_None StatusRevoked_def)
  moreover from this have "ac_CreatedAt a \<le> w" using assms(3) by (simp add: access_checks_def revoked_at_def)
  ultimately show ?thesis
    using assms(1)
    by (simp add: ValidateAccess_None checkStatus_None checkExpiry_def revoked_at_def StatusRevoked_def split: option.splits)
qed

lemma Store_Revoke_cases:
  obtains "snd (Store_Revoke tx i w db) = db"
      "\<And>b. fst (Store_Revoke tx i w db) = Inr b \<Longrightarrow>
        b \<in> set (db_accesses db) \<and> ac_ID b = i \<and> ac_Status b = StatusRevoked"
  | a aid where "a \<in> set (db_accesses db)" "ac_ID a = i" "ac_Status a = ''active''"
      "access_checks (revoked_at w a)"
      "snd (Store_Revoke tx i w db) = db\<lparr>db_accesses :=
          map (\<lambda>b. if ac_ID b = i \<and> ac_Status b = ''active'' then revoked_at w b else b) (db_accesses db),
        db_audits := db_audits db @ [\<lparr>au_id = aid, au_action = ''pilot_access_revoked'', au_object = i\<rparr>]\<rparr>"
      "\<And>b. fst (Store_Revoke tx i w db) = Inr b \<Longrightarrow> b = revoked_at w a"
proof (cases "tx_auditID tx")
  case None
  then show ?thesis using that(1) by (simp add: Store_Revoke_def)
next
  case (Some aid)
  note id' = Some
  show ?thesis
  proof (cases "tx_begin tx \<and> tx_row tx")
    case False
    then have "\<exists>e. Store_Revoke tx i w db = (Inl e, db)"
      using id' by (auto simp: Store_Revoke_def statement_def split: if_splits)
    then show ?thesis using that(1) by fastforce
  next
    case True
    show ?thesis
    proof (cases "update_revoked i w db")
      case (Inl e)
      have call: "Store_Revoke tx i w db =
          (if e = NoRows then
             (case statement (tx_retry tx) (select_revoked i db) of
                Inl err \<Rightarrow> (Inl (classify err), db)
              | Inr result \<Rightarrow> commit_result (tx_commit tx) result db db)
           else (Inl (classify e), db))"
        using True id' Inl by (simp add: Store_Revoke_def)
      show ?thesis
      proof (cases "\<exists>b. statement (tx_retry tx) (select_revoked i db) = Inr b")
        case True
        then obtain b where b: "statement (tx_retry tx) (select_revoked i db) = Inr b" by blast
        then have "b \<in> set (db_accesses db) \<and> ac_ID b = i \<and> ac_Status b = StatusRevoked"
          by (auto simp: statement_def select_revoked_def StatusRevoked_def find_Some_iff split: option.splits if_splits)
        then show ?thesis
          using that(1) call b by (cases "e = NoRows"; cases "tx_commit tx") (simp_all add: commit_result_def)
      next
        case False
        then have "\<exists>err. Store_Revoke tx i w db = (Inl err, db)"
          unfolding call by (cases "statement (tx_retry tx) (select_revoked i db)") auto
        then show ?thesis using that(1) by fastforce
      qed
    next
      case (Inr p)
      then obtain a db1 where p: "p = (revoked_at w a, db1)" "a \<in> set (db_accesses db)" "ac_ID a = i"
          "ac_Status a = ''active''" "access_checks (revoked_at w a)"
          "db1 = db\<lparr>db_accesses :=
            map (\<lambda>b. if ac_ID b = i \<and> ac_Status b = ''active'' then revoked_at w b else b) (db_accesses db)\<rparr>"
        by (auto simp: update_revoked_def find_Some_iff split: option.splits if_splits)
      let ?e = "\<lparr>au_id = aid, au_action = ''pilot_access_revoked'', au_object = i\<rparr>"
      have obj: "ac_ID (revoked_at w a) = i" using p by (simp add: revoked_at_def)
      show ?thesis
      proof (cases "statement (tx_audit tx) (insert_audit ?e db1)")
        case (Inl e)
        then have "Store_Revoke tx i w db = (Inl (AuditFailed e), db)"
          using True id' Inr p(1) obj by (simp add: Store_Revoke_def)
        then show ?thesis using that(1) by simp
      next
        case r: (Inr db2)
        then have "db2 = db1\<lparr>db_audits := db_audits db1 @ [?e]\<rparr>"
          by (auto simp: statement_def insert_audit_def split: if_splits)
        moreover have "Store_Revoke tx i w db = commit_result (tx_commit tx) (revoked_at w a) db db2"
          using True id' Inr r p(1) obj by (simp add: Store_Revoke_def)
        ultimately have r: "Store_Revoke tx i w db = commit_result (tx_commit tx) (revoked_at w a) db
          (db1\<lparr>db_audits := db_audits db1 @ [?e]\<rparr>)" by simp
        show ?thesis
        proof (cases "tx_commit tx = RolledBack")
          case True
          then show ?thesis using that(1) r by (simp add: commit_result_def)
        next
          case False
          have "snd (Store_Revoke tx i w db) = db1\<lparr>db_audits := db_audits db1 @ [?e]\<rparr>"
            using False unfolding r by (cases "tx_commit tx") (simp_all add: commit_result_def)
          moreover have "b = revoked_at w a" if "fst (Store_Revoke tx i w db) = Inr b" for b
            using that unfolding r by (cases "tx_commit tx") (simp_all add: commit_result_def)
          ultimately show ?thesis using that(2) [OF p(2-5)] p(6) by simp
        qed
      qed
    qed
  qed
qed

lemma Store_Create_inv:
  assumes inv: "access_inv db" and valid: "ValidateAccess a = None" "ac_Status a = StatusActive"
  shows "access_inv (snd (Store_Create tx a db))"
proof (cases rule: Store_Create_cases [of tx a db])
  case 1
  then show ?thesis using inv by simp
next
  case (2 i)
  have none: "filter (\<lambda>e. au_action e = act \<and> au_object e = ac_ID a) (db_audits db) = []" for act
    using inv 2(3) unfolding access_inv_def filter_empty_conv by metis
  show ?thesis
    unfolding 2(1) using inv valid 2(3) none
    by (auto simp: access_inv_def audited_def events_def StatusActive_def StatusRevoked_def)
qed

lemma Store_Revoke_inv:
  assumes inv: "access_inv db"
  shows "access_inv (snd (Store_Revoke tx i w db))"
proof (cases rule: Store_Revoke_cases [of tx i w db])
  case 1
  then show ?thesis using inv by simp
next
  case (2 a aid)
  let ?f = "\<lambda>b. if ac_ID b = i \<and> ac_Status b = ''active'' then revoked_at w b else b"
  have only: "b = a" if "b \<in> set (db_accesses db)" "ac_ID b = i" for b
    using inv that 2(1,2) by (auto simp: access_inv_def distinct_map dest: inj_onD)
  have ids: "ac_ID (?f b) = ac_ID b" for b by (simp add: revoked_at_def)
  have dist: "map ac_ID (map ?f (db_accesses db)) = map ac_ID (db_accesses db)"
    using ids by (simp add: comp_def)
  have eq: "db_accesses (snd (Store_Revoke tx i w db)) = map ?f (db_accesses db)" unfolding 2(5) by simp
  have ids': "ac_ID ` set (map ?f (db_accesses db)) = ac_ID ` set (db_accesses db)"
    using dist by (metis list.set_map)
  have row: "ValidateAccess (?f b) = None \<and> audited (snd (Store_Revoke tx i w db)) (?f b)"
    if b: "b \<in> set (db_accesses db)" for b
  proof (cases "ac_ID b = i")
    case True
    then have "b = a" using only b by blast
    moreover have "ValidateAccess a = None" "audited db a" using inv 2(1) by (auto simp: access_inv_def)
    ultimately show ?thesis
      using 2 revoked_at_valid [of a w] unfolding 2(5)
      by (auto simp: audited_def events_def revoked_at_def StatusRevoked_def)
  next
    case False
    moreover have "ValidateAccess b = None" "audited db b" using inv b by (auto simp: access_inv_def)
    ultimately show ?thesis unfolding 2(5) by (auto simp: audited_def events_def)
  qed
  have "au_object e \<in> ac_ID ` set (db_accesses (snd (Store_Revoke tx i w db)))"
    if "e \<in> set (db_audits (snd (Store_Revoke tx i w db)))" for e
    using that inv 2(1,2) ids' unfolding 2(5) by (auto simp: access_inv_def)
  moreover have "distinct (map ac_ID (db_accesses (snd (Store_Revoke tx i w db))))"
    using inv dist unfolding eq access_inv_def by argo
  moreover have "\<forall>b \<in> set (db_accesses (snd (Store_Revoke tx i w db))).
      ValidateAccess b = None \<and> audited (snd (Store_Revoke tx i w db)) b"
    by (simp only: eq set_map ball_simps) (rule ballI, rule row)
  ultimately show ?thesis unfolding access_inv_def by blast
qed

interpretation pg: access_store Store_Create Store_Revoke db_accesses "access_inv :: 'z pilot_db_scheme \<Rightarrow> bool"
proof
  fix s :: "'z pilot_db_scheme" and a assume "access_inv s" "a \<in> set (db_accesses s)"
  then show "ValidateAccess a = None" by (simp add: access_inv_def)
next
  fix s :: "'z pilot_db_scheme" and a tx assume "access_inv s" "ValidateAccess a = None" "ac_Status a = StatusActive"
  then show "access_inv (snd (Store_Create tx a s))" by (rule Store_Create_inv)
next
  fix tx a and s s' :: "'z pilot_db_scheme" and b assume "Store_Create tx a s = (Inr b, s')"
  then show "b = a \<and> a \<in> set (db_accesses s')"
    by (cases rule: Store_Create_cases [of tx a s]) (simp_all, metis fst_conv)
next
  fix tx a and s :: "'z pilot_db_scheme"
  show "set (db_accesses s) \<subseteq> set (db_accesses (snd (Store_Create tx a s)))"
    by (cases rule: Store_Create_cases [of tx a s]) auto
next
  fix s :: "'z pilot_db_scheme" and tx i w assume "access_inv s"
  then show "access_inv (snd (Store_Revoke tx i w s))" by (rule Store_Revoke_inv)
next
  fix tx i w and s s' :: "'z pilot_db_scheme" and b assume "Store_Revoke tx i w s = (Inr b, s')"
  then show "b \<in> set (db_accesses s') \<and> ac_ID b = i \<and> ac_Status b = StatusRevoked"
    by (cases rule: Store_Revoke_cases [of tx i w s]) (auto simp: revoked_at_def StatusRevoked_def)
next
  fix a i w tx and s :: "'z pilot_db_scheme" assume "a \<in> set (db_accesses s)" "ac_Status a = StatusRevoked"
  then show "a \<in> set (db_accesses (snd (Store_Revoke tx i w s)))"
    by (cases rule: Store_Revoke_cases [of tx i w s]) (auto simp: StatusRevoked_def intro: image_eqI [of _ _ a])
qed

lemma empty_inv: "db_accesses db = [] \<Longrightarrow> db_audits db = [] \<Longrightarrow> access_inv db"
  by (simp add: access_inv_def)

definition healthy :: "transaction \<Rightarrow> bool" where
  "healthy tx \<longleftrightarrow>
    tx_auditID tx \<noteq> None \<and> tx_begin tx \<and> tx_row tx \<and> tx_retry tx \<and> tx_audit tx \<and> tx_commit tx = Committed"

lemma Store_Revoke_again:
  assumes inv: "access_inv db" and a: "a \<in> set (db_accesses db)" "ac_Status a = StatusRevoked" and tx: "healthy tx"
  shows "Store_Revoke tx (ac_ID a) w db = (Inr a, db)"
proof -
  have only: "b = a" if "b \<in> set (db_accesses db)" "ac_ID b = ac_ID a" for b
    using inv that a(1) by (auto simp: access_inv_def distinct_map dest: inj_onD)
  have "find (\<lambda>b. ac_ID b = ac_ID a \<and> ac_Status b = ''active'') (db_accesses db) = None"
    using a(2) by (auto simp: find_None_iff StatusRevoked_def dest!: only)
  moreover have "find (\<lambda>b. ac_ID b = ac_ID a \<and> ac_Status b = ''revoked'') (db_accesses db) = Some a"
  proof (cases "find (\<lambda>b. ac_ID b = ac_ID a \<and> ac_Status b = ''revoked'') (db_accesses db)")
    case None
    then show ?thesis using a by (auto simp: find_None_iff StatusRevoked_def)
  next
    case (Some b)
    then show ?thesis using only [of b] by (auto simp: find_Some_iff)
  qed
  ultimately show ?thesis
    using tx by (auto simp: Store_Revoke_def healthy_def statement_def update_revoked_def select_revoked_def
        commit_result_def)
qed

subsection \<open>The service over the Postgres store\<close>

definition sample_tx :: "string \<Rightarrow> transaction" where
  "sample_tx i = \<lparr>tx_auditID = Some i, tx_begin = True, tx_row = True, tx_retry = True, tx_audit = True, tx_commit = Committed\<rparr>"

definition sample_uuid :: string where "sample_uuid = ''00000000-0000-4000-8000-000000000000''"

definition sample_register :: RegisterInput where
  "sample_register = \<lparr>ri_DeviceID = sample_uuid, ri_NodeID = ''node-1'', ri_Transport = ''amneziawg'',
     ri_ExternalReference = ''peer.1'', ri_ExpiresAt = Some (2000 * second)\<rparr>"

definition sample_db :: pilot_db where
  "sample_db = \<lparr>db_devices = [(sample_uuid, ''account'')], db_nodes = [''node-1''], db_accesses = [], db_audits = []\<rparr>"

text \<open>
  C28. However registrations and revocations succeed, fail and are retried, starting from empty
  tables every access row stays valid, has exactly one registration event in the audit table,
  and has exactly one revocation event if it is revoked and none if it is not. A transaction
  that fails at any statement, and a commit whose acknowledgement is lost, never leave a row
  without its event or an event without its row.
\<close>

theorem accesses_audited:
  assumes "db_accesses db = []" "db_audits db = []"
    and "fold (access_step Store_Create Store_Revoke) calls db = db'"
  shows "(\<forall>a \<in> set (db_accesses db'). ValidateAccess a = None \<and> audited db' a) \<and>
    (\<forall>e \<in> set (db_audits db'). au_object e \<in> ac_ID ` set (db_accesses db'))"
  using pg.run_inv [OF empty_inv [OF assms(1,2)], of calls] assms(3) by (simp add: access_inv_def)

lemma sample_uuid_ok: "match_string uuidPattern sample_uuid"
  using match_uuid [of "''00000000''" "''0000''" "''000''" "''000''" "''000000000000''" "CHR ''4''" "CHR ''8''"]
  by (simp add: sample_uuid_def in_cls_def hex_class_def)

lemma sample_node_ok: "ValidateID ''node-1'' = None"
  by (simp add: ValidateID_def identifierPattern_def match_head_upto runes_ascii in_cls_def node_lower_digit_def)

lemma sample_reference_ok: "match_string externalReferencePattern ''peer.1''"
  by (simp add: externalReferencePattern_def match_head_upto runes_ascii in_cls_def alnum_class_def)

lemma those_None: "x \<in> set xs \<Longrightarrow> f x = None \<Longrightarrow> those (map f xs) = None"
  by (induction xs) (auto split: option.split)

lemma index_byte_None: "c \<notin> set s \<Longrightarrow> index_byte s c = None"
  by (induction s) auto

lemma dot_not_base64:
  assumes "CHR ''.'' \<in> set s"
  shows "raw_url_decode s = None" "raw_std_decode s = None"
proof -
  have dot: "CHR ''.'' \<notin> set url_alphabet" by (simp add: url_alphabet_def)
  have url: "raw_url_decode t = None" if "CHR ''.'' \<in> set t" for t
    using that those_None [of "CHR ''.''" "filter (\<lambda>c. \<not> is_newline c) t" "index_byte url_alphabet"]
      index_byte_None [OF dot] by (simp add: raw_url_decode_def is_newline_def)
  then show "raw_url_decode s = None" using assms .
  have "CHR ''.'' \<in> set (map std_to_url s)" using assms by (force simp: std_to_url_def)
  then show "raw_std_decode s = None" using url by (simp add: raw_std_decode_def)
qed

lemma sample_reference_public: "\<not> resemblesSecret ''peer.1''"
proof -
  have "unpad ''peer.1'' = None" by (simp add: unpad_def is_newline_def)
  then show ?thesis
    using dot_not_base64 [of "''peer.1''"]
    by (simp add: resemblesSecret_def std_decode_def url_decode_def to_lower_def is_upper_def has_prefix_def)
qed

definition sample_access :: Access where
  "sample_access = registration (1000 * second) sample_uuid sample_register"

lemma sample_access_ok: "ValidateAccess sample_access = None"
  by (simp add: ValidateAccess_None sample_access_def registration_def sample_register_def sample_uuid_ok sample_node_ok
      sample_reference_ok sample_reference_public ValidateTransport_def AmneziaWG_def is_zero_def
      zero_time_def checkExpiry_def cloneTime_def truncate_second_def second_def maximumPilotAccessLifetime_def
      hour_def minute_def checkStatus_None)

lemma sample_truncate: "truncate_second (1000 * second) = 1000 * second" "truncate_second (1500 * second) = 1500 * second"
  by (simp_all add: truncate_second_def second_def)

lemma sample_checks: "access_checks sample_access" "access_checks (revoked_at (1500 * second) sample_access)"
  by (simp_all add: access_checks_def revoked_at_def sample_access_def registration_def sample_register_def
      runes_ascii StatusActive_def cloneTime_def truncate_second_def second_def hour_def minute_def)

lemma sample_audit_ok: "audit_checks \<lparr>au_id = i, au_action = action, au_object = sample_uuid\<rparr>"
  by (simp add: audit_checks_def sample_uuid_def runes_ascii)

definition sample_registered :: pilot_db where
  "sample_registered = sample_db\<lparr>db_accesses := [sample_access],
     db_audits := [\<lparr>au_id = ''audit-1'', au_action = ''pilot_access_registered'', au_object = sample_uuid\<rparr>]\<rparr>"

lemma sample_Register:
  "Register (Store_Create (sample_tx ''audit-1'')) (1000 * second) (Some sample_uuid) sample_register sample_db =
    (Inr sample_access, sample_registered)"
proof -
  have "insert_access sample_access sample_db = Inr (sample_db\<lparr>db_accesses := [sample_access]\<rparr>)"
    using sample_checks(1)
    by (simp add: insert_access_def sample_db_def sample_access_def registration_def sample_register_def cloneTime_def)
  moreover have "ac_ID sample_access = sample_uuid" by (simp add: sample_access_def registration_def)
  ultimately have "Store_Create (sample_tx ''audit-1'') sample_access sample_db = (Inr sample_access, sample_registered)"
    by (simp add: Store_Create_def sample_tx_def insert_audit_def sample_audit_ok commit_result_def sample_registered_def
        sample_db_def)
  then show ?thesis
    using sample_access_ok unfolding Register_def option.case Let_def sample_truncate sample_access_def by simp
qed

lemma sample_revoked_ok: "ValidateAccess (revoked_at (1500 * second) sample_access) = None"
  by (rule revoked_at_valid [OF sample_access_ok _ sample_checks(2)])
    (simp add: sample_access_def registration_def StatusActive_def)

lemma sample_revoke:
  "ok (fst (Revoke (Store_Revoke (sample_tx ''audit-2'')) (1500 * second) sample_uuid sample_registered))"
proof -
  have a: "ac_ID sample_access = sample_uuid" "ac_Status sample_access = ''active''"
    by (simp_all add: sample_access_def registration_def StatusActive_def)
  have "update_revoked sample_uuid (1500 * second) sample_registered =
      Inr (revoked_at (1500 * second) sample_access,
        sample_registered\<lparr>db_accesses := [revoked_at (1500 * second) sample_access]\<rparr>)"
    using a sample_checks(2) by (simp add: update_revoked_def sample_registered_def)
  moreover have "ac_ID (revoked_at (1500 * second) sample_access) = sample_uuid"
    using a by (simp add: revoked_at_def)
  ultimately have "fst (Store_Revoke (sample_tx ''audit-2'') sample_uuid (1500 * second) sample_registered) =
      Inr (revoked_at (1500 * second) sample_access)"
    by (simp add: Store_Revoke_def sample_tx_def insert_audit_def sample_audit_ok commit_result_def sample_registered_def)
  then show ?thesis
    using sample_revoked_ok sample_uuid_ok
    by (cases "Store_Revoke (sample_tx ''audit-2'') sample_uuid (1500 * second) sample_registered")
      (simp add: Revoke_def sample_truncate)
qed

theorem accesses_audited_witness:
  "sample_access \<in> set (db_accesses (snd (Register (Store_Create (sample_tx ''audit-1'')) (1000 * second)
       (Some sample_uuid) sample_register sample_db))) \<and>
   audited (snd (Register (Store_Create (sample_tx ''audit-1'')) (1000 * second) (Some sample_uuid)
       sample_register sample_db)) sample_access"
proof -
  have run: "fold (access_step Store_Create Store_Revoke)
      [CallRegister (sample_tx ''audit-1'') (1000 * second) (Some sample_uuid) sample_register] sample_db = sample_registered"
    by (simp add: sample_Register)
  have row: "sample_access \<in> set (db_accesses sample_registered)" by (simp add: sample_registered_def)
  have "audited sample_registered sample_access"
    using accesses_audited [OF _ _ run] row by (simp add: sample_db_def)
  then show ?thesis using row by (simp add: sample_Register)
qed

text \<open>
  C29. A revocation is final and can be retried. Once a revocation has returned a record, then
  after any further calls, failing ones included, revoking that access again returns the very
  same record, with its original revocation time, and changes nothing: no second audit event is
  written.
\<close>

theorem Revoke_final:
  assumes "access_inv db" and "Revoke (Store_Revoke tx) now i db = (Inr a, db1)"
    and "fold (access_step Store_Create Store_Revoke) calls db1 = db2" and "healthy tx'"
  shows "Revoke (Store_Revoke tx') now' i db2 = (Inr a, db2)"
proof -
  have a: "a \<in> set (db_accesses db1)" "ac_ID a = i" "ac_Status a = StatusRevoked"
    using pg.Revoke_result [OF assms(2)] by blast+
  have uuid: "match_string uuidPattern i" using assms(2) by (auto simp: Revoke_def split: if_splits)
  have "access_inv db1"
    using pg.call_inv [OF assms(1), of "CallRevoke tx now i"] assms(2) by simp
  then have inv: "access_inv db2" using pg.run_inv [of db1 calls] assms(3) by simp
  have a2: "a \<in> set (db_accesses db2)" using pg.run_keeps [OF a(1,3), of calls] assms(3) by simp
  then have "ValidateAccess a = None" using inv by (simp add: access_inv_def)
  then show ?thesis
    using Store_Revoke_again [OF inv a2 a(3) assms(4)] uuid unfolding Revoke_def a(2) by simp
qed

theorem Revoke_final_witness:
  "\<exists>a db. Revoke (Store_Revoke (sample_tx ''audit-2'')) (1500 * second) sample_uuid sample_registered = (Inr a, db) \<and>
     Revoke (Store_Revoke (sample_tx ''audit-3'')) (1700 * second) sample_uuid db = (Inr a, db)"
proof -
  obtain a db where r: "Revoke (Store_Revoke (sample_tx ''audit-2'')) (1500 * second) sample_uuid sample_registered = (Inr a, db)"
    using sample_revoke by (metis ok_iff prod.collapse)
  have "access_inv sample_registered"
    using pg.call_inv [OF empty_inv [of sample_db],
        of "CallRegister (sample_tx ''audit-1'') (1000 * second) (Some sample_uuid) sample_register"]
    by (simp add: sample_db_def sample_Register [unfolded sample_db_def])
  then have "Revoke (Store_Revoke (sample_tx ''audit-3'')) (1700 * second) sample_uuid db = (Inr a, db)"
    by (rule Revoke_final [OF _ r, of "[]"]) (simp_all add: healthy_def sample_tx_def)
  then show ?thesis using r by blast
qed

end
