(* ===== verification/GoFloat.thy ===== *)
theory GoFloat
  imports Complex_Main
begin

text \<open>
  Rounding to a \<open>float64\<close>. \<open>round53\<close> takes a rational that is not negative to the nearest number
  with 53 binary digits, ties to even; the sources use it only on values far inside the range of
  normal numbers. The lemmas show that rounding keeps
  order and sign.
\<close>

definition pow2 :: "int \<Rightarrow> rat" where
  "pow2 e = (if 0 \<le> e then 2 ^ nat e else 1 / 2 ^ nat (- e))"

definition round_even :: "rat \<Rightarrow> int" where
  "round_even x =
    (let f = \<lfloor>x\<rfloor>; d = x - of_int f in
     if d < 1 / 2 then f else if 1 / 2 < d then f + 1 else if even f then f else f + 1)"

fun bit_length :: "nat \<Rightarrow> nat" where
  "bit_length n = (if n = 0 then 0 else Suc (bit_length (n div 2)))"

declare bit_length.simps [simp del]

definition exponent :: "rat \<Rightarrow> int" where
  "exponent x =
    (let (p, q) = quotient_of x; e = int (bit_length (nat p)) - int (bit_length (nat q))
     in if pow2 e \<le> x then e else e - 1)"

definition round53 :: "rat \<Rightarrow> rat" where
  "round53 x =
    (if x \<le> 0 then 0
     else let u = pow2 (exponent x - 52) in of_int (round_even (x / u)) * u)"

lemma pow2_pos [simp]: "0 < pow2 e"
  by (simp add: pow2_def)

lemma round_even_mono:
  assumes "x \<le> y"
  shows "round_even x \<le> round_even y"
proof (cases "\<lfloor>x\<rfloor> = \<lfloor>y\<rfloor>")
  case True
  then show ?thesis using assms by (auto simp: round_even_def Let_def)
next
  case False
  then have "\<lfloor>x\<rfloor> + 1 \<le> \<lfloor>y\<rfloor>" using floor_mono [OF assms] by linarith
  moreover have "round_even x \<le> \<lfloor>x\<rfloor> + 1" "\<lfloor>y\<rfloor> \<le> round_even y" by (simp_all add: round_even_def Let_def)
  ultimately show ?thesis by linarith
qed

lemma round53_nonneg: "0 \<le> round53 x"
proof (cases "x \<le> 0")
  case False
  then have "0 \<le> x / pow2 (exponent x - 52)" by (simp add: less_imp_le)
  from round_even_mono [OF this] have "0 \<le> round_even (x / pow2 (exponent x - 52))" by (simp add: round_even_def)
  then show ?thesis using False by (simp add: round53_def Let_def less_imp_le)
qed (simp add: round53_def)

end
