(* ===== verification/PilotTelemetry.thy ===== *)
theory PilotTelemetry
  imports PilotAccess GoFloat
begin

text \<open>
  \<open>internal/pilottelemetry\<close>: the results of connection tests, their validation, the service
  that records and reports them, and the Postgres store with its retention and its aggregate
  queries. The table of results extends the tables of \<open>PilotAccess\<close>; the constraints are those
  of \<open>migrations/000003_pilot_test_results.sql\<close>. The database's own clock and every failure of a
  statement are inputs.

  A quotient of two counts is rounded to the nearest \<open>float64\<close>, as the two conversions and the
  division do; none of them leaves the range of normal numbers.
\<close>

subsection \<open>Data\<close>

definition maximumResultAge :: duration where "maximumResultAge = 30 * 24 * hour"
definition maximumClockSkew :: duration where "maximumClockSkew = 5 * minute"
definition maximumISPCodepoints :: nat where "maximumISPCodepoints = 100"

type_synonym Platform = string
type_synonym FailureStage = string
type_synonym ConnectionTimeBucket = string
type_synonym ThroughputBucket = string

definition platforms :: "Platform list" where
  "platforms = [''android'', ''ios'', ''linux'', ''macos'', ''windows'']"

definition failure_stages :: "FailureStage list" where
  "failure_stages =
    [''server_health'', ''public_ip'', ''transport'', ''port'', ''server_outbound'', ''tunnel'', ''dns'',
     ''https'', ''ipv4_leak'', ''ipv6_leak'', ''upload'', ''download'', ''reconnect'']"

definition connection_buckets :: "ConnectionTimeBucket list" where
  "connection_buckets = [''lt_3s'', ''3_10s'', ''10_30s'', ''gt_30s'', ''unknown'']"

definition throughput_buckets :: "ThroughputBucket list" where
  "throughput_buckets = [''lt_1_mbps'', ''1_10_mbps'', ''10_50_mbps'', ''gte_50_mbps'']"

record TestResult =
  tr_ID :: string
  tr_DeviceID :: string
  tr_ClientPlatform :: Platform
  tr_ISP :: "string option"
  tr_Transport :: Transport
  tr_OccurredAt :: time
  tr_Success :: bool
  tr_FailureStage :: "FailureStage option"
  tr_ConnectionTimeBucket :: ConnectionTimeBucket
  tr_ThroughputBucket :: "ThroughputBucket option"
  tr_RecordedAt :: time

record RecordInput =
  in_DeviceID :: string
  in_ClientPlatform :: Platform
  in_ISP :: "string option"
  in_Transport :: Transport
  in_OccurredAt :: time
  in_Success :: bool
  in_FailureStage :: "FailureStage option"
  in_ConnectionTimeBucket :: ConnectionTimeBucket
  in_ThroughputBucket :: "ThroughputBucket option"

record TransportSummary =
  ts_Transport :: Transport
  ts_Tests :: uint64
  ts_Successes :: uint64
  ts_SuccessRate :: float64

record ISPFailure =
  isp_ISP :: string
  isp_Failures :: uint64

record FailureSummary =
  fs_Stage :: FailureStage
  fs_Failures :: uint64

record Aggregate =
  ag_ActiveUsers :: uint64
  ag_ActiveDevices :: uint64
  ag_FirstTestAt :: "time option"
  ag_LastTestAt :: "time option"
  ag_Transports :: "TransportSummary list"
  ag_FailuresByStage :: "FailureSummary list"
  ag_FailuresByISP :: "ISPFailure list"

type_synonym MetricsStatus = string

definition MetricsNotConfigured :: MetricsStatus where "MetricsNotConfigured = ''not_configured''"
definition MetricsAvailable :: MetricsStatus where "MetricsAvailable = ''available''"
definition MetricsUnavailable :: MetricsStatus where "MetricsUnavailable = ''unavailable''"

record Report =
  rp_GeneratedAt :: time
  rp_TotalTests :: uint64
  rp_FirstTestAt :: "time option"
  rp_LastTestAt :: "time option"
  rp_ActiveUsers :: uint64
  rp_ActiveDevices :: uint64
  rp_Transports :: "TransportSummary list"
  rp_FailuresByStage :: "FailureSummary list"
  rp_FailuresByISP :: "ISPFailure list"
  rp_ServerMetricsStatus :: MetricsStatus
  rp_ServerMetrics :: "Metrics option"

datatype result_invalid =
    ResultIDsNotUUID
  | PlatformInvalid
  | ResultTransport node_error
  | ResultTimesRequired
  | ISPInvalid
  | StageInconsistent
  | StageInvalid
  | ConnectionBucketInvalid
  | ThroughputBucketInvalid
  | OutsideWindow
  | ResultReferencedInvalid

datatype telemetry_error =
    ResultInvalid result_invalid
  | ResultConflict
  | ResultGenerateID
  | StoredResultInvalid result_invalid
  | RetentionFailed pg_error
  | CreateFailed pg_error
  | AggregateFailed nat
  | InvalidPeriod
  | InvalidAggregate
  | InvalidFailureAggregate

subsection \<open>Validation\<close>

definition validISP :: "string \<Rightarrow> bool" where
  "validISP v \<longleftrightarrow>
    (if \<not> valid_utf8 v \<or> v \<noteq> TrimSpace v then False
     else if ParseIP v \<noteq> None then False
     else
       let n = length (runes v) in
       if n < 1 \<or> maximumISPCodepoints < n then False
       else \<not> list_ex is_control (runes v))"

definition validatePlatform :: "Platform \<Rightarrow> result_invalid option" where
  "validatePlatform v = (if v \<in> set platforms then None else Some PlatformInvalid)"

definition validFailureStage :: "FailureStage \<Rightarrow> bool" where
  "validFailureStage v \<longleftrightarrow> v \<in> set failure_stages"

definition validConnectionBucket :: "ConnectionTimeBucket \<Rightarrow> bool" where
  "validConnectionBucket v \<longleftrightarrow> v \<in> set connection_buckets"

definition validThroughputBucket :: "ThroughputBucket \<Rightarrow> bool" where
  "validThroughputBucket v \<longleftrightarrow> v \<in> set throughput_buckets"

definition ValidateResult :: "TestResult \<Rightarrow> result_invalid option" where
  "ValidateResult result =
    (if \<not> match_string uuidPattern (tr_ID result) \<or> \<not> match_string uuidPattern (tr_DeviceID result)
     then Some ResultIDsNotUUID
     else case validatePlatform (tr_ClientPlatform result) of
       Some err \<Rightarrow> Some err
     | None \<Rightarrow>
     case ValidateTransport (tr_Transport result) of
       Some err \<Rightarrow> Some (ResultTransport err)
     | None \<Rightarrow>
     if is_zero (tr_OccurredAt result) \<or> is_zero (tr_RecordedAt result) then Some ResultTimesRequired
     else if (case tr_ISP result of None \<Rightarrow> False | Some v \<Rightarrow> \<not> validISP v) then Some ISPInvalid
     else if tr_Success result \<noteq> (tr_FailureStage result = None) then Some StageInconsistent
     else if (case tr_FailureStage result of None \<Rightarrow> False | Some v \<Rightarrow> \<not> validFailureStage v) then Some StageInvalid
     else if \<not> validConnectionBucket (tr_ConnectionTimeBucket result) then Some ConnectionBucketInvalid
     else if (case tr_ThroughputBucket result of None \<Rightarrow> False | Some v \<Rightarrow> \<not> validThroughputBucket v)
     then Some ThroughputBucketInvalid
     else None)"

subsection \<open>The service\<close>

definition test_result :: "time \<Rightarrow> string \<Rightarrow> RecordInput \<Rightarrow> TestResult" where
  "test_result now identifier input =
    \<lparr>tr_ID = identifier, tr_DeviceID = in_DeviceID input, tr_ClientPlatform = in_ClientPlatform input,
     tr_ISP = map_option TrimSpace (in_ISP input), tr_Transport = in_Transport input,
     tr_OccurredAt = truncate_second (in_OccurredAt input), tr_Success = in_Success input,
     tr_FailureStage = in_FailureStage input, tr_ConnectionTimeBucket = in_ConnectionTimeBucket input,
     tr_ThroughputBucket = in_ThroughputBucket input, tr_RecordedAt = now\<rparr>"

definition Record ::
  "(TestResult \<Rightarrow> 's \<Rightarrow> (telemetry_error + TestResult) \<times> 's) \<Rightarrow> time \<Rightarrow> string option \<Rightarrow> RecordInput \<Rightarrow> 's \<Rightarrow>
   (telemetry_error + TestResult) \<times> 's" where
  "Record create time' newID input s =
    (let now = truncate_second time' in
     case newID of
       None \<Rightarrow> (Inl ResultGenerateID, s)
     | Some identifier \<Rightarrow>
     let result = test_result now identifier input in
     if tr_OccurredAt result < now - maximumResultAge \<or> now + maximumClockSkew < tr_OccurredAt result
     then (Inl (ResultInvalid OutsideWindow), s)
     else case ValidateResult result of
       Some err \<Rightarrow> (Inl (ResultInvalid err), s)
     | None \<Rightarrow>
     (case create result s of
        (Inl err, s') \<Rightarrow> (Inl err, s')
      | (Inr stored, s') \<Rightarrow>
          (case ValidateResult stored of
             Some err \<Rightarrow> (Inl (StoredResultInvalid err), s')
           | None \<Rightarrow> (Inr stored, s'))))"

definition float_of :: "uint64 \<Rightarrow> rat" where
  "float_of w = round53 (of_nat (unat w))"

definition success_rate :: "uint64 \<Rightarrow> uint64 \<Rightarrow> float64" where
  "success_rate successes tests = Finite (round53 (float_of successes / float_of tests))"

fun sumTransports :: "uint64 \<Rightarrow> TransportSummary list \<Rightarrow> telemetry_error + uint64 \<times> TransportSummary list" where
  "sumTransports acc [] = Inr (acc, [])"
| "sumTransports acc (t # rest) =
    (if ValidateTransport (ts_Transport t) \<noteq> None \<or> ts_Tests t < ts_Successes t then Inl InvalidAggregate
     else
       case sumTransports (acc + ts_Tests t) rest of
         Inl err \<Rightarrow> Inl err
       | Inr (acc', rest') \<Rightarrow>
           Inr (acc',
             (if 0 < ts_Tests t then t\<lparr>ts_SuccessRate := success_rate (ts_Successes t) (ts_Tests t)\<rparr> else t) # rest'))"

definition summaryLess :: "TransportSummary \<Rightarrow> TransportSummary \<Rightarrow> bool" where
  "summaryLess a b \<longleftrightarrow> ts_Transport a < ts_Transport b"

definition validPeriod :: "time option \<Rightarrow> time option \<Rightarrow> bool" where
  "validPeriod begin_at end_at \<longleftrightarrow>
    (case (begin_at, end_at) of (None, None) \<Rightarrow> True | (Some f, Some l) \<Rightarrow> \<not> l < f | _ \<Rightarrow> False)"

definition serverMetrics :: "('e + Metrics) option \<Rightarrow> MetricsStatus \<times> Metrics option" where
  "serverMetrics source =
    (case source of
       None \<Rightarrow> (MetricsNotConfigured, None)
     | Some (Inl _) \<Rightarrow> (MetricsUnavailable, None)
     | Some (Inr m) \<Rightarrow> if ValidateMetrics m = None then (MetricsAvailable, Some m) else (MetricsUnavailable, None))"

definition Service_Report ::
  "(time \<Rightarrow> telemetry_error + Aggregate) \<Rightarrow> time \<Rightarrow> ('e + Metrics) option \<Rightarrow> telemetry_error + Report" where
  "Service_Report aggregate' time' metrics =
    (let now = truncate_second time' in
     case aggregate' now of
       Inl err \<Rightarrow> Inl err
     | Inr aggregate \<Rightarrow>
     let begin_at = cloneTime (ag_FirstTestAt aggregate); end_at = cloneTime (ag_LastTestAt aggregate) in
     if \<not> validPeriod begin_at end_at then Inl InvalidPeriod
     else case sumTransports 0 (ag_Transports aggregate) of
       Inl err \<Rightarrow> Inl err
     | Inr (acc, transports) \<Rightarrow>
     if list_ex (\<lambda>f. \<not> validFailureStage (fs_Stage f) \<or> fs_Failures f = 0) (ag_FailuresByStage aggregate)
     then Inl InvalidFailureAggregate
     else Inr
       \<lparr>rp_GeneratedAt = now, rp_TotalTests = acc, rp_FirstTestAt = begin_at, rp_LastTestAt = end_at,
        rp_ActiveUsers = ag_ActiveUsers aggregate, rp_ActiveDevices = ag_ActiveDevices aggregate,
        rp_Transports = sort_slice summaryLess transports, rp_FailuresByStage = ag_FailuresByStage aggregate,
        rp_FailuresByISP = ag_FailuresByISP aggregate, rp_ServerMetricsStatus = fst (serverMetrics metrics),
        rp_ServerMetrics = snd (serverMetrics metrics)\<rparr>)"

subsection \<open>The Postgres store\<close>

record telemetry_db = pilot_db +
  db_results :: "TestResult list"

definition telemetryRetention :: duration where "telemetryRetention = 30 * 24 * hour"

definition delete_expired :: "time \<Rightarrow> TestResult list \<Rightarrow> TestResult list" where
  "delete_expired cutoff rows =
    (let victims = map tr_ID (take 1000 (sort_key tr_OccurredAt (filter (\<lambda>r. tr_OccurredAt r < cutoff) rows)))
     in filter (\<lambda>r. tr_ID r \<notin> set victims) rows)"

definition btrim :: "string \<Rightarrow> string" where
  "btrim s = rev (dropWhile ((=) (CHR '' '')) (rev (dropWhile ((=) (CHR '' '')) s)))"

definition result_checks :: "TestResult \<Rightarrow> bool" where
  "result_checks r \<longleftrightarrow>
    tr_ClientPlatform r \<in> set platforms \<and>
    (\<forall>v \<in> set_option (tr_ISP r).
      1 \<le> length (runes v) \<and> length (runes v) \<le> 100 \<and> length v \<le> 400 \<and> v = btrim v \<and> \<not> list_ex is_control (runes v)) \<and>
    (tr_Transport r = ''amneziawg'' \<or> tr_Transport r = ''xray_reality'') \<and>
    (\<forall>v \<in> set_option (tr_FailureStage r). v \<in> set failure_stages) \<and>
    tr_ConnectionTimeBucket r \<in> set connection_buckets \<and>
    (\<forall>v \<in> set_option (tr_ThroughputBucket r). v \<in> set throughput_buckets) \<and>
    (tr_Success r \<longleftrightarrow> tr_FailureStage r = None) \<and>
    tr_RecordedAt r - 30 * 24 * hour \<le> tr_OccurredAt r \<and> tr_OccurredAt r \<le> tr_RecordedAt r + 5 * minute"

definition insert_result :: "TestResult \<Rightarrow> 'z telemetry_db_scheme \<Rightarrow> pg_error + 'z telemetry_db_scheme" where
  "insert_result r db =
    (if \<not> result_checks r then Inl CheckViolation
     else if tr_ID r \<in> tr_ID ` set (db_results db) then Inl UniqueViolation
     else if tr_DeviceID r \<notin> fst ` set (db_devices db) then Inl ForeignKeyViolation
     else Inr (db\<lparr>db_results := db_results db @ [r]\<rparr>))"

definition classifyCreate :: "pg_error \<Rightarrow> telemetry_error" where
  "classifyCreate err =
    (case err of
       UniqueViolation \<Rightarrow> ResultConflict
     | ForeignKeyViolation \<Rightarrow> ResultInvalid ResultReferencedInvalid
     | CheckViolation \<Rightarrow> ResultInvalid ResultReferencedInvalid
     | _ \<Rightarrow> CreateFailed err)"

text \<open>
  The two statements run outside a transaction: each commits on its own, and an acknowledgement
  may be lost after the statement took effect.
\<close>

record create_env =
  ce_delete :: commit
  ce_insert :: commit

definition Results_Create ::
  "create_env \<Rightarrow> TestResult \<Rightarrow> 'z telemetry_db_scheme \<Rightarrow> (telemetry_error + TestResult) \<times> 'z telemetry_db_scheme" where
  "Results_Create env result db =
    (let db1 = db\<lparr>db_results := delete_expired (tr_RecordedAt result - telemetryRetention) (db_results db)\<rparr> in
     case ce_delete env of
       RolledBack \<Rightarrow> (Inl (RetentionFailed ConnectionFailed), db)
     | AcknowledgementLost \<Rightarrow> (Inl (RetentionFailed ConnectionFailed), db1)
     | Committed \<Rightarrow>
     (case insert_result result db1 of
        Inl err \<Rightarrow> (Inl (classifyCreate (if ce_insert env = Committed then err else ConnectionFailed)), db1)
      | Inr db2 \<Rightarrow>
          (case ce_insert env of
             RolledBack \<Rightarrow> (Inl (classifyCreate ConnectionFailed), db1)
           | AcknowledgementLost \<Rightarrow> (Inl (classifyCreate ConnectionFailed), db2)
           | Committed \<Rightarrow> (Inr result, db2))))"

text \<open>
  \<open>ORDER BY\<close> of a text column follows the collation of the database: \<open>collation\<close> gives the sort
  key of a text, and texts with equal keys are ordered by their bytes.
\<close>

definition order_by :: "(string \<Rightarrow> string) \<Rightarrow> string list \<Rightarrow> string list" where
  "order_by collation texts = sort_key collation (sort texts)"

definition transport_rows :: "(string \<Rightarrow> string) \<Rightarrow> TestResult list \<Rightarrow> TransportSummary list" where
  "transport_rows collation rows =
    map (\<lambda>t. \<lparr>ts_Transport = t, ts_Tests = of_nat (length (filter (\<lambda>r. tr_Transport r = t) rows)),
        ts_Successes = of_nat (length (filter (\<lambda>r. tr_Transport r = t \<and> tr_Success r) rows)),
        ts_SuccessRate = Finite 0\<rparr>)
      (order_by collation (remdups (map tr_Transport rows)))"

definition stage_rows :: "(string \<Rightarrow> string) \<Rightarrow> TestResult list \<Rightarrow> FailureSummary list" where
  "stage_rows collation rows =
    map (\<lambda>s. \<lparr>fs_Stage = s,
        fs_Failures = of_nat (length (filter (\<lambda>r. \<not> tr_Success r \<and> tr_FailureStage r = Some s) rows))\<rparr>)
      (order_by collation (remdups (List.map_filter tr_FailureStage (filter (\<lambda>r. \<not> tr_Success r) rows))))"

definition isp_failures :: "TestResult list \<Rightarrow> string \<Rightarrow> nat" where
  "isp_failures rows i = length (filter (\<lambda>r. \<not> tr_Success r \<and> tr_ISP r = Some i) rows)"

definition isp_rows :: "(string \<Rightarrow> string) \<Rightarrow> TestResult list \<Rightarrow> ISPFailure list" where
  "isp_rows collation rows =
    (let isps = order_by collation (remdups (List.map_filter tr_ISP (filter (\<lambda>r. \<not> tr_Success r) rows)));
         groups = filter (\<lambda>i. 2 \<le> isp_failures rows i) isps
     in map (\<lambda>i. \<lparr>isp_ISP = i, isp_Failures = of_nat (isp_failures rows i)\<rparr>)
          (take 100 (sort_key (\<lambda>i. - int (isp_failures rows i)) groups)))"

definition active_devices :: "time \<Rightarrow> 'z telemetry_db_scheme \<Rightarrow> string list" where
  "active_devices moment db =
    remdups (map ac_DeviceID
      (filter (\<lambda>a. ac_Status a = ''active'' \<and> (\<exists>e \<in> set_option (ac_ExpiresAt a). moment < e) \<and>
         ac_DeviceID a \<in> fst ` set (db_devices db)) (db_accesses db)))"

definition active_accounts :: "time \<Rightarrow> 'z telemetry_db_scheme \<Rightarrow> string list" where
  "active_accounts moment db =
    remdups (List.map_filter (map_of (db_devices db)) (active_devices moment db))"

text \<open>
  \<open>fault\<close> is the number of the first step of the read-only transaction that fails, if one
  does: \<open>BEGIN\<close>, the five queries in their order, \<open>COMMIT\<close>.
\<close>

definition Results_Aggregate ::
  "(string \<Rightarrow> string) \<Rightarrow> nat option \<Rightarrow> time \<Rightarrow> 'z telemetry_db_scheme \<Rightarrow> time \<Rightarrow> telemetry_error + Aggregate" where
  "Results_Aggregate collation fault current db moment =
    (case fault of
       Some n \<Rightarrow> Inl (AggregateFailed n)
     | None \<Rightarrow>
         let transports = transport_rows collation (filter (\<lambda>r. current - 30 * 24 * hour \<le> tr_OccurredAt r) (db_results db));
             stages = stage_rows collation (filter (\<lambda>r. current - 30 * 24 * hour \<le> tr_OccurredAt r) (db_results db));
             isps = isp_rows collation (filter (\<lambda>r. current - 30 * 24 * hour \<le> tr_OccurredAt r) (db_results db));
             times = map tr_OccurredAt (filter (\<lambda>r. current - 30 * 24 * hour \<le> tr_OccurredAt r) (db_results db))
         in Inr \<lparr>ag_ActiveUsers = of_nat (length (active_accounts moment db)),
              ag_ActiveDevices = of_nat (length (active_devices moment db)),
              ag_FirstTestAt = (if times = [] then None else Some (Min (set times))),
              ag_LastTestAt = (if times = [] then None else Some (Max (set times))),
              ag_Transports = transports, ag_FailuresByStage = stages, ag_FailuresByISP = isps\<rparr>)"

lemma order_by_simps [simp]:
  "set (order_by collation xs) = set xs" "distinct (order_by collation xs) = distinct xs"
  by (simp_all add: order_by_def)

subsection \<open>Retention\<close>

lemma delete_expired_subset: "set (delete_expired cutoff rows) \<subseteq> set rows"
  by (auto simp: delete_expired_def Let_def)

lemma delete_expired_keeps:
  assumes "distinct (map tr_ID rows)" "r \<in> set rows" "cutoff \<le> tr_OccurredAt r"
  shows "r \<in> set (delete_expired cutoff rows)"
proof -
  have "x = r" if "x \<in> set rows" "tr_ID x = tr_ID r" for x
    using that assms(1,2) by (auto simp: distinct_map dest: inj_onD)
  then have "tr_ID r \<notin> tr_ID ` set (take n (sort_key tr_OccurredAt (filter (\<lambda>r. tr_OccurredAt r < cutoff) rows)))" for n
    using assms(3) by (auto dest!: in_set_takeD)
  then show ?thesis using assms(2) by (simp only: delete_expired_def Let_def set_map set_filter) blast
qed

text \<open>At most a thousand rows go, the oldest first.\<close>

lemma delete_expired_bound:
  assumes "distinct (map tr_ID rows)"
  shows "card (set rows - set (delete_expired cutoff rows)) \<le> 1000"
    and "x \<in> set rows - set (delete_expired cutoff rows) \<Longrightarrow> y \<in> set (delete_expired cutoff rows) \<Longrightarrow>
      tr_OccurredAt y < cutoff \<Longrightarrow> tr_OccurredAt x \<le> tr_OccurredAt y"
proof -
  let ?old = "sort_key tr_OccurredAt (filter (\<lambda>r. tr_OccurredAt r < cutoff) rows)"
  have id': "x = y" if "x \<in> set rows" "y \<in> set rows" "tr_ID x = tr_ID y" for x y
    using assms that by (simp add: distinct_map inj_on_def)
  have "set (take 1000 ?old) \<subseteq> set rows" using set_take_subset [of 1000 ?old] by auto
  then have "tr_ID x \<in> tr_ID ` set (take 1000 ?old) \<longleftrightarrow> x \<in> set (take 1000 ?old)" if "x \<in> set rows" for x
    using id' that by blast
  then have stay: "set (delete_expired cutoff rows) = set rows - set (take 1000 ?old)"
    unfolding delete_expired_def Let_def set_filter set_map by blast
  have "set rows - set (delete_expired cutoff rows) \<subseteq> set (take 1000 ?old)" unfolding stay by blast
  then have "card (set rows - set (delete_expired cutoff rows)) \<le> length (take 1000 ?old)"
    by (meson List.finite_set card_length card_mono order_trans)
  then show "card (set rows - set (delete_expired cutoff rows)) \<le> 1000" by simp
  assume x: "x \<in> set rows - set (delete_expired cutoff rows)" and y: "y \<in> set (delete_expired cutoff rows)" "tr_OccurredAt y < cutoff"
  have "x \<in> set (take 1000 ?old)" "y \<in> set ?old" "y \<notin> set (take 1000 ?old)" using x y unfolding stay by auto
  moreover from this(2,3) have "y \<in> set (drop 1000 ?old)" by (metis Un_iff append_take_drop_id set_append)
  moreover have "sorted (map tr_OccurredAt (take 1000 ?old @ drop 1000 ?old))" unfolding append_take_drop_id by simp
  ultimately show "tr_OccurredAt x \<le> tr_OccurredAt y" by (simp add: sorted_append del: append_take_drop_id)
qed

lemma delete_expired_all:
  assumes "length (filter (\<lambda>r. tr_OccurredAt r < cutoff) rows) \<le> 1000" "r \<in> set (delete_expired cutoff rows)"
  shows "cutoff \<le> tr_OccurredAt r"
proof (rule ccontr)
  assume late: "\<not> cutoff \<le> tr_OccurredAt r"
  have all: "take 1000 (sort_key tr_OccurredAt (filter (\<lambda>r. tr_OccurredAt r < cutoff) rows)) =
      sort_key tr_OccurredAt (filter (\<lambda>r. tr_OccurredAt r < cutoff) rows)"
    using assms(1) by (intro take_all) simp
  show False
    using assms(2) late unfolding delete_expired_def Let_def all by auto
qed

lemma Record_cases:
  assumes "Record (Results_Create env) now newID input db = (Inr r, db')"
  obtains db1 where "db1 = db\<lparr>db_results := delete_expired (tr_RecordedAt r - telemetryRetention) (db_results db)\<rparr>"
    "insert_result r db1 = Inr db'" "ValidateResult r = None" "tr_RecordedAt r = truncate_second now"
proof -
  obtain i where r: "Results_Create env (test_result (truncate_second now) i input) db = (Inr r, db')"
      "ValidateResult r = None"
    using assms by (auto simp: Record_def Let_def split: option.splits sum.splits prod.splits if_splits)
  then have "r = test_result (truncate_second now) i input"
    by (auto simp: Results_Create_def Let_def split: commit.splits sum.splits)
  moreover from this have "tr_RecordedAt r = truncate_second now" by (simp add: test_result_def)
  ultimately show ?thesis
    using r that by (auto simp: Results_Create_def Let_def split: commit.splits sum.splits)
qed

text \<open>
  C31. Recording enforces retention without losing results, in a table whose identifiers are
  distinct. A result that was recorded is valid and in the table, and nothing else is new; every
  result of the last 30 days is still there; at most a thousand results are gone, and none of
  them is younger than an expired result that stays; no expired result stays unless a thousand
  are gone.
\<close>

theorem Record_retention:
  assumes "distinct (map tr_ID (db_results db))"
    and "Record (Results_Create env) now newID input db = (Inr r, db')"
  shows "ValidateResult r = None \<and> r \<in> set (db_results db') \<and> distinct (map tr_ID (db_results db')) \<and>
    (\<forall>x \<in> set (db_results db). tr_RecordedAt r - telemetryRetention \<le> tr_OccurredAt x \<longrightarrow> x \<in> set (db_results db')) \<and>
    set (db_results db') \<subseteq> insert r (set (db_results db)) \<and>
    card (set (db_results db) - set (db_results db')) \<le> 1000 \<and>
    (\<forall>x \<in> set (db_results db) - set (db_results db'). \<forall>y \<in> set (db_results db').
      tr_OccurredAt y < tr_RecordedAt r - telemetryRetention \<longrightarrow> tr_OccurredAt x \<le> tr_OccurredAt y) \<and>
    (length (filter (\<lambda>x. tr_OccurredAt x < tr_RecordedAt r - telemetryRetention) (db_results db)) \<le> 1000 \<longrightarrow>
      (\<forall>x \<in> set (db_results db'). tr_RecordedAt r - telemetryRetention \<le> tr_OccurredAt x))"
proof (cases rule: Record_cases [OF assms(2)])
  case (1 db1)
  let ?cutoff = "tr_RecordedAt r - telemetryRetention"
  have ins: "result_checks r" "tr_ID r \<notin> tr_ID ` set (db_results db1)" "db_results db' = db_results db1 @ [r]"
    using 1(2) by (auto simp: insert_result_def split: if_splits)
  have rows: "db_results db1 = delete_expired ?cutoff (db_results db)" using 1(1) by simp
  have window: "?cutoff \<le> tr_OccurredAt r" using ins(1) by (simp add: result_checks_def telemetryRetention_def)
  have "distinct (map tr_ID (db_results db1))"
    unfolding rows delete_expired_def Let_def using assms(1) by (rule distinct_map_filter)
  then have "distinct (map tr_ID (db_results db'))" using ins(2,3) by simp
  moreover have "r \<notin> set (db_results db) - set (db_results db')" using ins(3) by simp
  then have gone: "set (db_results db) - set (db_results db') = set (db_results db) - set (db_results db1) - {r}"
    using ins(3) by auto
  have "card (set (db_results db) - set (db_results db1) - {r}) \<le> 1000"
    using delete_expired_bound(1) [OF assms(1), of ?cutoff] card_Diff1_le [of "set (db_results db) - set (db_results db1)" r]
    unfolding rows by linarith
  then have "card (set (db_results db) - set (db_results db')) \<le> 1000" unfolding gone .
  moreover have "tr_OccurredAt x \<le> tr_OccurredAt y"
    if "x \<in> set (db_results db) - set (db_results db')" "y \<in> set (db_results db')" "tr_OccurredAt y < ?cutoff" for x y
    using that delete_expired_bound(2) [OF assms(1), of x ?cutoff y] ins(3) rows window by auto
  ultimately show ?thesis
    using 1(3) ins(3) rows window delete_expired_keeps [OF assms(1)] delete_expired_all delete_expired_subset
    by (auto simp: subset_iff)
qed

definition sample_input :: RecordInput where
  "sample_input = \<lparr>in_DeviceID = sample_uuid, in_ClientPlatform = ''linux'', in_ISP = None, in_Transport = ''amneziawg'',
     in_OccurredAt = 1000 * second, in_Success = True, in_FailureStage = None, in_ConnectionTimeBucket = ''unknown'',
     in_ThroughputBucket = None\<rparr>"

definition sample_stale :: TestResult where
  "sample_stale = (test_result 0 ''stale'' sample_input)\<lparr>tr_OccurredAt := - 3000000 * second\<rparr>"

definition sample_tdb :: "TestResult list \<Rightarrow> telemetry_db" where
  "sample_tdb rows = \<lparr>db_devices = [(sample_uuid, ''account'')], db_nodes = [], db_accesses = [], db_audits = [], db_results = rows\<rparr>"

definition sample_result :: TestResult where
  "sample_result = test_result (2000 * second) sample_uuid sample_input"

lemma sample_result_ok: "ValidateResult sample_result = None" "result_checks sample_result"
  by (simp_all add: ValidateResult_def sample_result_def test_result_def sample_input_def sample_uuid_ok validatePlatform_def
      platforms_def ValidateTransport_def AmneziaWG_def is_zero_def zero_time_def validConnectionBucket_def
      connection_buckets_def truncate_second_def second_def result_checks_def hour_def minute_def)

lemma sample_delete: "delete_expired (2000 * second - telemetryRetention) [sample_stale] = []"
  by (simp add: delete_expired_def sample_stale_def telemetryRetention_def second_def hour_def minute_def)

lemma sample_Record:
  "Record (Results_Create \<lparr>ce_delete = Committed, ce_insert = Committed\<rparr>) (2000 * second) (Some sample_uuid) sample_input
     (sample_tdb [sample_stale]) = (Inr sample_result, sample_tdb [sample_result])"
proof -
  have now: "truncate_second (2000 * second) = 2000 * second" by (simp add: truncate_second_def second_def)
  have "tr_RecordedAt sample_result = 2000 * second" "tr_DeviceID sample_result = sample_uuid"
    by (simp_all add: sample_result_def test_result_def sample_input_def)
  then have "Results_Create \<lparr>ce_delete = Committed, ce_insert = Committed\<rparr> sample_result (sample_tdb [sample_stale]) =
      (Inr sample_result, sample_tdb [sample_result])"
    using sample_result_ok(2) sample_delete by (simp add: Results_Create_def insert_result_def sample_tdb_def)
  moreover have "tr_OccurredAt sample_result = 1000 * second"
    by (simp add: sample_result_def test_result_def sample_input_def truncate_second_def second_def)
  ultimately show ?thesis
    using sample_result_ok(1)
    unfolding Record_def Let_def now option.case sample_result_def [symmetric]
    by (simp add: maximumResultAge_def maximumClockSkew_def second_def hour_def minute_def)
qed

theorem Record_retention_witness:
  "sample_result \<in> set (db_results (sample_tdb [sample_result])) \<and>
   tr_RecordedAt sample_result - telemetryRetention \<le> tr_OccurredAt sample_result"
proof -
  have dist: "distinct (map tr_ID (db_results (sample_tdb [sample_stale])))" by (simp add: sample_tdb_def)
  have "length (filter (\<lambda>x. tr_OccurredAt x < tr_RecordedAt sample_result - telemetryRetention)
      (db_results (sample_tdb [sample_stale]))) \<le> 1000" by (simp add: sample_tdb_def)
  then show ?thesis using Record_retention [OF dist sample_Record] by blast
qed

subsection \<open>The report\<close>

interpretation summary_order: slice_order summaryLess ts_Transport
  by unfold_locales (simp add: summaryLess_def)

definition rated :: "TransportSummary \<Rightarrow> TransportSummary" where
  "rated t = (if 0 < ts_Tests t then t\<lparr>ts_SuccessRate := success_rate (ts_Successes t) (ts_Tests t)\<rparr> else t)"

lemma sumTransports_ok:
  "\<forall>t \<in> set ts. ValidateTransport (ts_Transport t) = None \<and> ts_Successes t \<le> ts_Tests t \<Longrightarrow>
   sumTransports acc ts = Inr (acc + sum_list (map ts_Tests ts), map rated ts)"
  by (induction ts arbitrary: acc) (simp_all add: rated_def not_less add.assoc)

lemma sum_counts:
  "sum_list (map (\<lambda>t. length (filter (\<lambda>r. f r = t) rows)) (order_by collation (remdups (map f rows)))) = length rows"
proof -
  have "length (filter (\<lambda>r. f r = t) rows) = count_list (map f rows) t" for t
    by (induction rows) auto
  then have "sum_list (map (\<lambda>t. length (filter (\<lambda>r. f r = t) rows)) (order_by collation (remdups (map f rows)))) =
      sum (count_list (map f rows)) (set (map f rows))"
    by (simp add: sum_list_distinct_conv_sum_set)
  then show ?thesis using sum_count_set [of "map f rows" "set (map f rows)"] by simp
qed

lemma of_nat_sum_list: "of_nat (sum_list xs) = (sum_list (map of_nat xs) :: uint64)"
  by (induction xs) simp_all

lemma sum_transport_rows: "sum_list (map ts_Tests (transport_rows collation rows)) = of_nat (length rows)"
proof -
  have "sum_list (map ts_Tests (transport_rows collation rows)) =
      of_nat (sum_list (map (\<lambda>t. length (filter (\<lambda>r. tr_Transport r = t) rows)) (order_by collation (remdups (map tr_Transport rows)))))"
    by (simp only: of_nat_sum_list transport_rows_def map_map comp_def TransportSummary.select_convs)
  then show ?thesis by (simp only: sum_counts)
qed

lemma unat_count: "length xs \<le> n \<Longrightarrow> n < 2 ^ 63 \<Longrightarrow> unat (of_nat (length xs) :: uint64) = length xs"
  by (simp add: unat_of_nat)

lemma result_transport: "ValidateResult r = None \<Longrightarrow> ValidateTransport (tr_Transport r) = None"
  by (cases "ValidateTransport (tr_Transport r)")
    (simp_all add: ValidateResult_def split: if_split_asm option.split_asm)

lemma result_stage:
  assumes "ValidateResult r = None" "tr_FailureStage r = Some s"
  shows "validFailureStage s"
proof (rule ccontr)
  assume "\<not> validFailureStage s"
  then show False
    using assms unfolding ValidateResult_def
    by (cases "validatePlatform (tr_ClientPlatform r)"; cases "ValidateTransport (tr_Transport r)")
      (simp_all split: if_split_asm)
qed

lemma transport_rows_ok:
  assumes "\<forall>r \<in> set rows. ValidateResult r = None" "length rows < 2 ^ 63" "t \<in> set (transport_rows collation rows)"
  shows "ValidateTransport (ts_Transport t) = None" "ts_Successes t \<le> ts_Tests t"
    "unat (ts_Tests t) = length (filter (\<lambda>r. tr_Transport r = ts_Transport t) rows)"
    "unat (ts_Successes t) = length (filter (\<lambda>r. tr_Transport r = ts_Transport t \<and> tr_Success r) rows)"
proof -
  obtain r where r: "r \<in> set rows" "ts_Transport t = tr_Transport r"
    and t: "ts_Tests t = of_nat (length (filter (\<lambda>r. tr_Transport r = ts_Transport t) rows))"
      "ts_Successes t = of_nat (length (filter (\<lambda>r. tr_Transport r = ts_Transport t \<and> tr_Success r) rows))"
    using assms(3) by (auto simp: transport_rows_def)
  show "ValidateTransport (ts_Transport t) = None"
    using assms(1) r result_transport by simp
  have n: "unat (ts_Tests t) = length (filter (\<lambda>r. tr_Transport r = ts_Transport t) rows)"
    "unat (ts_Successes t) = length (filter (\<lambda>r. tr_Transport r = ts_Transport t \<and> tr_Success r) rows)"
    unfolding t(1,2) by (rule unat_count [OF length_filter_le assms(2)])+
  then show "unat (ts_Tests t) = length (filter (\<lambda>r. tr_Transport r = ts_Transport t) rows)"
    "unat (ts_Successes t) = length (filter (\<lambda>r. tr_Transport r = ts_Transport t \<and> tr_Success r) rows)" .
  have "length (filter (\<lambda>r. tr_Transport r = ts_Transport t \<and> tr_Success r) rows) \<le>
      length (filter (\<lambda>r. tr_Transport r = ts_Transport t) rows)"
    by (induction rows) auto
  then show "ts_Successes t \<le> ts_Tests t" unfolding word_le_nat_alt n .
qed

lemma stage_rows_ok:
  assumes "\<forall>r \<in> set rows. ValidateResult r = None" "length rows < 2 ^ 63" "f \<in> set (stage_rows collation rows)"
  shows "validFailureStage (fs_Stage f)" "fs_Failures f \<noteq> 0"
    "unat (fs_Failures f) = length (filter (\<lambda>r. \<not> tr_Success r \<and> tr_FailureStage r = Some (fs_Stage f)) rows)"
proof -
  obtain r where r: "r \<in> set rows" "\<not> tr_Success r" "tr_FailureStage r = Some (fs_Stage f)"
    and f: "fs_Failures f = of_nat (length (filter (\<lambda>r. \<not> tr_Success r \<and> tr_FailureStage r = Some (fs_Stage f)) rows))"
    using assms(3) by (auto simp: stage_rows_def List.map_filter_def)
  show "validFailureStage (fs_Stage f)"
    using assms(1) r result_stage by blast
  show n: "unat (fs_Failures f) = length (filter (\<lambda>r. \<not> tr_Success r \<and> tr_FailureStage r = Some (fs_Stage f)) rows)"
    unfolding f by (rule unat_count [OF length_filter_le assms(2)])
  have "filter (\<lambda>r. \<not> tr_Success r \<and> tr_FailureStage r = Some (fs_Stage f)) rows \<noteq> []"
    using r by (auto simp: filter_empty_conv)
  with n show "fs_Failures f \<noteq> 0" by auto
qed

lemma isp_rows_ok:
  assumes "length rows < 2 ^ 63" "f \<in> set (isp_rows collation rows)"
  shows "unat (isp_Failures f) = isp_failures rows (isp_ISP f)" "2 \<le> isp_failures rows (isp_ISP f)"
proof -
  have f: "isp_Failures f = of_nat (isp_failures rows (isp_ISP f))" "2 \<le> isp_failures rows (isp_ISP f)"
    using assms(2) by (auto simp: isp_rows_def Let_def dest!: in_set_takeD)
  show "2 \<le> isp_failures rows (isp_ISP f)" by (rule f(2))
  show "unat (isp_Failures f) = isp_failures rows (isp_ISP f)"
    unfolding f(1) isp_failures_def by (rule unat_count [OF length_filter_le assms(1)])
qed

lemma period_ok: "validPeriod (cloneTime (if xs = [] then None else Some (Min (set xs))))
    (cloneTime (if xs = [] then None else Some (Max (set xs))))"
proof (cases "xs = []")
  case False
  then have "Min (set xs) \<le> Max (set xs)" by (metis List.finite_set Max_ge Min_in set_empty)
  then show ?thesis using False truncate_second_mono [of "Min (set xs)" "Max (set xs)"]
    by (simp add: validPeriod_def cloneTime_def not_less)
qed (simp add: validPeriod_def cloneTime_def)

text \<open>
  C30. Over a table of valid results the report always comes out, and it counts right: the total
  is the number of results of the last 30 days by the database's clock, without wrapping; each
  transport has its own number of tests and successes and each stage its own number of failures;
  and no provider is named on fewer than
  two failures.
\<close>

theorem Report_counts:
  assumes "\<forall>r \<in> set (db_results db). ValidateResult r = None" "length (db_results db) < 2 ^ 63"
    and "filter (\<lambda>r. current - 30 * 24 * hour \<le> tr_OccurredAt r) (db_results db) = rows"
  shows "\<exists>report. Service_Report (Results_Aggregate collation None current db) now metrics = Inr report \<and>
    unat (rp_TotalTests report) = length rows \<and>
    (\<forall>t \<in> set (rp_Transports report).
      unat (ts_Tests t) = length (filter (\<lambda>r. tr_Transport r = ts_Transport t) rows) \<and>
      unat (ts_Successes t) = length (filter (\<lambda>r. tr_Transport r = ts_Transport t \<and> tr_Success r) rows)) \<and>
    (\<forall>f \<in> set (rp_FailuresByStage report).
      unat (fs_Failures f) = length (filter (\<lambda>r. \<not> tr_Success r \<and> tr_FailureStage r = Some (fs_Stage f)) rows)) \<and>
    (\<forall>f \<in> set (rp_FailuresByISP report).
      2 \<le> isp_failures rows (isp_ISP f) \<and> unat (isp_Failures f) = isp_failures rows (isp_ISP f))"
proof -
  have valid: "\<forall>r \<in> set rows. ValidateResult r = None" using assms(1,3) by auto
  have len: "length rows < 2 ^ 63"
    using assms(2) length_filter_le unfolding assms(3) [symmetric] by (rule le_less_trans [rotated])
  have sum: "sumTransports 0 (transport_rows collation rows) = Inr (of_nat (length rows), map rated (transport_rows collation rows))"
    using sumTransports_ok [of "transport_rows collation rows" 0] transport_rows_ok [OF valid len] by (simp add: sum_transport_rows)
  have stages: "\<not> list_ex (\<lambda>f. \<not> validFailureStage (fs_Stage f) \<or> fs_Failures f = 0) (stage_rows collation rows)"
    using stage_rows_ok [OF valid len] by (auto simp: list_ex_iff)
  have aggregate: "Results_Aggregate collation None current db moment =
      Inr \<lparr>ag_ActiveUsers = of_nat (length (active_accounts moment db)), ag_ActiveDevices = of_nat (length (active_devices moment db)),
        ag_FirstTestAt = (if map tr_OccurredAt rows = [] then None else Some (Min (set (map tr_OccurredAt rows)))),
        ag_LastTestAt = (if map tr_OccurredAt rows = [] then None else Some (Max (set (map tr_OccurredAt rows)))),
        ag_Transports = transport_rows collation rows, ag_FailuresByStage = stage_rows collation rows,
        ag_FailuresByISP = isp_rows collation rows\<rparr>" for moment
    unfolding Results_Aggregate_def option.case Let_def assms(3) by (rule refl)
  obtain report where report: "Service_Report (Results_Aggregate collation None current db) now metrics = Inr report"
      "rp_TotalTests report = of_nat (length rows)" "rp_FailuresByStage report = stage_rows collation rows"
      "rp_FailuresByISP report = isp_rows collation rows"
      "set (rp_Transports report) = rated ` set (transport_rows collation rows)"
    using sum stages period_ok [of "map tr_OccurredAt rows"]
    by (simp add: Service_Report_def aggregate Let_def)
  have rated: "ts_Transport (rated t) = ts_Transport t" "ts_Tests (rated t) = ts_Tests t"
    "ts_Successes (rated t) = ts_Successes t" for t by (simp_all add: rated_def)
  show ?thesis
    using report isp_rows_ok [OF len] transport_rows_ok [OF valid len] stage_rows_ok(3) [OF valid len] unat_count [OF order.refl len]
    by (intro exI [of _ report]) (simp add: rated)
qed

theorem Report_counts_witness:
  "\<exists>report. Service_Report (Results_Aggregate id None (2000 * second) (sample_tdb [sample_result])) (2000 * second)
     (None :: (string + Metrics) option) = Inr report \<and> unat (rp_TotalTests report) = 1"
proof -
  have "filter (\<lambda>r. 2000 * second - 30 * 24 * hour \<le> tr_OccurredAt r) (db_results (sample_tdb [sample_result])) = [sample_result]"
    by (simp add: sample_tdb_def sample_result_def test_result_def sample_input_def truncate_second_def
        second_def hour_def minute_def)
  then show ?thesis
    using Report_counts [of "sample_tdb [sample_result]" "2000 * second" "[sample_result]" id "2000 * second"
        "None :: (string + Metrics) option"] sample_result_ok(1)
    by (fastforce simp: sample_tdb_def)
qed

end
