(* ===== verification/PilotApi.thy ===== *)
theory PilotApi
  imports PilotTelemetry Policy
begin

text \<open>
  \<open>internal/pilotapi\<close>: the HTTP handler of the pilot administration, in front of the access and
  telemetry services. The services are the handler's arguments, functions on a state, so that
  the lemmas can say what a request leaves unchanged; an error carries whether its cause is an
  exceeded deadline. \<open>mime.ParseMediaType\<close> is an argument. Of the three letters outside ASCII
  that fold to ASCII letters none occurs in \<open>Bearer\<close>, so folding is lower case here.

  A body over the limit is refused in any case; whether the decoder meets a syntax error before
  it reads past the limit depends on how the body is buffered, and is part of the request.
\<close>

subsection \<open>Data\<close>

definition maxRequestBytes :: nat where "maxRequestBytes = 8 * 1024"

record api_request =
  rq_Method :: string
  rq_Path :: string
  rq_Authorization :: string
  rq_ContentType :: string
  rq_Body :: bytes
  rq_early :: bool

datatype payload = ErrorBody string | AccessBody Access | ResultBody TestResult | ReportBody Report

record api_response =
  rs_Status :: int
  rs_Header :: "string \<rightharpoonup> string"
  rs_Body :: payload

datatype service_error = AccessError access_error bool | TelemetryError telemetry_error bool

record 's services =
  sv_Register :: "RegisterInput \<Rightarrow> 's \<Rightarrow> (service_error + Access) \<times> 's"
  sv_Revoke :: "string \<Rightarrow> 's \<Rightarrow> (service_error + Access) \<times> 's"
  sv_Record :: "RecordInput \<Rightarrow> 's \<Rightarrow> (service_error + TestResult) \<times> 's"
  sv_Report :: "'s \<Rightarrow> service_error + Report"

record Handler =
  h_telemetry :: bool
  h_token :: bytes

datatype api_error = TokenLength | TokenPlaceholder | TokenCharacters

definition control_or_space :: "nat \<Rightarrow> bool" where
  "control_or_space r \<longleftrightarrow> r \<le> 0x20 \<or> r = 127"

definition NewWithTelemetry :: "crypto \<Rightarrow> bool \<Rightarrow> string \<Rightarrow> api_error + Handler" where
  "NewWithTelemetry c telemetry token =
    (if length token < 32 \<or> 512 < length token then Inl TokenLength
     else if lower_contains token ''replace-with'' then Inl TokenPlaceholder
     else if list_ex control_or_space (runes token) then Inl TokenCharacters
     else Inr \<lparr>h_telemetry = telemetry, h_token = sha256_sum c token\<rparr>)"

subsection \<open>Requests\<close>

fun dec_ptr :: "(json \<Rightarrow> 'a \<Rightarrow> 'a option) \<Rightarrow> 'a \<Rightarrow> json \<Rightarrow> 'a option \<Rightarrow> 'a option option" where
  "dec_ptr dec zero JNull x = Some None"
| "dec_ptr dec zero v x = map_option Some (dec v (case x of None \<Rightarrow> zero | Some y \<Rightarrow> y))"

definition zero_register :: RegisterInput where
  "zero_register = \<lparr>ri_DeviceID = [], ri_NodeID = [], ri_Transport = [], ri_ExternalReference = [], ri_ExpiresAt = None\<rparr>"

definition registerRequest :: "RegisterInput field list" where
  "registerRequest =
    [(''device_id'', field_of dec_string ri_DeviceID (\<lambda>x. ri_DeviceID_update (\<lambda>_. x))),
     (''node_id'', field_of dec_string ri_NodeID (\<lambda>x. ri_NodeID_update (\<lambda>_. x))),
     (''transport'', field_of dec_string ri_Transport (\<lambda>x. ri_Transport_update (\<lambda>_. x))),
     (''external_reference'', field_of dec_string ri_ExternalReference (\<lambda>x. ri_ExternalReference_update (\<lambda>_. x))),
     (''expires_at'', field_of (dec_ptr dec_time zero_time) ri_ExpiresAt (\<lambda>x. ri_ExpiresAt_update (\<lambda>_. x)))]"

definition zero_result :: RecordInput where
  "zero_result = \<lparr>in_DeviceID = [], in_ClientPlatform = [], in_ISP = None, in_Transport = [], in_OccurredAt = zero_time,
     in_Success = False, in_FailureStage = None, in_ConnectionTimeBucket = [], in_ThroughputBucket = None\<rparr>"

definition testResultRequest :: "RecordInput field list" where
  "testResultRequest =
    [(''device_id'', field_of dec_string in_DeviceID (\<lambda>x. in_DeviceID_update (\<lambda>_. x))),
     (''client_platform'', field_of dec_string in_ClientPlatform (\<lambda>x. in_ClientPlatform_update (\<lambda>_. x))),
     (''isp'', field_of (dec_ptr dec_string []) in_ISP (\<lambda>x. in_ISP_update (\<lambda>_. x))),
     (''transport'', field_of dec_string in_Transport (\<lambda>x. in_Transport_update (\<lambda>_. x))),
     (''occurred_at'', field_of dec_time in_OccurredAt (\<lambda>x. in_OccurredAt_update (\<lambda>_. x))),
     (''success'', field_of dec_bool in_Success (\<lambda>x. in_Success_update (\<lambda>_. x))),
     (''failure_stage'', field_of (dec_ptr dec_string []) in_FailureStage (\<lambda>x. in_FailureStage_update (\<lambda>_. x))),
     (''connection_time_bucket'',
       field_of dec_string in_ConnectionTimeBucket (\<lambda>x. in_ConnectionTimeBucket_update (\<lambda>_. x))),
     (''throughput_bucket'',
       field_of (dec_ptr dec_string []) in_ThroughputBucket (\<lambda>x. in_ThroughputBucket_update (\<lambda>_. x)))]"

datatype body_error = TooLarge | BadBody

definition decodeBody :: "(json \<Rightarrow> 'a \<Rightarrow> 'a option) \<Rightarrow> 'a \<Rightarrow> api_request \<Rightarrow> body_error + 'a" where
  "decodeBody dec target req =
    (if maxRequestBytes < length (rq_Body req) then Inl (if rq_early req then BadBody else TooLarge)
     else case decodeStrict dec target (rq_Body req) of Inl _ \<Rightarrow> Inl BadBody | Inr x \<Rightarrow> Inr x)"

subsection \<open>Responses\<close>

definition setHeaders :: "string \<rightharpoonup> string" where
  "setHeaders = [''Cache-Control'' \<mapsto> ''no-store'',
     ''Content-Security-Policy'' \<mapsto> ''default-src 'none'; frame-ancestors 'none'' @ [CHR 0x27],
     ''Referrer-Policy'' \<mapsto> ''no-referrer'', ''X-Content-Type-Options'' \<mapsto> ''nosniff'']"

definition writeJSON :: "(string \<rightharpoonup> string) \<Rightarrow> int \<Rightarrow> payload \<Rightarrow> api_response" where
  "writeJSON header status value' =
    \<lparr>rs_Status = status, rs_Header = header(''Content-Type'' \<mapsto> ''application/json''), rs_Body = value'\<rparr>"

definition writeError :: "(string \<rightharpoonup> string) \<Rightarrow> int \<Rightarrow> string \<Rightarrow> api_response" where
  "writeError header status message = writeJSON header status (ErrorBody message)"

text \<open>
  \<open>errors.Is\<close> looks through the wrapping of an error: a record that the store returned and the
  service found invalid still counts as invalid input.
\<close>

fun is_invalid :: "service_error \<Rightarrow> bool" where
  "is_invalid (AccessError e d) \<longleftrightarrow> (case e of ErrInvalid _ \<Rightarrow> True | StoredInvalid _ \<Rightarrow> True | _ \<Rightarrow> False)"
| "is_invalid (TelemetryError e d) \<longleftrightarrow> (case e of ResultInvalid _ \<Rightarrow> True | StoredResultInvalid _ \<Rightarrow> True | _ \<Rightarrow> False)"

fun is_conflict :: "service_error \<Rightarrow> bool" where
  "is_conflict (AccessError e d) \<longleftrightarrow> e = ErrConflict"
| "is_conflict (TelemetryError e d) \<longleftrightarrow> e = ResultConflict"

fun is_not_found :: "service_error \<Rightarrow> bool" where
  "is_not_found (AccessError e d) \<longleftrightarrow> e = ErrNotFound"
| "is_not_found (TelemetryError e d) \<longleftrightarrow> False"

fun is_deadline :: "service_error \<Rightarrow> bool" where
  "is_deadline (AccessError e d) \<longleftrightarrow> d"
| "is_deadline (TelemetryError e d) \<longleftrightarrow> d"

definition serviceError :: "(string \<rightharpoonup> string) \<Rightarrow> service_error \<Rightarrow> api_response" where
  "serviceError header err =
    (if is_invalid err then writeError header 400 ''invalid pilot metadata''
     else if is_not_found err then writeError header 404 ''access not found''
     else if is_conflict err then writeError header 409 ''record already exists''
     else if is_deadline err then writeError header 503 ''service temporarily unavailable''
     else writeError header 500 ''internal error'')"

subsection \<open>The handler\<close>

definition authorized :: "crypto \<Rightarrow> Handler \<Rightarrow> api_request \<Rightarrow> bool" where
  "authorized c handler req \<longleftrightarrow>
    (let (scheme, presented, found) = cut (rq_Authorization req) (CHR '' '') in
     if \<not> found \<or> to_lower scheme \<noteq> ''bearer'' \<or> presented = '''' \<or> list_ex control_or_space (runes presented) then False
     else sha256_sum c presented = h_token handler)"

definition methodNotAllowed :: "string \<Rightarrow> api_response" where
  "methodNotAllowed allow = writeError (setHeaders(''Allow'' \<mapsto> allow)) 405 ''method not allowed''"

definition bodyError :: "body_error \<Rightarrow> api_response" where
  "bodyError err =
    (case err of
       TooLarge \<Rightarrow> writeError setHeaders 413 ''request too large''
     | BadBody \<Rightarrow> writeError setHeaders 400 ''invalid request'')"

definition post_json ::
  "(string \<Rightarrow> string option) \<Rightarrow> (json \<Rightarrow> 'a \<Rightarrow> 'a option) \<Rightarrow> 'a \<Rightarrow> ('a \<Rightarrow> 's \<Rightarrow> (service_error + 'b) \<times> 's) \<Rightarrow>
   ('b \<Rightarrow> payload) \<Rightarrow> api_request \<Rightarrow> 's \<Rightarrow> api_response \<times> 's" where
  "post_json mediaType dec zero call respond req s =
    (if rq_Method req \<noteq> ''POST'' then (methodNotAllowed ''POST'', s)
     else if mediaType (rq_ContentType req) \<noteq> Some ''application/json''
     then (writeError setHeaders 415 ''Content-Type must be application/json'', s)
     else case decodeBody dec zero req of
       Inl err \<Rightarrow> (bodyError err, s)
     | Inr input \<Rightarrow>
         (case call input s of
            (Inl err, s') \<Rightarrow> (serviceError setHeaders err, s')
          | (Inr result, s') \<Rightarrow> (writeJSON setHeaders 201 (respond result), s')))"

definition register :: "(string \<Rightarrow> string option) \<Rightarrow> 's services \<Rightarrow> api_request \<Rightarrow> 's \<Rightarrow> api_response \<times> 's" where
  "register mediaType services =
    post_json mediaType (dec_struct registerRequest) zero_register (sv_Register services) AccessBody"

definition recordTestResult :: "(string \<Rightarrow> string option) \<Rightarrow> 's services \<Rightarrow> api_request \<Rightarrow> 's \<Rightarrow> api_response \<times> 's" where
  "recordTestResult mediaType services =
    post_json mediaType (dec_struct testResultRequest) zero_result (sv_Record services) ResultBody"

definition trim_prefix :: "string \<Rightarrow> string \<Rightarrow> string" where
  "trim_prefix s p = (if has_prefix s p then drop (length p) s else s)"

definition trim_suffix :: "string \<Rightarrow> string \<Rightarrow> string" where
  "trim_suffix s p = (if has_suffix s p then take (length s - length p) s else s)"

definition revoke :: "'s services \<Rightarrow> api_request \<Rightarrow> 's \<Rightarrow> api_response \<times> 's" where
  "revoke services req s =
    (if rq_Method req \<noteq> ''POST'' then (methodNotAllowed ''POST'', s)
     else
       let identifier = trim_suffix (trim_prefix (rq_Path req) ''/admin/pilot/access/'') ''/revoke'' in
       if identifier = '''' \<or> CHR ''/'' \<in> set identifier then (writeError setHeaders 404 ''not found'', s)
       else case sv_Revoke services identifier s of
         (Inl err, s') \<Rightarrow> (serviceError setHeaders err, s')
       | (Inr access, s') \<Rightarrow> (writeJSON setHeaders 200 (AccessBody access), s'))"

definition report :: "'s services \<Rightarrow> api_request \<Rightarrow> 's \<Rightarrow> api_response \<times> 's" where
  "report services req s =
    (if rq_Method req \<noteq> ''GET'' then (methodNotAllowed ''GET'', s)
     else case sv_Report services s of
       Inl err \<Rightarrow> (serviceError setHeaders err, s)
     | Inr r \<Rightarrow> (writeJSON setHeaders 200 (ReportBody r), s))"

definition ServeHTTP ::
  "crypto \<Rightarrow> (string \<Rightarrow> string option) \<Rightarrow> Handler \<Rightarrow> 's services \<Rightarrow> api_request \<Rightarrow> 's \<Rightarrow> api_response \<times> 's" where
  "ServeHTTP c mediaType handler services req s =
    (if \<not> authorized c handler req
     then (writeError (setHeaders(''WWW-Authenticate'' \<mapsto> ''Bearer realm=\"pilot-admin\"'')) 401 ''unauthorized'', s)
     else if rq_Path req = ''/admin/pilot/access'' then register mediaType services req s
     else if has_prefix (rq_Path req) ''/admin/pilot/access/'' \<and> has_suffix (rq_Path req) ''/revoke''
     then revoke services req s
     else if rq_Path req = ''/admin/pilot/test-results'' \<and> h_telemetry handler
     then recordTestResult mediaType services req s
     else if rq_Path req = ''/admin/pilot/report'' \<and> h_telemetry handler then report services req s
     else (writeError setHeaders 404 ''not found'', s))"

subsection \<open>What a request can change\<close>

lemma post_json_state:
  "snd (post_json mediaType dec zero call respond req s) = s \<or>
   (rq_Method req = ''POST'' \<and> (\<exists>input. snd (post_json mediaType dec zero call respond req s) = snd (call input s)))"
proof (cases "decodeBody dec zero req")
  case (Inr input)
  then have "snd (post_json mediaType dec zero call respond req s) = s \<or>
      (rq_Method req = ''POST'' \<and> snd (post_json mediaType dec zero call respond req s) = snd (call input s))"
    by (cases "call input s") (auto simp: post_json_def split: sum.splits)
  then show ?thesis by blast
qed (simp add: post_json_def)

lemma revoke_state:
  "snd (revoke services req s) = s \<or>
   (rq_Method req = ''POST'' \<and> (\<exists>i. CHR ''/'' \<notin> set i \<and> snd (revoke services req s) = snd (sv_Revoke services i s)))"
proof -
  let ?i = "trim_suffix (trim_prefix (rq_Path req) ''/admin/pilot/access/'') ''/revoke''"
  have "snd (revoke services req s) = s \<or>
      (rq_Method req = ''POST'' \<and> CHR ''/'' \<notin> set ?i \<and> snd (revoke services req s) = snd (sv_Revoke services ?i s))"
    by (cases "sv_Revoke services ?i s") (auto simp: revoke_def Let_def split: sum.splits)
  then show ?thesis by blast
qed

lemma report_state [simp]: "snd (report services req s) = s"
  by (simp add: report_def split: sum.split)

definition write_of :: "'s services \<Rightarrow> 's \<Rightarrow> 's \<Rightarrow> bool" where
  "write_of services s s' \<longleftrightarrow>
    (\<exists>input. s' = snd (sv_Register services input s)) \<or> (\<exists>i. s' = snd (sv_Revoke services i s)) \<or>
    (\<exists>input. s' = snd (sv_Record services input s))"

lemma ServeHTTP_state:
  "snd (ServeHTTP c mediaType handler services req s) = s \<or>
   (authorized c handler req \<and> rq_Method req = ''POST'' \<and>
    write_of services s (snd (ServeHTTP c mediaType handler services req s)))"
proof (cases "authorized c handler req")
  case True
  show ?thesis
    using True post_json_state [of mediaType "dec_struct registerRequest" zero_register "sv_Register services" AccessBody req s]
      post_json_state [of mediaType "dec_struct testResultRequest" zero_result "sv_Record services" ResultBody req s]
      revoke_state [of services req s]
    unfolding ServeHTTP_def register_def recordTestResult_def write_of_def by auto
qed (simp add: ServeHTTP_def)

lemma ServeHTTP_unauthorized: "\<not> authorized c handler req \<Longrightarrow> snd (ServeHTTP c mediaType handler services req s) = s"
  by (simp add: ServeHTTP_def)

subsection \<open>The API over the services and their stores\<close>

text \<open>One request with what the environment does to it: clock, random source and database.\<close>

record api_env =
  env_now :: time
  env_newID :: "string option"
  env_tx :: transaction
  env_create :: create_env
  env_collation :: "string \<Rightarrow> string"
  env_fault :: "nat option"
  env_current :: time
  env_metrics :: "(string + Metrics) option"
  env_deadline :: bool

definition access_result :: "bool \<Rightarrow> (access_error + 'a) \<times> 's \<Rightarrow> (service_error + 'a) \<times> 's" where
  "access_result d r = (map_sum (\<lambda>e. AccessError e d) id (fst r), snd r)"

definition telemetry_result :: "bool \<Rightarrow> (telemetry_error + 'a) \<times> 's \<Rightarrow> (service_error + 'a) \<times> 's" where
  "telemetry_result d r = (map_sum (\<lambda>e. TelemetryError e d) id (fst r), snd r)"

definition pg_services :: "api_env \<Rightarrow> telemetry_db services" where
  "pg_services env =
    \<lparr>sv_Register = (\<lambda>input db. access_result (env_deadline env)
        (Register (Store_Create (env_tx env)) (env_now env) (env_newID env) input db)),
     sv_Revoke = (\<lambda>i db. access_result (env_deadline env) (Revoke (Store_Revoke (env_tx env)) (env_now env) i db)),
     sv_Record = (\<lambda>input db. telemetry_result (env_deadline env)
        (Record (Results_Create (env_create env)) (env_now env) (env_newID env) input db)),
     sv_Report = (\<lambda>db. map_sum (\<lambda>e. TelemetryError e (env_deadline env)) id
        (Service_Report (Results_Aggregate (env_collation env) (env_fault env) (env_current env) db) (env_now env) (env_metrics env)))\<rparr>"

definition api_step ::
  "crypto \<Rightarrow> (string \<Rightarrow> string option) \<Rightarrow> Handler \<Rightarrow> api_env \<times> api_request \<Rightarrow> telemetry_db \<Rightarrow> telemetry_db" where
  "api_step c mediaType handler x db = snd (ServeHTTP c mediaType handler (pg_services (fst x)) (snd x) db)"

lemma access_inv_results [simp]: "access_inv (db\<lparr>db_results := rows\<rparr>) = access_inv db"
  by (simp add: access_inv_def audited_def events_def)

lemma Results_Create_access: "\<exists>rows. snd (Results_Create env result db) = db\<lparr>db_results := rows\<rparr>"
proof -
  have "\<exists>rows. db2 = db\<lparr>db_results := rows\<rparr>"
    if "insert_result result (db\<lparr>db_results := rows0\<rparr>) = Inr db2" for rows0 db2
    using that by (auto simp: insert_result_def split: if_splits)
  moreover have "\<exists>rows. db = db\<lparr>db_results := rows\<rparr>" by (rule exI [of _ "db_results db"]) simp
  ultimately show ?thesis
    by (cases "ce_delete env"; cases "ce_insert env") (auto simp: Results_Create_def Let_def split: sum.split)
qed

lemma Record_access: "\<exists>rows. snd (Record (Results_Create env) now newID input db) = db\<lparr>db_results := rows\<rparr>"
proof -
  have "\<exists>rows. db = db\<lparr>db_results := rows\<rparr>" by (rule exI [of _ "db_results db"]) simp
  then show ?thesis
    using Results_Create_access [of env _ db]
    by (auto simp: Record_def Let_def split: option.splits sum.splits prod.splits) (metis snd_conv)+
qed

lemma write_of_inv:
  assumes "access_inv db" "write_of (pg_services env) db db'"
  shows "access_inv db'"
  using assms(2) unfolding write_of_def
proof (elim disjE exE)
  fix input assume "db' = snd (sv_Register (pg_services env) input db)"
  then show ?thesis
    using pg.call_inv [OF assms(1), of "CallRegister (env_tx env) (env_now env) (env_newID env) input"]
    by (simp add: pg_services_def access_result_def)
next
  fix i assume "db' = snd (sv_Revoke (pg_services env) i db)"
  then show ?thesis
    using pg.call_inv [OF assms(1), of "CallRevoke (env_tx env) (env_now env) i"]
    by (simp add: pg_services_def access_result_def)
next
  fix input assume "db' = snd (sv_Record (pg_services env) input db)"
  then obtain rows where "db' = db\<lparr>db_results := rows\<rparr>"
    using Record_access by (force simp: pg_services_def telemetry_result_def)
  then show ?thesis using assms(1) by simp
qed

lemma api_step_inv: "access_inv db \<Longrightarrow> access_inv (api_step c mediaType handler x db)"
  unfolding api_step_def using ServeHTTP_state write_of_inv by metis

lemma api_run_inv: "access_inv db \<Longrightarrow> access_inv (fold (api_step c mediaType handler) xs db)"
  by (induction xs arbitrary: db) (simp_all add: api_step_inv)

definition sample_token :: string where "sample_token = ''aaaaaaaaaaaaaaaaaaaaaaaaaaaaaaaa''"

definition sample_handler :: Handler where
  "sample_handler = \<lparr>h_telemetry = True, h_token = sha256_sum sample_crypto sample_token\<rparr>"

definition sample_request :: "string \<Rightarrow> api_request" where
  "sample_request auth = \<lparr>rq_Method = ''POST'', rq_Path = ''/admin/pilot/access/x/revoke'', rq_Authorization = auth,
     rq_ContentType = '''', rq_Body = [], rq_early = False\<rparr>"

definition sample_env :: api_env where
  "sample_env = \<lparr>env_now = 1000 * second, env_newID = Some sample_uuid, env_tx = sample_tx ''audit-1'',
     env_create = \<lparr>ce_delete = Committed, ce_insert = Committed\<rparr>, env_collation = id, env_fault = None, env_current = 1000 * second,
     env_metrics = None, env_deadline = False\<rparr>"

lemma sample_token_runes: "runes sample_token = replicate 32 0x61"
  by (simp add: sample_token_def runes_ascii) (simp add: numeral_eq_Suc)

lemma sample_token_plain: "\<not> list_ex control_or_space (runes sample_token)"
  by (simp add: sample_token_runes list_ex_iff control_or_space_def)

lemma sample_handler_new: "NewWithTelemetry sample_crypto True sample_token = Inr sample_handler"
proof -
  have "length sample_token = 32" by (simp add: sample_token_def)
  moreover have "\<not> lower_contains sample_token ''replace-with''"
    by (simp add: lower_contains_def sample_token_runes lower_rune_def) (simp add: numeral_eq_Suc)
  ultimately show ?thesis using sample_token_plain by (simp add: NewWithTelemetry_def sample_handler_def)
qed

lemma sample_authorized: "authorized sample_crypto sample_handler (sample_request (''Bearer '' @ sample_token))"
proof -
  have "cut (''Bearer '' @ sample_token) (CHR '' '') = (''Bearer'', sample_token, True)"
    by (simp add: cut_def)
  moreover have "to_lower ''Bearer'' = ''bearer''" by (simp add: to_lower_def is_upper_def char_of_eq_iff)
  moreover have "sample_token \<noteq> []" by (simp add: sample_token_def)
  ultimately show ?thesis
    using sample_token_plain by (simp add: authorized_def sample_request_def sample_handler_def)
qed

lemma sample_unauthorized: "\<not> authorized sample_crypto sample_handler (sample_request '''')"
  by (simp add: authorized_def sample_request_def cut_def)

text \<open>
  A request presents a token when its header is the token after the scheme Bearer, in any case,
  and one space; only the digests of the tokens are compared.
\<close>

definition presents :: "crypto \<Rightarrow> string \<Rightarrow> api_request \<Rightarrow> bool" where
  "presents c token req \<longleftrightarrow>
    (\<exists>scheme presented. rq_Authorization req = scheme @ '' '' @ presented \<and> to_lower scheme = ''bearer'' \<and>
      sha256_sum c presented = sha256_sum c token)"

lemma authorized_presents:
  assumes "authorized c handler req" "h_token handler = sha256_sum c token"
  shows "presents c token req"
proof -
  obtain i where i: "index_byte (rq_Authorization req) (CHR '' '') = Some i"
      "to_lower (take i (rq_Authorization req)) = ''bearer''"
      "sha256_sum c (drop (Suc i) (rq_Authorization req)) = h_token handler"
    using assms(1) by (auto simp: authorized_def cut_def split: option.splits if_splits)
  moreover have "s = take i s @ [x] @ drop (Suc i) s" if "index_byte s x = Some i" for s x i
    using that by (induction s arbitrary: i) (auto split: if_splits)
  ultimately show ?thesis unfolding presents_def using assms(2) by fastforce
qed

text \<open>
  C33. Whatever requests arrive at the handler made for a token, in whatever order and with
  whatever failures, the tables behind the administration API stay consistent when they were
  empty at first: every access is valid and has its audit events. And requests that do not present
  the token after the scheme Bearer, up to a collision of SHA-256, might as well not have been
  sent: leaving them out of the sequence gives the same tables.
\<close>

theorem api_run:
  assumes "NewWithTelemetry c telemetry token = Inr handler"
    and "db_accesses db = []" "db_audits db = []" and "fold (api_step c mediaType handler) xs db = db'"
  shows "(\<forall>a \<in> set (db_accesses db'). ValidateAccess a = None \<and> audited db' a) \<and>
    fold (api_step c mediaType handler) (filter (\<lambda>x. presents c token (snd x)) xs) db = db'"
proof -
  have inv: "access_inv db'" using api_run_inv [OF empty_inv [OF assms(2,3)]] assms(4) by blast
  have token: "h_token handler = sha256_sum c token"
    using assms(1) by (auto simp: NewWithTelemetry_def split: if_splits)
  have silent: "api_step c mediaType handler x d = d" if "\<not> presents c token (snd x)" for x d
  proof -
    have "\<not> authorized c handler (snd x)" using that authorized_presents [OF _ token] by blast
    then show ?thesis by (simp add: api_step_def ServeHTTP_unauthorized)
  qed
  have "fold (api_step c mediaType handler) (filter (\<lambda>x. presents c token (snd x)) xs) d =
      fold (api_step c mediaType handler) xs d" for d
    by (induction xs arbitrary: d) (simp_all add: silent)
  then show ?thesis using assms(4) inv by (simp add: access_inv_def)
qed

lemma sample_presents: "\<not> presents sample_crypto sample_token (sample_request '''')"
  by (simp add: presents_def sample_request_def)

lemma sample_presents': "presents sample_crypto sample_token (sample_request (''Bearer '' @ sample_token))"
  by (rule authorized_presents [OF sample_authorized]) (simp add: sample_handler_def)

theorem api_run_witness:
  "fold (api_step sample_crypto Some sample_handler)
     [(sample_env, sample_request (''Bearer '' @ sample_token)), (sample_env, sample_request '''')] (sample_tdb []) =
   fold (api_step sample_crypto Some sample_handler)
     [(sample_env, sample_request (''Bearer '' @ sample_token))] (sample_tdb [])"
  using api_run [OF sample_handler_new, of "sample_tdb []" Some
      "[(sample_env, sample_request (''Bearer '' @ sample_token)), (sample_env, sample_request '''')]"]
    sample_presents sample_presents'
  by (simp add: sample_tdb_def)

text \<open>
  C34. A request changes the tables only if it is a \<open>POST\<close> that presents, under the scheme
  Bearer, a token with the digest of the configured one, so the configured one itself unless
  SHA-256 has a collision; and then only by one call of a service.
\<close>

theorem api_change_authorized:
  assumes "NewWithTelemetry c telemetry token = Inr handler"
    and "ServeHTTP c mediaType handler services req s = (resp, s')" and "s' \<noteq> s"
  shows "rq_Method req = ''POST'' \<and> write_of services s s' \<and>
    (\<exists>scheme presented. rq_Authorization req = scheme @ '' '' @ presented \<and> to_lower scheme = ''bearer'' \<and>
      sha256_sum c presented = sha256_sum c token)"
proof -
  have auth: "authorized c handler req" "rq_Method req = ''POST''" "write_of services s s'"
    using ServeHTTP_state [of c mediaType handler services req s] assms(2,3) by auto
  have "h_token handler = sha256_sum c token"
    using assms(1) by (auto simp: NewWithTelemetry_def split: if_splits)
  then have "presents c token req" by (rule authorized_presents [OF auth(1)])
  then show ?thesis using auth(2,3) unfolding presents_def by blast
qed

definition sample_services :: "string list services" where
  "sample_services =
    \<lparr>sv_Register = (\<lambda>input s. (Inr sample_access, s)), sv_Revoke = (\<lambda>i s. (Inr sample_access, i # s)),
     sv_Record = (\<lambda>input s. (Inr sample_result, s)), sv_Report = (\<lambda>s. Inl (AccessError ErrNotFound False))\<rparr>"

lemma sample_ServeHTTP:
  "snd (ServeHTTP sample_crypto Some sample_handler sample_services (sample_request (''Bearer '' @ sample_token)) []) = [''x'']"
  using sample_authorized
  by (simp add: ServeHTTP_def revoke_def sample_services_def sample_request_def has_prefix_def has_suffix_def
      trim_prefix_def trim_suffix_def)

theorem api_change_authorized_witness:
  "\<exists>scheme presented. rq_Authorization (sample_request (''Bearer '' @ sample_token)) = scheme @ '' '' @ presented \<and>
     sha256_sum sample_crypto presented = sha256_sum sample_crypto sample_token"
proof -
  obtain resp where "ServeHTTP sample_crypto Some sample_handler sample_services
      (sample_request (''Bearer '' @ sample_token)) [] = (resp, [''x''])"
    using sample_ServeHTTP by (metis prod.collapse)
  from api_change_authorized [OF sample_handler_new this] show ?thesis by blast
qed

end
