(* ===== verification/SigningKey.thy ===== *)
theory SigningKey
  imports GoStrings GoCrypto GoNet
begin

text \<open>
  \<open>internal/signingkey\<close>: key files. A file is its kind, its permission bits and its bytes, under
  its cleaned path; symbolic links are not modelled. Which system call fails is an input. The
  permission bits asked for are those the umask leaves alone. The lemmas show that a generated pair loads back, and that a failed
  generation leaves nothing behind unless a removal fails too.
\<close>

subsection \<open>Paths\<close>

text \<open>\<open>filepath.Clean\<close> on Unix: the elements are pushed on a stack that \<open>..\<close> pops.\<close>

fun clean_elems :: "bool \<Rightarrow> string list \<Rightarrow> string list \<Rightarrow> string list" where
  "clean_elems rooted stack [] = rev stack"
| "clean_elems rooted stack (e # es) =
    (if e = '''' \<or> e = ''.'' then clean_elems rooted stack es
     else if e = ''..'' then
       (case stack of
          [] \<Rightarrow> clean_elems rooted (if rooted then [] else [''..'']) es
        | t # ts \<Rightarrow> clean_elems rooted (if t = ''..'' then ''..'' # stack else ts) es)
     else clean_elems rooted (e # stack) es)"

fun join_slash :: "string list \<Rightarrow> string" where
  "join_slash [] = ''''"
| "join_slash [e] = e"
| "join_slash (e # es) = e @ ''/'' @ join_slash es"

definition Clean :: "string \<Rightarrow> string" where
  "Clean path =
    (let rooted = has_prefix path ''/'';
         body = join_slash (clean_elems rooted [] (split_on (CHR ''/'') path))
     in if rooted then ''/'' @ body else if body = '''' then ''.'' else body)"

subsection \<open>Files\<close>

unbundle bit_operations_syntax

record key_file =
  kf_regular :: bool
  kf_perm :: nat
  kf_data :: bytes

type_synonym key_fs = "string \<rightharpoonup> key_file"

datatype key_error =
    NotLinux
  | OpenFailed
  | StatFailed
  | NotRegular
  | KeyPermissions
  | ReadFailed
  | KeySize
  | KeyEncoding
  | KeyMismatch
  | KeyLength nat
  | PathsRequired
  | PathsEqual
  | GenerateFailed
  | DirectoryFailed
  | DirectoryNotDir
  | DirectoryWritable
  | FileExists
  | WriteFailed

record load_env =
  le_linux :: bool
  le_open :: bool
  le_stat :: bool
  le_read :: bool

definition load_ok :: load_env where
  "load_ok = \<lparr>le_linux = True, le_open = True, le_stat = True, le_read = True\<rparr>"

definition decodePrivate :: "crypto \<Rightarrow> bytes \<Rightarrow> key_error + bytes" where
  "decodePrivate c encoded =
    (if length encoded = 0 \<or> 256 < length encoded then Inl KeySize
     else case raw_url_decode (TrimSpace encoded) of
       None \<Rightarrow> Inl KeyEncoding
     | Some raw \<Rightarrow>
         if length raw = seed_size then Inr (new_key_from_seed c raw)
         else if length raw = private_key_size then
           (if new_key_from_seed c (take seed_size raw) \<noteq> raw then Inl KeyMismatch else Inr raw)
         else Inl (KeyLength (length raw)))"

definition LoadPrivate :: "crypto \<Rightarrow> load_env \<Rightarrow> string \<Rightarrow> key_fs \<Rightarrow> key_error + bytes" where
  "LoadPrivate c env path fs =
    (if \<not> le_linux env then Inl NotLinux
     else case fs (Clean path) of
       None \<Rightarrow> Inl OpenFailed
     | Some f \<Rightarrow>
     if \<not> le_open env then Inl OpenFailed
     else if \<not> le_stat env then Inl StatFailed
     else if \<not> kf_regular f then Inl NotRegular
     else if kf_perm f AND 63 \<noteq> 0 then Inl KeyPermissions
     else if \<not> le_read env then Inl ReadFailed
     else decodePrivate c (take 257 (kf_data f)))"

definition LoadPublic :: "load_env \<Rightarrow> string \<Rightarrow> key_fs \<Rightarrow> key_error + bytes" where
  "LoadPublic env path fs =
    (case fs (Clean path) of
       None \<Rightarrow> Inl OpenFailed
     | Some f \<Rightarrow>
     if \<not> le_open env then Inl OpenFailed
     else if \<not> le_stat env then Inl StatFailed
     else if \<not> kf_regular f then Inl NotRegular
     else if \<not> le_read env then Inl ReadFailed
     else
       let encoded = take 129 (kf_data f) in
       if length encoded = 0 \<or> 128 < length encoded then Inl KeySize
       else case raw_url_decode (TrimSpace encoded) of
         None \<Rightarrow> Inl KeyEncoding
       | Some raw \<Rightarrow> if length raw \<noteq> public_key_size then Inl KeyEncoding else Inr raw)"

text \<open>
  The outcomes of the calls of \<open>ensureParent\<close>, and of \<open>writeExclusive\<close>: how many bytes a
  failing write left, whether \<open>fsync\<close> and \<open>close\<close> succeed and whether a removal does.
\<close>

record parent_env =
  pe_mkdir :: bool
  pe_stat :: bool
  pe_dir :: bool
  pe_perm :: nat

record write_env =
  we_open :: bool
  we_partial :: "nat option"
  we_sync :: bool
  we_close :: bool
  we_remove :: bool

definition ensureParent :: "parent_env \<Rightarrow> key_error option" where
  "ensureParent env =
    (if \<not> pe_mkdir env then Some DirectoryFailed
     else if \<not> pe_stat env then Some DirectoryFailed
     else if \<not> pe_dir env then Some DirectoryNotDir
     else if pe_perm env AND 18 \<noteq> 0 then Some DirectoryWritable
     else None)"

definition remove :: "bool \<Rightarrow> string \<Rightarrow> key_fs \<Rightarrow> key_fs" where
  "remove works path fs = (if works then fs(Clean path := None) else fs)"

definition writeExclusive :: "write_env \<Rightarrow> string \<Rightarrow> bytes \<Rightarrow> nat \<Rightarrow> key_fs \<Rightarrow> key_error option \<times> key_fs" where
  "writeExclusive env path contents perm fs =
    (if fs (Clean path) \<noteq> None \<or> \<not> we_open env then (Some FileExists, fs)
     else
       let put = (\<lambda>d. fs(Clean path \<mapsto> \<lparr>kf_regular = True, kf_perm = perm, kf_data = d\<rparr>)) in
       case we_partial env of
         Some n \<Rightarrow> (Some WriteFailed, remove (we_remove env) path (put (take n contents)))
       | None \<Rightarrow>
           if \<not> we_sync env \<or> \<not> we_close env then (Some WriteFailed, remove (we_remove env) path (put contents))
           else (None, put contents))"

record generate_env =
  ge_linux :: bool
  ge_seed :: "bytes option"
  ge_private_parent :: parent_env
  ge_public_parent :: parent_env
  ge_private :: write_env
  ge_public :: write_env
  ge_remove :: bool

definition GenerateFiles ::
  "crypto \<Rightarrow> generate_env \<Rightarrow> string \<Rightarrow> string \<Rightarrow> key_fs \<Rightarrow> (key_error + bytes) \<times> key_fs" where
  "GenerateFiles c env privatePath publicPath fs =
    (if \<not> ge_linux env then (Inl NotLinux, fs)
     else if privatePath = '''' \<or> publicPath = '''' then (Inl PathsRequired, fs)
     else if Clean privatePath = Clean publicPath then (Inl PathsEqual, fs)
     else case ge_seed env of
       None \<Rightarrow> (Inl GenerateFailed, fs)
     | Some seed \<Rightarrow>
     let privateKey = new_key_from_seed c seed; publicKey = public_of privateKey in
     case ensureParent (ge_private_parent env) of
       Some err \<Rightarrow> (Inl err, fs)
     | None \<Rightarrow>
     (case ensureParent (ge_public_parent env) of
       Some err \<Rightarrow> (Inl err, fs)
     | None \<Rightarrow>
     (case writeExclusive (ge_private env) privatePath (raw_url_encode privateKey @ [CHR 0x0A]) 384 fs of
       (Some err, fs1) \<Rightarrow> (Inl err, fs1)
     | (None, fs1) \<Rightarrow>
     (case writeExclusive (ge_public env) publicPath (raw_url_encode publicKey @ [CHR 0x0A]) 420 fs1 of
       (Some err, fs2) \<Rightarrow> (Inl err, remove (ge_remove env) privatePath fs2)
     | (None, fs2) \<Rightarrow> (Inr publicKey, fs2)))))"

subsection \<open>A generated pair loads back\<close>

lemma sextet_not_white: "n < 64 \<Longrightarrow> \<not> is_white (byte (sextet_char n))"
proof -
  assume "n < 64"
  then have "sextet_char n \<in> set url_alphabet" by (simp add: sextet_char_def)
  moreover have "list_all (\<lambda>c. \<not> is_white (byte c)) url_alphabet"
    by (simp add: url_alphabet_def is_white_def in_cls_def)
  ultimately show ?thesis by (simp add: list_all_iff)
qed

lemma TrimSpace_key: "TrimSpace (raw_url_encode raw @ [CHR 0x0A]) = raw_url_encode raw"
  using raw_url_encode_plain raw_url_encode_chars sextet_not_white by (intro TrimSpace_line) blast

lemma writeExclusive_ok:
  assumes "writeExclusive env path contents perm fs = (None, fs')"
  shows "fs (Clean path) = None" "fs' = fs(Clean path \<mapsto> \<lparr>kf_regular = True, kf_perm = perm, kf_data = contents\<rparr>)"
  using assms by (auto simp: writeExclusive_def Let_def split: if_splits option.splits)

lemma writeExclusive_failed:
  assumes "writeExclusive env path contents perm fs = (Some e, fs')" "we_remove env"
  shows "fs' = fs"
  using assms by (auto simp: writeExclusive_def Let_def remove_def fun_upd_idem_iff split: if_splits option.splits)

lemma LoadPrivate_file:
  assumes c: "crypto_ok c" and len: "length s = seed_size"
    and f: "fs (Clean path) = Some \<lparr>kf_regular = True, kf_perm = 384, kf_data = raw_url_encode (new_key_from_seed c s) @ [CHR 0x0A]\<rparr>"
  shows "LoadPrivate c load_ok path fs = Inr (new_key_from_seed c s)"
proof -
  let ?sk = "new_key_from_seed c s"
  have sk: "length ?sk = private_key_size" "take seed_size ?sk = s" using crypto_okD(2,3) [OF c len] by simp_all
  have "decodePrivate c (raw_url_encode ?sk @ [CHR 0x0A]) = Inr ?sk"
    using sk by (simp add: decodePrivate_def TrimSpace_key encoded_len_def)
  moreover have "take 257 (raw_url_encode ?sk @ [CHR 0x0A]) = raw_url_encode ?sk @ [CHR 0x0A]"
    using sk by (intro take_all) (simp add: encoded_len_def)
  moreover have "(384 :: nat) AND 63 = 0" by simp
  ultimately show ?thesis
    using f by (simp only: LoadPrivate_def load_ok_def load_env.select_convs option.case key_file.select_convs) simp
qed

lemma LoadPublic_file:
  assumes pub: "length pk = public_key_size"
    and f: "fs (Clean path) = Some \<lparr>kf_regular = True, kf_perm = perm, kf_data = raw_url_encode pk @ [CHR 0x0A]\<rparr>"
  shows "LoadPublic load_ok path fs = Inr pk"
proof -
  have "take 129 (raw_url_encode pk @ [CHR 0x0A]) = raw_url_encode pk @ [CHR 0x0A]"
    using pub by (intro take_all) (simp add: encoded_len_def)
  then show ?thesis using f pub by (simp add: LoadPublic_def load_ok_def Let_def TrimSpace_key encoded_len_def)
qed

lemma GenerateFiles_loads:
  assumes c: "crypto_ok c" and seed: "\<forall>s \<in> set_option (ge_seed env). length s = seed_size"
    and g: "GenerateFiles c env privatePath publicPath fs = (Inr pk, fs')"
  shows "\<exists>sk. LoadPrivate c load_ok privatePath fs' = Inr sk \<and> LoadPublic load_ok publicPath fs' = Inr pk \<and>
    pk = public_of sk \<and> fs (Clean privatePath) = None \<and> fs (Clean publicPath) = None"
proof -
  obtain s fs1 where s: "ge_seed env = Some s" and paths: "Clean privatePath \<noteq> Clean publicPath"
    and w1: "writeExclusive (ge_private env) privatePath (raw_url_encode (new_key_from_seed c s) @ [CHR 0x0A]) 384 fs = (None, fs1)"
    and w2: "writeExclusive (ge_public env) publicPath
        (raw_url_encode (public_of (new_key_from_seed c s)) @ [CHR 0x0A]) 420 fs1 = (None, fs')"
    and pk: "pk = public_of (new_key_from_seed c s)"
    using g by (auto simp: GenerateFiles_def Let_def split: if_splits option.splits prod.splits)
  let ?sk = "new_key_from_seed c s"
  have len: "length s = seed_size" using seed s by simp
  note f1 = writeExclusive_ok [OF w1] and f2 = writeExclusive_ok [OF w2]
  have "LoadPrivate c load_ok privatePath fs' = Inr ?sk"
    by (rule LoadPrivate_file [OF c len]) (use f1(2) f2(2) paths in simp)
  moreover have "LoadPublic load_ok publicPath fs' = Inr pk"
  proof (rule LoadPublic_file)
    show "length pk = public_key_size" using crypto_okD(2) [OF c len] pk by (simp add: public_of_def)
  qed (use f2(2) pk in simp)
  moreover have "fs (Clean privatePath) = None" "fs (Clean publicPath) = None" using f1 f2(1) paths by simp_all
  ultimately show ?thesis using pk by blast
qed

lemma GenerateFiles_clean:
  assumes "GenerateFiles c env privatePath publicPath fs = (Inl e, fs')"
    and "we_remove (ge_private env)" "we_remove (ge_public env)" "ge_remove env"
  shows "fs' = fs"
proof (cases "\<exists>fs1. writeExclusive (ge_private env) privatePath
    (raw_url_encode (new_key_from_seed c (the (ge_seed env))) @ [CHR 0x0A]) 384 fs = (None, fs1)")
  case True
  then obtain fs1 where w: "writeExclusive (ge_private env) privatePath
    (raw_url_encode (new_key_from_seed c (the (ge_seed env))) @ [CHR 0x0A]) 384 fs = (None, fs1)" by blast
  have "(remove True privatePath fs1) = fs"
    using writeExclusive_ok [OF w] by (simp add: remove_def fun_upd_idem)
  then show ?thesis
    using assms w by (auto simp: GenerateFiles_def Let_def dest!: writeExclusive_failed
        split: if_splits option.splits prod.splits)
next
  case False
  then show ?thesis
    using assms by (auto simp: GenerateFiles_def Let_def dest!: writeExclusive_failed
        split: if_splits option.splits prod.splits)
qed

text \<open>
  C36. Key generation is all or nothing. When it succeeds, the private file loads as a key whose
  public half is what the public file loads as and what was returned, and neither file existed
  before. When it fails at any step, the files are as they were before, unless a removal failed
  too.
\<close>

theorem GenerateFiles_pair:
  assumes "crypto_ok c" "\<forall>s \<in> set_option (ge_seed env). length s = seed_size"
    and "GenerateFiles c env privatePath publicPath fs = (r, fs')"
  shows "case r of
      Inr pk \<Rightarrow> \<exists>sk. LoadPrivate c load_ok privatePath fs' = Inr sk \<and> LoadPublic load_ok publicPath fs' = Inr pk \<and>
        pk = public_of sk \<and> fs (Clean privatePath) = None \<and> fs (Clean publicPath) = None
    | Inl e \<Rightarrow> we_remove (ge_private env) \<and> we_remove (ge_public env) \<and> ge_remove env \<longrightarrow> fs' = fs"
proof (cases r)
  case (Inl e)
  then show ?thesis using GenerateFiles_clean assms(3) by fastforce
next
  case (Inr pk)
  then show ?thesis using GenerateFiles_loads [OF assms(1,2)] assms(3) by simp
qed

definition sample_generate :: generate_env where
  "sample_generate =
    \<lparr>ge_linux = True, ge_seed = Some (replicate 32 (CHR ''s'')),
     ge_private_parent = \<lparr>pe_mkdir = True, pe_stat = True, pe_dir = True, pe_perm = 448\<rparr>,
     ge_public_parent = \<lparr>pe_mkdir = True, pe_stat = True, pe_dir = True, pe_perm = 493\<rparr>,
     ge_private = \<lparr>we_open = True, we_partial = None, we_sync = True, we_close = True, we_remove = True\<rparr>,
     ge_public = \<lparr>we_open = True, we_partial = None, we_sync = True, we_close = True, we_remove = True\<rparr>,
     ge_remove = True\<rparr>"

lemma sample_GenerateFiles:
  "\<exists>fs. GenerateFiles sample_crypto sample_generate ''a'' ''b'' Map.empty = (Inr (replicate 32 (CHR ''s'')), fs)"
proof -
  have clean: "Clean ''a'' = ''a''" "Clean ''b'' = ''b''"
    by (simp_all add: Clean_def has_prefix_def)
  have "new_key_from_seed sample_crypto (replicate 32 (CHR ''s'')) = replicate 32 (CHR ''s'') @ replicate 32 (CHR ''s'')"
    by (simp add: sample_crypto_def)
  then show ?thesis
    by (simp add: GenerateFiles_def sample_generate_def ensureParent_def writeExclusive_def clean public_of_def Let_def)
qed

theorem GenerateFiles_pair_witness:
  "\<exists>fs. LoadPublic load_ok ''b'' fs = Inr (replicate 32 (CHR ''s'')) \<and> ok (LoadPrivate sample_crypto load_ok ''a'' fs)"
proof -
  obtain fs where fs: "GenerateFiles sample_crypto sample_generate ''a'' ''b'' Map.empty = (Inr (replicate 32 (CHR ''s'')), fs)"
    using sample_GenerateFiles by blast
  have "\<forall>s \<in> set_option (ge_seed sample_generate). length s = seed_size" by (simp add: sample_generate_def)
  from GenerateFiles_pair [OF sample_crypto_ok this fs] show ?thesis by (auto simp: ok_iff)
qed

end
