(* ===== verification/GoDuration.thy ===== *)
theory GoDuration
  imports GoTime GoFloat
begin

text \<open>
  \<open>time.ParseDuration\<close>: an optional sign and a sequence of decimal numbers with units. The
  accumulators are 64-bit words in the source; the comparisons with \<open>2^63\<close> keep all but the last
  addition from wrapping, which is written out. The digits of a fraction beyond what fits are
  dropped, and its value is computed in \<open>float64\<close>.
\<close>

definition two63 :: nat where "two63 = 2 ^ 63"

fun leading_int :: "nat \<Rightarrow> string \<Rightarrow> (nat \<times> string) option" where
  "leading_int x [] = Some (x, [])"
| "leading_int x (c # s) =
    (if \<not> is_digit c then Some (x, c # s)
     else if two63 div 10 < x then None
     else
       let y = x * 10 + (byte c - 0x30) in
       if two63 < y then None else leading_int y s)"

text \<open>The result is the value, the number of digits it has, and the rest.\<close>

fun leading_fraction :: "nat \<Rightarrow> nat \<Rightarrow> bool \<Rightarrow> string \<Rightarrow> nat \<times> nat \<times> string" where
  "leading_fraction x k overflow [] = (x, k, [])"
| "leading_fraction x k overflow (c # s) =
    (if \<not> is_digit c then (x, k, c # s)
     else if overflow \<or> (two63 - 1) div 10 < x \<or> two63 < x * 10 + (byte c - 0x30)
     then leading_fraction x k True s
     else leading_fraction (x * 10 + (byte c - 0x30)) (k + 1) False s)"

definition unit_value :: "string \<Rightarrow> nat option" where
  "unit_value u = map_of
    [(''ns'', 1), (''us'', 1000), ([CHR 0xC2, CHR 0xB5, CHR ''s''], 1000), ([CHR 0xCE, CHR 0xBC, CHR ''s''], 1000),
     (''ms'', 1000000), (''s'', 1000000000), (''m'', 60000000000), (''h'', 3600000000000)] u"

definition in_unit :: "char \<Rightarrow> bool" where
  "in_unit c \<longleftrightarrow> c \<noteq> CHR ''.'' \<and> \<not> is_digit c"

definition fraction_value :: "nat \<Rightarrow> nat \<Rightarrow> nat \<Rightarrow> nat" where
  "fraction_value f k unit =
    nat \<lfloor>round53 (round53 (of_nat f) * round53 (of_nat unit / 10 ^ k))\<rfloor>"

text \<open>One number with its unit: the nanoseconds and the rest.\<close>

definition parse_term :: "string \<Rightarrow> (nat \<times> string) option" where
  "parse_term s =
    (if s = [] \<or> \<not> (hd s = CHR ''.'' \<or> is_digit (hd s)) then None
     else case leading_int 0 s of
       None \<Rightarrow> None
     | Some (v, s1) \<Rightarrow>
         let dot = (s1 \<noteq> [] \<and> hd s1 = CHR ''.'');
             (f, k, s2) = (if dot then leading_fraction 0 0 False (tl s1) else (0, 0, s1));
             pre = (length s1 \<noteq> length s);
             post = (dot \<and> length s2 \<noteq> length (tl s1))
         in if \<not> pre \<and> \<not> post then None
            else case unit_value (takeWhile in_unit s2) of
              None \<Rightarrow> None
            | Some unit \<Rightarrow>
                if two63 div unit < v then None
                else
                  let w = v * unit + (if 0 < f then fraction_value f k unit else 0) in
                  if two63 < w then None else Some (w, dropWhile in_unit s2))"

lemma leading_int_shorter: "leading_int x s = Some (v, t) \<Longrightarrow> length t \<le> length s"
  by (induction x s rule: leading_int.induct) (auto simp: Let_def split: if_splits)

lemma leading_fraction_shorter: "leading_fraction x k b s = (f, k', t) \<Longrightarrow> length t \<le> length s"
  by (induction x k b s rule: leading_fraction.induct) (auto split: if_splits)

lemma unit_value_Nil: "unit_value [] = None"
  by (simp add: unit_value_def)

lemma parse_term_shorter:
  assumes "parse_term s = Some (w, t)"
  shows "length t < length s"
proof -
  obtain v s1 where v: "leading_int 0 s = Some (v, s1)"
    using assms by (auto simp: parse_term_def split: if_splits option.splits)
  let ?dot = "s1 \<noteq> [] \<and> hd s1 = CHR ''.''"
  obtain f k s2 where f: "(if ?dot then leading_fraction 0 0 False (tl s1) else (0, 0, s1)) = (f, k, s2)"
    using prod_cases3 by blast
  have s2: "length s2 \<le> length s1"
    using f leading_fraction_shorter [of 0 0 False "tl s1" f k s2] by (auto split: if_splits)
  have "takeWhile in_unit s2 \<noteq> [] \<and> t = dropWhile in_unit s2"
    using assms v f unit_value_Nil
    by (auto simp: parse_term_def Let_def split: if_splits option.splits)
  moreover have "length (takeWhile in_unit s2) + length (dropWhile in_unit s2) = length s2"
    by (metis length_append takeWhile_dropWhile_id)
  ultimately have "length t < length s2" by (cases "takeWhile in_unit s2") auto
  then show ?thesis using s2 leading_int_shorter [OF v] by linarith
qed

function parse_terms :: "nat \<Rightarrow> string \<Rightarrow> nat option" where
  "parse_terms d s =
    (if s = [] then Some d
     else case parse_term s of
       None \<Rightarrow> None
     | Some (w, t) \<Rightarrow>
         let d' = (d + w) mod 2 ^ 64 in
         if two63 < d' then None else parse_terms d' t)"
  by pat_completeness auto
termination
  by (relation "measure (length \<circ> snd)") (auto dest: parse_term_shorter)

declare parse_terms.simps [simp del]

definition ParseDuration :: "string \<Rightarrow> duration option" where
  "ParseDuration text' =
    (let neg = has_prefix text' ''-'';
         s = (if has_prefix text' ''-'' \<or> has_prefix text' ''+'' then tl text' else text')
     in if s = ''0'' then Some 0
        else if s = [] then None
        else case parse_terms 0 s of
          None \<Rightarrow> None
        | Some d \<Rightarrow>
            if neg then Some (- int d) else if two63 - 1 < d then None else Some (int d))"

lemma parse_terms_bound: "parse_terms d s = Some n \<Longrightarrow> d \<le> two63 \<Longrightarrow> n \<le> two63"
proof (induction d s rule: parse_terms.induct)
  case (1 d s)
  show ?case
    using 1 parse_terms.simps [of d s] by (auto simp: Let_def not_less split: if_splits option.splits)
qed

text \<open>Every duration that is parsed fits Go's 64-bit type.\<close>

lemma ParseDuration_range:
  assumes "ParseDuration s = Some d"
  shows "- (2 ^ 63) \<le> d \<and> d < 2 ^ 63"
proof -
  have "n \<le> 2 ^ 63" if "parse_terms 0 t = Some n" for n t
    using parse_terms_bound [OF that] by (simp add: two63_def)
  then show ?thesis
    using assms by (auto simp: ParseDuration_def Let_def two63_def not_less split: if_splits option.splits)
qed

end
