(* ===== verification/Config.thy ===== *)
theory Config
  imports VpnNode GoStrings GoDuration
begin

text \<open>
  \<open>internal/config\<close>: the configuration of the control plane from its environment. The
  environment is a function from names to values, the empty text for an unset name.
\<close>

definition defaultListenAddress :: string where "defaultListenAddress = ''127.0.0.1:8080''"
definition defaultCatalogPath :: string where "defaultCatalogPath = ''config/nodes.json''"
definition defaultManifestTTL :: duration where "defaultManifestTTL = 15 * minute"
definition defaultManifestCache :: duration where "defaultManifestCache = 30 * second"
definition defaultShutdown :: duration where "defaultShutdown = 10 * second"
definition defaultMaxInFlight :: int where "defaultMaxInFlight = 64"

record Config =
  cf_ListenAddress :: string
  cf_CatalogPath :: string
  cf_SigningKeyPath :: string
  cf_RootKeyPath :: string
  cf_KeyPolicyPath :: string
  cf_IssuerStatePath :: string
  cf_ManifestTTL :: duration
  cf_ManifestCache :: duration
  cf_Shutdown :: duration
  cf_MaxInFlight :: int
  cf_DatabaseURL :: string
  cf_PilotAdminToken :: string
  cf_PilotAccess :: bool

datatype config_error =
    BadDuration string
  | BadInteger string
  | TTLRange
  | CacheRange
  | ShutdownRange
  | MaxInFlightRange
  | Required string
  | SetTogether
  | DatabaseURLLong
  | AdminTokenLength
  | AdminTokenPlaceholder
  | ListenerNotPrivate

type_synonym environment = "string \<Rightarrow> string"

definition stringFromEnvironment :: "environment \<Rightarrow> string \<Rightarrow> string \<Rightarrow> string" where
  "stringFromEnvironment env name fallback =
    (let v = TrimSpace (env name) in if v = '''' then fallback else v)"

definition integerFromEnvironment :: "environment \<Rightarrow> string \<Rightarrow> int \<Rightarrow> config_error + int" where
  "integerFromEnvironment env name fallback =
    (let v = TrimSpace (env name) in
     if v = '''' then Inr fallback
     else case atoi v of None \<Rightarrow> Inl (BadInteger name) | Some n \<Rightarrow> Inr n)"

definition durationFromEnvironment :: "environment \<Rightarrow> string \<Rightarrow> duration \<Rightarrow> config_error + duration" where
  "durationFromEnvironment env name fallback =
    (let v = TrimSpace (env name) in
     if v = '''' then Inr fallback
     else case ParseDuration v of None \<Rightarrow> Inl (BadDuration name) | Some d \<Rightarrow> Inr d)"

text \<open>
  \<open>net.IP\<close> does not tell an IPv4 address from its IPv6 form, so \<open>IsUnspecified\<close> holds of both.
\<close>

definition unspecified :: "nat list \<Rightarrow> bool" where
  "unspecified ip \<longleftrightarrow> unmap ip = replicate 4 0 \<or> ip = replicate 16 0"

definition isPrivateListener :: "string \<Rightarrow> bool" where
  "isPrivateListener address =
    (case SplitHostPort address of
       None \<Rightarrow> False
     | Some (host, _) \<Rightarrow>
         if equal_fold host ''localhost'' then True
         else case ParseIP host of
           None \<Rightarrow> False
         | Some ip \<Rightarrow> \<not> unspecified ip \<and> (IsLoopback (ip, '''') \<or> IsPrivate (ip, '''')))"

text \<open>\<open>Load\<close> reads four bounded values, then the texts, then checks what they require.\<close>

definition boundedDuration ::
  "environment \<Rightarrow> string \<Rightarrow> duration \<Rightarrow> duration \<Rightarrow> duration \<Rightarrow> config_error \<Rightarrow> config_error + duration" where
  "boundedDuration env name fallback low high err =
    (case durationFromEnvironment env name fallback of
       Inl e \<Rightarrow> Inl e
     | Inr d \<Rightarrow> if d < low \<or> high < d then Inl err else Inr d)"

definition settings :: "environment \<Rightarrow> duration \<Rightarrow> duration \<Rightarrow> duration \<Rightarrow> int \<Rightarrow> Config" where
  "settings env ttl cache shutdown maxInFlight =
    \<lparr>cf_ListenAddress = stringFromEnvironment env ''LISTEN_ADDRESS'' defaultListenAddress,
     cf_CatalogPath = stringFromEnvironment env ''MANIFEST_CATALOG_PATH'' defaultCatalogPath,
     cf_SigningKeyPath = TrimSpace (env ''MANIFEST_SIGNING_KEY_PATH''),
     cf_RootKeyPath = TrimSpace (env ''MANIFEST_ROOT_PUBLIC_KEY_PATH''),
     cf_KeyPolicyPath = TrimSpace (env ''MANIFEST_KEY_POLICY_PATH''),
     cf_IssuerStatePath = TrimSpace (env ''MANIFEST_STATE_PATH''),
     cf_ManifestTTL = ttl, cf_ManifestCache = cache, cf_Shutdown = shutdown, cf_MaxInFlight = maxInFlight,
     cf_DatabaseURL = TrimSpace (env ''DATABASE_URL''),
     cf_PilotAdminToken = TrimSpace (env ''PILOT_ADMIN_TOKEN''), cf_PilotAccess = False\<rparr>"

definition checkSettings :: "Config \<Rightarrow> config_error + Config" where
  "checkSettings result =
    (if cf_SigningKeyPath result = '''' then Inl (Required ''MANIFEST_SIGNING_KEY_PATH'')
     else if cf_RootKeyPath result = '''' then Inl (Required ''MANIFEST_ROOT_PUBLIC_KEY_PATH'')
     else if cf_KeyPolicyPath result = '''' then Inl (Required ''MANIFEST_KEY_POLICY_PATH'')
     else if cf_IssuerStatePath result = '''' then Inl (Required ''MANIFEST_STATE_PATH'')
     else if (cf_DatabaseURL result = '''') \<noteq> (cf_PilotAdminToken result = '''') then Inl SetTogether
     else if 2048 < length (cf_DatabaseURL result) then Inl DatabaseURLLong
     else if cf_PilotAdminToken result \<noteq> '''' \<and>
       (length (cf_PilotAdminToken result) < 32 \<or> 512 < length (cf_PilotAdminToken result)) then Inl AdminTokenLength
     else if lower_contains (cf_PilotAdminToken result) ''replace-with'' then Inl AdminTokenPlaceholder
     else
       let result' = result\<lparr>cf_PilotAccess := cf_DatabaseURL result \<noteq> ''''\<rparr> in
       if cf_PilotAccess result' \<and> \<not> isPrivateListener (cf_ListenAddress result') then Inl ListenerNotPrivate
       else Inr result')"

text \<open>Go's division of a duration truncates; a time to live is positive here.\<close>

definition Config_Load :: "environment \<Rightarrow> config_error + Config" where
  "Config_Load env =
    (case boundedDuration env ''MANIFEST_TTL'' defaultManifestTTL minute hour TTLRange of
       Inl e \<Rightarrow> Inl e
     | Inr ttl \<Rightarrow>
     case boundedDuration env ''MANIFEST_CACHE_TTL'' defaultManifestCache second (ttl div 2) CacheRange of
       Inl e \<Rightarrow> Inl e
     | Inr cache \<Rightarrow>
     case boundedDuration env ''SHUTDOWN_TIMEOUT'' defaultShutdown second minute ShutdownRange of
       Inl e \<Rightarrow> Inl e
     | Inr shutdown \<Rightarrow>
     case integerFromEnvironment env ''MAX_IN_FLIGHT'' defaultMaxInFlight of
       Inl e \<Rightarrow> Inl e
     | Inr maxInFlight \<Rightarrow>
     if maxInFlight < 1 \<or> 1024 < maxInFlight then Inl MaxInFlightRange
     else checkSettings (settings env ttl cache shutdown maxInFlight))"

subsection \<open>What an accepted configuration promises\<close>

text \<open>
  The address ranges by their bytes: an IPv4 address by itself or in its IPv6-mapped form.
  Loopback is 127.0.0.0/8 and ::1, private is 10.0.0.0/8, 172.16.0.0/12, 192.168.0.0/16 and
  fc00::/7.
\<close>

definition quad :: "nat list \<Rightarrow> nat \<Rightarrow> nat \<Rightarrow> nat \<Rightarrow> nat \<Rightarrow> bool" where
  "quad ip a b c d \<longleftrightarrow> ip = [a, b, c, d] \<or> ip = replicate 10 0 @ [255, 255, a, b, c, d]"

definition loopback_ip :: "nat list \<Rightarrow> bool" where
  "loopback_ip ip \<longleftrightarrow> (\<exists>b c d. quad ip 127 b c d) \<or> ip = replicate 15 0 @ [1]"

definition private_ip :: "nat list \<Rightarrow> bool" where
  "private_ip ip \<longleftrightarrow> (\<exists>b c d. quad ip 10 b c d) \<or> (\<exists>b c d. quad ip 172 b c d \<and> b \<in> {16..31}) \<or>
     (\<exists>c d. quad ip 192 168 c d) \<or> (\<exists>a rest. ip = a # rest \<and> length rest = 15 \<and> a \<in> {0xFC, 0xFD})"

definition private_address :: "string \<Rightarrow> bool" where
  "private_address address \<longleftrightarrow>
    (\<exists>host port. SplitHostPort address = Some (host, port) \<and>
      (equal_fold host ''localhost'' \<or> (\<exists>ip. ParseIP host = Some ip \<and> (loopback_ip ip \<or> private_ip ip))))"

lemma unmap_quad:
  assumes "length (unmap ip) = 4"
  obtains a b c d where "unmap ip = [a, b, c, d]" "quad ip a b c d"
proof -
  obtain a b c d where q: "unmap ip = [a, b, c, d]" using assms by (auto simp: length_Suc_conv numeral_eq_Suc)
  moreover have "quad ip a b c d"
  proof (cases "length ip = 16 \<and> take 12 ip = replicate 10 0 @ [255, 255]")
    case True
    then have "drop 12 ip = [a, b, c, d]" using q by (simp add: unmap_def)
    then have "ip = (replicate 10 0 @ [255, 255]) @ [a, b, c, d]" using True append_take_drop_id by metis
    then show ?thesis by (simp add: quad_def)
  next
    case False
    then have "unmap ip = ip" unfolding unmap_def by (rule if_not_P)
    then show ?thesis using q by (simp add: quad_def)
  qed
  ultimately show thesis by (rule that)
qed

lemma unmap_long: "length (unmap ip) \<noteq> 4 \<Longrightarrow> unmap ip = ip"
  by (auto simp: unmap_def)

lemma IsLoopback_ip: "IsLoopback (ip, z) \<Longrightarrow> loopback_ip ip"
proof (cases "length (unmap ip) = 4")
  case True
  then obtain a b c d where "unmap ip = [a, b, c, d]" "quad ip a b c d" by (rule unmap_quad)
  moreover assume "IsLoopback (ip, z)"
  ultimately show ?thesis by (auto simp: IsLoopback_def loopback_ip_def)
next
  case False
  note u = unmap_long [OF False]
  assume "IsLoopback (ip, z)"
  then show ?thesis using False unfolding IsLoopback_def Let_def fst_conv u loopback_ip_def by simp
qed

lemma IsPrivate_ip: "IsPrivate (ip, z) \<Longrightarrow> private_ip ip"
proof (cases "length (unmap ip) = 4")
  case True
  then obtain a b c d where "unmap ip = [a, b, c, d]" "quad ip a b c d" by (rule unmap_quad)
  moreover assume "IsPrivate (ip, z)"
  ultimately have "quad ip a b c d" "a = 10 \<or> a = 172 \<and> b \<in> {16..31} \<or> a = 192 \<and> b = 168"
    by (auto simp: IsPrivate_def)
  then show ?thesis unfolding private_ip_def by blast
next
  case False
  note u = unmap_long [OF False]
  assume "IsPrivate (ip, z)"
  then have "length ip = 16" "0xFC \<le> ip ! 0" "ip ! 0 < 0xFE"
    using False unfolding IsPrivate_def Let_def fst_conv u by simp_all
  moreover from this obtain a rest where "ip = a # rest" by (cases ip) auto
  ultimately have "\<exists>a rest. ip = a # rest \<and> length rest = 15 \<and> a \<in> {0xFC, 0xFD}" by auto
  then show ?thesis unfolding private_ip_def by blast
qed

lemma isPrivateListener_address: "isPrivateListener address \<Longrightarrow> private_address address"
  using IsLoopback_ip IsPrivate_ip
  by (fastforce simp: isPrivateListener_def private_address_def split: option.split_asm if_split_asm)

definition config_ok :: "Config \<Rightarrow> bool" where
  "config_ok cfg \<longleftrightarrow>
    minute \<le> cf_ManifestTTL cfg \<and> cf_ManifestTTL cfg \<le> hour \<and>
    second \<le> cf_ManifestCache cfg \<and> cf_ManifestCache cfg \<le> cf_ManifestTTL cfg div 2 \<and>
    second \<le> cf_Shutdown cfg \<and> cf_Shutdown cfg \<le> minute \<and>
    1 \<le> cf_MaxInFlight cfg \<and> cf_MaxInFlight cfg \<le> 1024 \<and>
    cf_SigningKeyPath cfg \<noteq> '''' \<and> cf_RootKeyPath cfg \<noteq> '''' \<and> cf_KeyPolicyPath cfg \<noteq> '''' \<and>
    cf_IssuerStatePath cfg \<noteq> '''' \<and> cf_ListenAddress cfg \<noteq> '''' \<and> cf_CatalogPath cfg \<noteq> '''' \<and>
    (cf_PilotAccess cfg \<longleftrightarrow> cf_DatabaseURL cfg \<noteq> '''') \<and> (cf_PilotAccess cfg \<longleftrightarrow> cf_PilotAdminToken cfg \<noteq> '''') \<and>
    (cf_PilotAccess cfg \<longrightarrow> private_address (cf_ListenAddress cfg) \<and>
      32 \<le> length (cf_PilotAdminToken cfg) \<and> length (cf_PilotAdminToken cfg) \<le> 512 \<and>
      \<not> lower_contains (cf_PilotAdminToken cfg) ''replace-with'')"

lemma boundedDuration_ok: "boundedDuration env name fallback low high err = Inr d \<Longrightarrow> low \<le> d \<and> d \<le> high"
  by (auto simp: boundedDuration_def split: sum.splits if_splits)

lemma checkSettings_ok:
  assumes "checkSettings r = Inr cfg"
  shows "cfg = r\<lparr>cf_PilotAccess := cf_DatabaseURL r \<noteq> ''''\<rparr>"
    and "cf_SigningKeyPath r \<noteq> ''''" "cf_RootKeyPath r \<noteq> ''''" "cf_KeyPolicyPath r \<noteq> ''''" "cf_IssuerStatePath r \<noteq> ''''"
    and "(cf_DatabaseURL r = '''') = (cf_PilotAdminToken r = '''')"
    and "cf_PilotAdminToken r \<noteq> '''' \<Longrightarrow> 32 \<le> length (cf_PilotAdminToken r) \<and> length (cf_PilotAdminToken r) \<le> 512"
    and "\<not> lower_contains (cf_PilotAdminToken r) ''replace-with''"
    and "cf_DatabaseURL r \<noteq> '''' \<Longrightarrow> private_address (cf_ListenAddress r)"
  using assms by (simp_all add: checkSettings_def Let_def not_less isPrivateListener_address split: if_split_asm)

lemma stringFromEnvironment_nonempty: "fallback \<noteq> '''' \<Longrightarrow> stringFromEnvironment env name fallback \<noteq> ''''"
  by (simp add: stringFromEnvironment_def Let_def)

lemma Config_Load_ok:
  assumes "Config_Load env = Inr cfg"
  shows "config_ok cfg"
proof -
  obtain ttl cache shutdown n where
    ttl: "boundedDuration env ''MANIFEST_TTL'' defaultManifestTTL minute hour TTLRange = Inr ttl"
    and cache: "boundedDuration env ''MANIFEST_CACHE_TTL'' defaultManifestCache second (ttl div 2) CacheRange = Inr cache"
    and shutdown: "boundedDuration env ''SHUTDOWN_TIMEOUT'' defaultShutdown second minute ShutdownRange = Inr shutdown"
    and n: "1 \<le> n" "n \<le> 1024"
    and checked: "checkSettings (settings env ttl cache shutdown n) = Inr cfg"
    using assms by (auto simp: Config_Load_def not_less split: sum.splits if_splits)
  have "stringFromEnvironment env ''LISTEN_ADDRESS'' defaultListenAddress \<noteq> ''''"
    "stringFromEnvironment env ''MANIFEST_CATALOG_PATH'' defaultCatalogPath \<noteq> ''''"
    by (rule stringFromEnvironment_nonempty; simp add: defaultListenAddress_def defaultCatalogPath_def)+
  then show ?thesis
    using boundedDuration_ok [OF ttl] boundedDuration_ok [OF cache] boundedDuration_ok [OF shutdown] n
      checkSettings_ok [OF checked]
    by (simp add: config_ok_def settings_def)
qed

end
