(* ===== verification/ControlPlane.thy ===== *)
theory ControlPlane
  imports IssuerRun PilotApi SigningKey Config
begin

text \<open>
  \<open>cmd/control-plane\<close>: from the environment to a serving process and back. The policy and
  catalog files, the clock, the failing calls and the database server are inputs; what
  \<open>pgx.ParseConfig\<close> returns is an argument. The state is the storage of the issuer with its
  process lock, and the number of open database pools.
\<close>

subsection \<open>The pilot database\<close>

record TLSConfig =
  tls_InsecureSkipVerify :: bool
  tls_ServerName :: string

record FallbackConfig =
  fc_Host :: string
  fc_TLSConfig :: "TLSConfig option"

record ConnConfig =
  cc_Host :: string
  cc_TLSConfig :: "TLSConfig option"
  cc_Fallbacks :: "FallbackConfig list"
  cc_RuntimeParams :: "string \<rightharpoonup> string"

datatype database_error =
    InvalidDatabaseURL
  | InsecureTransport
  | ConnectFailed
  | IdentityQuery
  | IdentityPrivileged
  | PrivilegeQuery
  | PrivilegesMissing

definition secureDatabaseEndpoint :: "string \<Rightarrow> TLSConfig option \<Rightarrow> bool" where
  "secureDatabaseEndpoint host tlsConfig =
    (if has_prefix host ''/'' \<or> equal_fold host ''localhost'' then True
     else if (case ParseIP host of None \<Rightarrow> False | Some ip \<Rightarrow> IsLoopback (ip, '''')) then True
     else case tlsConfig of
       None \<Rightarrow> False
     | Some t \<Rightarrow> \<not> tls_InsecureSkipVerify t \<and> tls_ServerName t \<noteq> '''')"

definition secureDatabaseConfig :: "(string \<Rightarrow> ConnConfig option) \<Rightarrow> string \<Rightarrow> database_error + ConnConfig" where
  "secureDatabaseConfig parseConfig databaseURL =
    (case parseConfig databaseURL of
       None \<Rightarrow> Inl InvalidDatabaseURL
     | Some config \<Rightarrow>
         if \<not> secureDatabaseEndpoint (cc_Host config) (cc_TLSConfig config) then Inl InsecureTransport
         else if list_ex (\<lambda>f. \<not> secureDatabaseEndpoint (fc_Host f) (fc_TLSConfig f)) (cc_Fallbacks config)
         then Inl InsecureTransport
         else Inr config)"

definition validateDatabaseTransport :: "(string \<Rightarrow> ConnConfig option) \<Rightarrow> string \<Rightarrow> database_error option" where
  "validateDatabaseTransport parseConfig databaseURL =
    (case secureDatabaseConfig parseConfig databaseURL of Inl e \<Rightarrow> Some e | Inr _ \<Rightarrow> None)"

definition hardenDatabaseConfig :: "ConnConfig \<Rightarrow> ConnConfig" where
  "hardenDatabaseConfig config = config\<lparr>cc_RuntimeParams := (cc_RuntimeParams config)
     (''search_path'' \<mapsto> ''pg_catalog'', ''statement_timeout'' \<mapsto> ''5000'', ''lock_timeout'' \<mapsto> ''2000'',
      ''idle_in_transaction_session_timeout'' \<mapsto> ''5000'')\<rparr>"

text \<open>
  What the server answers a login: whether it is reached, the row of the role in \<open>pg_roles\<close>
  (\<open>None\<close> when the query fails) and the privileges, with whether that query succeeds. The
  columns of each table and whether the query and the close of each schema check go through
  decide \<open>CheckSchema\<close>.
\<close>

record pg_role =
  rolsuper :: bool
  rolcreaterole :: bool
  rolcreatedb :: bool
  rolbypassrls :: bool

record pg_server =
  pg_ping :: bool
  pg_current_role :: "pg_role option"
  pg_privileges_query :: bool
  pg_schema_usage :: "string \<Rightarrow> bool"
  pg_table_privilege :: "string \<Rightarrow> string \<Rightarrow> bool"
  pg_columns :: "string \<Rightarrow> string list"
  pg_schema_queries :: "bool list"

definition requiredPrivileges :: "(string \<times> string) list" where
  "requiredPrivileges =
    [(''app_private.devices'', ''SELECT''),
     (''app_private.vpn_accesses'', ''SELECT''),
     (''app_private.vpn_accesses'', ''INSERT''),
     (''app_private.vpn_accesses'', ''UPDATE''),
     (''app_private.admin_audit_events'', ''INSERT''),
     (''app_private.pilot_test_results'', ''SELECT''),
     (''app_private.pilot_test_results'', ''INSERT''),
     (''app_private.pilot_test_results'', ''DELETE'')]"

definition validateDatabasePrivileges :: "pg_server \<Rightarrow> database_error option" where
  "validateDatabasePrivileges db =
    (if \<not> pg_privileges_query db then Some PrivilegeQuery
     else if \<not> (pg_schema_usage db ''app_private'' \<and>
       list_all (\<lambda>(relation, privilege). pg_table_privilege db relation privilege) requiredPrivileges)
     then Some PrivilegesMissing else None)"

definition validateDatabaseIdentity :: "pg_server \<Rightarrow> database_error option" where
  "validateDatabaseIdentity db =
    (case pg_current_role db of
       None \<Rightarrow> Some IdentityQuery
     | Some r \<Rightarrow>
         if rolsuper r \<or> rolcreaterole r \<or> rolcreatedb r \<or> rolbypassrls r then Some IdentityPrivileged else None)"

record pool =
  po_config :: ConnConfig
  po_server :: pg_server
  po_MaxOpenConns :: nat
  po_MaxIdleConns :: nat
  po_ConnMaxIdleTime :: duration
  po_ConnMaxLifetime :: duration

text \<open>The counter is the number of open pools: \<open>OpenDB\<close> adds one and \<open>Close\<close> takes it off.\<close>

definition openPilotDatabase ::
  "(string \<Rightarrow> ConnConfig option) \<Rightarrow> (ConnConfig \<Rightarrow> pg_server) \<Rightarrow> string \<Rightarrow> nat \<Rightarrow> (database_error + pool) \<times> nat" where
  "openPilotDatabase parseConfig connect databaseURL pools =
    (case secureDatabaseConfig parseConfig databaseURL of
       Inl e \<Rightarrow> (Inl e, pools)
     | Inr parsed \<Rightarrow>
         let connectionConfig = hardenDatabaseConfig parsed;
             db = connect connectionConfig;
             opened = pools + 1;
             database = \<lparr>po_config = connectionConfig, po_server = db, po_MaxOpenConns = 5, po_MaxIdleConns = 2,
               po_ConnMaxIdleTime = 5 * minute, po_ConnMaxLifetime = 30 * minute\<rparr>
         in if \<not> pg_ping db then (Inl ConnectFailed, opened - 1)
            else case validateDatabaseIdentity db of
              Some e \<Rightarrow> (Inl e, opened - 1)
            | None \<Rightarrow>
                (case validateDatabasePrivileges db of
                   Some e \<Rightarrow> (Inl e, opened - 1)
                 | None \<Rightarrow> (Inr database, opened)))"

subsection \<open>Starting\<close>

record process =
  pr_fs :: fs
  pr_pools :: nat

record start_env =
  se_environment :: environment
  se_keys :: key_fs
  se_private :: load_env
  se_root :: load_env
  se_policy :: "string \<Rightarrow> reader option"
  se_policy_close :: bool
  se_lock_faults :: faults
  se_load_faults :: faults
  se_migrate_faults :: faults
  se_issue_faults :: faults
  se_catalog :: "string \<Rightarrow> reader option"
  se_clock :: time
  se_parseConfig :: "string \<Rightarrow> ConnConfig option"
  se_connect :: "ConnConfig \<Rightarrow> pg_server"

datatype run_error =
    RunConfig config_error
  | RunPrivateKey key_error
  | RunRootKey key_error
  | RunPolicyOpen
  | RunPolicy policy_error
  | RunPolicyClose
  | RunIssuer start_error
  | RunIssue refresh_error
  | RunDatabase database_error
  | RunAccessSchema
  | RunTelemetrySchema
  | RunHandler api_error
  | RunServe
  | RunShutdown

definition has_columns :: "pg_server \<Rightarrow> string \<Rightarrow> string list \<Rightarrow> bool" where
  "has_columns db table columns \<longleftrightarrow> list_all (\<lambda>column. column \<in> set (pg_columns db table)) columns"

definition accessColumns :: "string list" where
  "accessColumns =
    [''id'', ''device_id'', ''node_id'', ''transport'', ''external_reference'', ''created_at'', ''expires_at'',
     ''revoked_at'', ''status'']"

definition resultColumns :: "string list" where
  "resultColumns =
    [''id'', ''device_id'', ''client_platform'', ''isp'', ''transport'', ''occurred_at'', ''success'',
     ''failure_stage'', ''connection_time_bucket'', ''throughput_bucket'', ''recorded_at'']"

text \<open>
  \<open>CheckSchema\<close> of the two stores: each runs its queries over no rows and closes them. The list
  says which of the six calls go through, in order.
\<close>

definition goes_through :: "pg_server \<Rightarrow> nat \<Rightarrow> bool" where
  "goes_through db i \<longleftrightarrow> i < length (pg_schema_queries db) \<and> pg_schema_queries db ! i"

definition Access_CheckSchema :: "pg_server \<Rightarrow> bool" where
  "Access_CheckSchema db \<longleftrightarrow>
    goes_through db 0 \<and> has_columns db ''app_private.vpn_accesses'' accessColumns \<and> goes_through db 1"

definition Telemetry_CheckSchema :: "pg_server \<Rightarrow> bool" where
  "Telemetry_CheckSchema db \<longleftrightarrow>
    goes_through db 2 \<and> has_columns db ''app_private.pilot_test_results'' resultColumns \<and> goes_through db 3 \<and>
    goes_through db 4 \<and> has_columns db ''app_private.vpn_accesses'' [''device_id''] \<and>
    has_columns db ''app_private.devices'' [''id'', ''account_id''] \<and> goes_through db 5"

text \<open>
  The pilot part of \<open>run\<close>: a database, both schemas, and the handler of the administration API.
  The deferred \<open>database.Close\<close> runs on every later failure. The constructors of the stores and
  services fail only for a missing argument, and each is given one; a check that runs out of
  time is a query that does not go through.
\<close>

definition startPilot :: "crypto \<Rightarrow> start_env \<Rightarrow> Config \<Rightarrow> nat \<Rightarrow> (run_error + pool \<times> Handler) \<times> nat" where
  "startPilot c env cfg pools =
    (case openPilotDatabase (se_parseConfig env) (se_connect env) (cf_DatabaseURL cfg) pools of
       (Inl e, n) \<Rightarrow> (Inl (RunDatabase e), n)
     | (Inr database, n) \<Rightarrow>
         if \<not> Access_CheckSchema (po_server database) then (Inl RunAccessSchema, n - 1)
         else if \<not> Telemetry_CheckSchema (po_server database) then (Inl RunTelemetrySchema, n - 1)
         else case NewWithTelemetry c True (cf_PilotAdminToken cfg) of
           Inl e \<Rightarrow> (Inl (RunHandler e), n - 1)
         | Inr handler \<Rightarrow> (Inr (database, handler), n))"

record http_server =
  hs_Addr :: string
  hs_MaxInFlight :: int
  hs_admin :: "(pool \<times> Handler) option"
  hs_ReadHeaderTimeout :: duration
  hs_ReadTimeout :: duration
  hs_WriteTimeout :: duration
  hs_IdleTimeout :: duration
  hs_MaxHeaderBytes :: nat

definition newServer :: "Config \<Rightarrow> (pool \<times> Handler) option \<Rightarrow> http_server" where
  "newServer cfg admin =
    \<lparr>hs_Addr = cf_ListenAddress cfg, hs_MaxInFlight = cf_MaxInFlight cfg, hs_admin = admin,
     hs_ReadHeaderTimeout = 5 * second, hs_ReadTimeout = 10 * second, hs_WriteTimeout = 10 * second,
     hs_IdleTimeout = 60 * second, hs_MaxHeaderBytes = 8 * 1024\<rparr>"

definition loadInputs :: "crypto \<Rightarrow> start_env \<Rightarrow> Config \<Rightarrow> run_error + IssuerOptions" where
  "loadInputs c env cfg =
    (case LoadPrivate c (se_private env) (cf_SigningKeyPath cfg) (se_keys env) of
       Inl e \<Rightarrow> Inl (RunPrivateKey e)
     | Inr privateKey \<Rightarrow>
     case LoadPublic (se_root env) (cf_RootKeyPath cfg) (se_keys env) of
       Inl e \<Rightarrow> Inl (RunRootKey e)
     | Inr rootKey \<Rightarrow>
     case se_policy env (cf_KeyPolicyPath cfg) of
       None \<Rightarrow> Inl RunPolicyOpen
     | Some policyFile \<Rightarrow>
     case DecodeKeyPolicy policyFile of
       Inl e \<Rightarrow> Inl (RunPolicy e)
     | Inr keyPolicy \<Rightarrow>
     if \<not> se_policy_close env then Inl RunPolicyClose
     else Inr \<lparr>opt_StatePath = cf_IssuerStatePath cfg, opt_TTL = cf_ManifestTTL cfg, opt_CacheFor = cf_ManifestCache cfg,
       opt_PrivateKey = privateKey, opt_RootKey = rootKey, opt_KeyPolicy = keyPolicy\<rparr>)"

text \<open>\<open>run\<close> up to the server, with the deferred closes of the paths that fail.\<close>

definition startServing ::
  "crypto \<Rightarrow> start_env \<Rightarrow> process \<Rightarrow> (run_error + Config \<times> Issuer \<times> http_server) \<times> process" where
  "startServing c env p =
    (case Config_Load (se_environment env) of
       Inl e \<Rightarrow> (Inl (RunConfig e), p)
     | Inr cfg \<Rightarrow>
     case loadInputs c env cfg of
       Inl e \<Rightarrow> (Inl e, p)
     | Inr options \<Rightarrow>
     case NewIssuer c options (se_lock_faults env) (se_load_faults env) (se_migrate_faults env) (pr_fs p) of
       (Inl e, fs1) \<Rightarrow> (Inl (RunIssuer e), p\<lparr>pr_fs := fs1\<rparr>)
     | (Inr issuer, fs1) \<Rightarrow>
     case Issuer_Issue c (se_issue_faults env) (se_catalog env (cf_CatalogPath cfg)) (se_clock env) issuer fs1 of
       (Inl e, issuer1, fs2) \<Rightarrow> (Inl (RunIssue e), p\<lparr>pr_fs := snd (Issuer_Close issuer1 fs2)\<rparr>)
     | (Inr _, issuer1, fs2) \<Rightarrow>
     if cf_PilotAccess cfg then
       (case startPilot c env cfg (pr_pools p) of
          (Inl e, n) \<Rightarrow> (Inl e, p\<lparr>pr_fs := snd (Issuer_Close issuer1 fs2), pr_pools := n\<rparr>)
        | (Inr admin, n) \<Rightarrow> (Inr (cfg, issuer1, newServer cfg (Some admin)), p\<lparr>pr_fs := fs2, pr_pools := n\<rparr>))
     else (Inr (cfg, issuer1, newServer cfg None), p\<lparr>pr_fs := fs2\<rparr>))"

subsection \<open>Serving and stopping\<close>

text \<open>
  While the process serves, requests call \<open>Issue\<close>; each call has its failures, catalog file and
  clock. The database check of the ready handler changes nothing here.
\<close>

type_synonym issue_call = "faults \<times> reader option \<times> time"

fun serveCalls :: "crypto \<Rightarrow> issue_call list \<Rightarrow> Issuer \<Rightarrow> fs \<Rightarrow> Issuer \<times> fs" where
  "serveCalls c [] issuer fs = (issuer, fs)"
| "serveCalls c ((x, catalogFile, clock) # calls) issuer fs =
    (case Issuer_Issue c x catalogFile clock issuer fs of (_, issuer', fs') \<Rightarrow> serveCalls c calls issuer' fs')"

datatype listen_result = ErrServerClosed | ListenFailed

text \<open>How serving ends: the server returned, or a signal came, with the result of \<open>Shutdown\<close>.\<close>

datatype stop = ServerReturned listen_result | Signalled bool listen_result

fun awaitStop :: "stop \<Rightarrow> run_error option" where
  "awaitStop (ServerReturned r) = (if r = ListenFailed then Some RunServe else None)"
| "awaitStop (Signalled shutdown r) =
    (if \<not> shutdown then Some RunShutdown else if r = ListenFailed then Some RunServe else None)"

definition run :: "crypto \<Rightarrow> start_env \<Rightarrow> issue_call list \<Rightarrow> stop \<Rightarrow> process \<Rightarrow> run_error option \<times> process" where
  "run c env calls stop p =
    (case startServing c env p of
       (Inl e, p1) \<Rightarrow> (Some e, p1)
     | (Inr (cfg, issuer, server), p1) \<Rightarrow>
         (case serveCalls c calls issuer (pr_fs p1) of
            (issuer', fs') \<Rightarrow>
              (awaitStop stop,
               \<lparr>pr_fs = snd (Issuer_Close issuer' fs'),
                pr_pools = (case hs_admin server of None \<Rightarrow> pr_pools p1 | Some _ \<Rightarrow> pr_pools p1 - 1)\<rparr>)))"

subsection \<open>Resources\<close>

lemma openPilotDatabase_pools:
  "openPilotDatabase parseConfig connect url n = (r, n') \<Longrightarrow> n' = (case r of Inl _ \<Rightarrow> n | Inr _ \<Rightarrow> n + 1)"
  by (auto simp: openPilotDatabase_def Let_def split: sum.splits option.splits if_splits)

lemma startPilot_pools:
  assumes "startPilot c env cfg n = (r, n')"
  shows "n' = (case r of Inl _ \<Rightarrow> n | Inr _ \<Rightarrow> n + 1)"
proof -
  obtain r1 n1 where o: "openPilotDatabase (se_parseConfig env) (se_connect env) (cf_DatabaseURL cfg) n = (r1, n1)"
    by force
  show ?thesis
    using assms o openPilotDatabase_pools [OF o]
    by (auto simp: startPilot_def split: sum.splits if_splits)
qed

lemma Issuer_Issue_lock:
  assumes "store_inv fs" and "Issuer_Issue c x catalogFile clock i fs = (r, i', fs')"
  shows "store_inv fs' \<and> fs_locked fs' = fs_locked fs \<and> i_closed i' = i_closed i"
  using assms(2)
proof (cases rule: Issuer_Issue_cases)
  case idle
  then show ?thesis using assms(1) by simp
next
  case (failed e until)
  from failed(1) have "store_inv fs' \<and> fs_locked fs' = fs_locked fs"
    by (cases rule: refresh_Inl) (use assms(1) Save_cases(1) [OF assms(1)] in auto)
  then show ?thesis using failed(2) by simp
next
  case (fresh env i1)
  from fresh(1) obtain st where "Save (i_path i) x fs st = (None, fs')" "i1 = i\<lparr>i_state := st\<rparr>"
    by (rule refresh_Inr)
  then show ?thesis using fresh(3) Save_cases(1) [OF assms(1)] by simp
qed

lemma serveCalls_lock:
  assumes "store_inv fs" and "serveCalls c calls i fs = (i', fs')"
  shows "store_inv fs' \<and> fs_locked fs' = fs_locked fs \<and> i_closed i' = i_closed i"
  using assms
proof (induction calls arbitrary: i fs)
  case Nil
  then show ?case by simp
next
  case (Cons call calls)
  obtain x k t where call: "call = (x, k, t)" using prod_cases3 by blast
  obtain r i1 fs1 where issue: "Issuer_Issue c x k t i fs = (r, i1, fs1)" using prod_cases3 by blast
  note lock = Issuer_Issue_lock [OF Cons.prems(1) issue]
  have "serveCalls c calls i1 fs1 = (i', fs')" using Cons.prems(2) issue by (simp add: call)
  from Cons.IH [OF _ this] lock show ?case by simp
qed

lemma Issuer_Close_lock:
  "store_inv fs \<Longrightarrow> \<not> i_closed i \<Longrightarrow> store_inv (snd (Issuer_Close i fs)) \<and> \<not> fs_locked (snd (Issuer_Close i fs))"
  by (simp add: Issuer_Close_def CloseProcessLock_def store_inv_def)

lemma startServing_cases:
  assumes "startServing c env p = (r, p')" and "store_inv (pr_fs p)"
  shows "case r of
      Inl e \<Rightarrow> store_inv (pr_fs p') \<and> fs_locked (pr_fs p') = fs_locked (pr_fs p) \<and> pr_pools p' = pr_pools p
    | Inr (cfg, i, server) \<Rightarrow> store_inv (pr_fs p') \<and> \<not> fs_locked (pr_fs p) \<and> fs_locked (pr_fs p') \<and> \<not> i_closed i \<and>
        pr_pools p' = (case hs_admin server of None \<Rightarrow> pr_pools p | Some _ \<Rightarrow> pr_pools p + 1)"
proof (cases "Config_Load (se_environment env)")
  case (Inl e)
  then show ?thesis using assms by (auto simp: startServing_def)
next
  case cfg: (Inr cfg)
  show ?thesis
  proof (cases "loadInputs c env cfg")
    case (Inl e)
    then show ?thesis using assms cfg by (auto simp: startServing_def)
  next
    case options: (Inr options)
    obtain r1 fs1 where new: "NewIssuer c options (se_lock_faults env) (se_load_faults env) (se_migrate_faults env)
      (pr_fs p) = (r1, fs1)" by force
    note n = NewIssuer_cases [OF assms(2) new]
    show ?thesis
    proof (cases r1)
      case (Inl e)
      then show ?thesis using assms cfg options new n by (auto simp: startServing_def)
    next
      case i: (Inr i)
      have open_i: "\<not> i_closed i" using NewIssuer_ok(1) [OF assms(2) new [unfolded i]] by (simp add: issuer_ok_def)
      obtain r2 i1 fs2 where issue: "Issuer_Issue c (se_issue_faults env) (se_catalog env (cf_CatalogPath cfg))
        (se_clock env) i fs1 = (r2, i1, fs2)" using prod_cases3 by blast
      have l: "store_inv fs2" "fs_locked fs2" "\<not> i_closed i1" "\<not> fs_locked (pr_fs p)"
        using Issuer_Issue_lock [OF _ issue] n i open_i by auto
      note close = Issuer_Close_lock [OF l(1,3)]
      obtain r3 m where pilot: "startPilot c env cfg (pr_pools p) = (r3, m)" by force
      note eq = assms(1) [unfolded startServing_def cfg sum.case options new prod.case i issue pilot]
      show ?thesis
        using eq l close startPilot_pools [OF pilot]
        by (cases r2; cases "cf_PilotAccess cfg"; cases r3) (auto simp: newServer_def)
    qed
  qed
qed

subsection \<open>What is served\<close>

text \<open>
  An endpoint to which a login may be sent: a socket of this machine, this machine by name or by
  a loopback address, or one whose certificate is verified for a given name.
\<close>

definition protected_endpoint :: "string \<Rightarrow> TLSConfig option \<Rightarrow> bool" where
  "protected_endpoint host tlsConfig \<longleftrightarrow>
    (\<exists>path. host = CHR ''/'' # path) \<or> equal_fold host ''localhost'' \<or>
    (\<exists>ip. ParseIP host = Some ip \<and> loopback_ip ip) \<or>
    (\<exists>t. tlsConfig = Some t \<and> tls_InsecureSkipVerify t = False \<and> (\<exists>ch name. tls_ServerName t = ch # name))"

lemma secureDatabaseEndpoint_protected: "secureDatabaseEndpoint host t \<Longrightarrow> protected_endpoint host t"
  using IsLoopback_ip
  by (cases host)
    (auto simp: secureDatabaseEndpoint_def protected_endpoint_def has_prefix_def neq_Nil_conv split: option.split_asm if_split_asm)

definition pool_ok :: "pool \<Rightarrow> bool" where
  "pool_ok database \<longleftrightarrow>
    protected_endpoint (cc_Host (po_config database)) (cc_TLSConfig (po_config database)) \<and>
    (\<forall>f \<in> set (cc_Fallbacks (po_config database)). protected_endpoint (fc_Host f) (fc_TLSConfig f)) \<and>
    cc_RuntimeParams (po_config database) ''search_path'' = Some ''pg_catalog'' \<and>
    pg_current_role (po_server database) = Some \<lparr>rolsuper = False, rolcreaterole = False, rolcreatedb = False, rolbypassrls = False\<rparr> \<and>
    list_all (\<lambda>(relation, privilege). pg_table_privilege (po_server database) relation privilege) requiredPrivileges"

lemma openPilotDatabase_ok:
  assumes "openPilotDatabase parseConfig connect url n = (Inr database, n')"
  shows "pool_ok database"
proof -
  obtain parsed where sec: "secureDatabaseConfig parseConfig url = Inr parsed"
    and db: "po_config database = hardenDatabaseConfig parsed"
    and ident: "validateDatabaseIdentity (po_server database) = None"
    and priv: "validateDatabasePrivileges (po_server database) = None"
    using assms by (auto simp: openPilotDatabase_def Let_def split: sum.splits option.splits if_splits)
  have "protected_endpoint (cc_Host parsed) (cc_TLSConfig parsed) \<and>
      (\<forall>f \<in> set (cc_Fallbacks parsed). protected_endpoint (fc_Host f) (fc_TLSConfig f))"
    using sec
    by (auto simp: secureDatabaseConfig_def list_ex_iff intro: secureDatabaseEndpoint_protected split: option.splits if_splits)
  moreover have "pg_current_role (po_server database) =
      Some \<lparr>rolsuper = False, rolcreaterole = False, rolcreatedb = False, rolbypassrls = False\<rparr>"
    using ident by (auto simp: validateDatabaseIdentity_def split: option.splits if_splits)
  ultimately show ?thesis
    using priv by (simp add: pool_ok_def db hardenDatabaseConfig_def validateDatabasePrivileges_def split: if_splits)
qed

definition first_manifest :: "crypto \<Rightarrow> reader option \<Rightarrow> time \<Rightarrow> Issuer \<Rightarrow> fs \<Rightarrow> bool" where
  "first_manifest c catalogFile clock i fs \<longleftrightarrow>
    (\<exists>k data. LoadFile catalogFile = Inr k \<and>
      Issue c k (st_LastVersion (i_state i)) (i_keyPolicy i) (i_rootKey i) (truncate_second clock) (i_ttl i)
        (i_privateKey i) = Inr (i_cached i) \<and>
      encode_state (i_state i) = Some data \<and>
      fs_disk fs = Some \<lparr>fi_kind = Regular, fi_private = True, fi_data = data, fi_synced = True\<rparr>)"

lemma first_issue:
  assumes "store_inv fs1" "\<not> hasCached i" and "Issuer_Issue c x catalogFile clock i fs1 = (Inr env, i1, fs2)"
  shows "first_manifest c catalogFile clock i1 fs2"
  using assms(3)
proof (cases rule: Issuer_Issue_cases)
  case idle
  then show ?thesis using assms(2) by simp
next
  case (failed e until)
  then show ?thesis using assms(2) by simp
next
  case (fresh env' i2)
  obtain st where st: "prepare c i (LoadFile catalogFile) (truncate_second clock) = Inr (env', st)"
    "Save (i_path i) x fs1 st = (None, fs2)" "i2 = i\<lparr>i_state := st\<rparr>"
    using refresh_Inr [OF fresh(1)] by metis
  obtain k digest where "LoadFile catalogFile = Inr k" "st = nextState i k digest (truncate_second clock)"
    "Issue c k (st_LastVersion (i_state i) + 1) (i_keyPolicy i) (i_rootKey i) (truncate_second clock) (i_ttl i)
      (i_privateKey i) = Inr env'"
    by (rule prepare_Inr [OF st(1)])
  moreover have "\<exists>data. encode_state st = Some data \<and>
      fs_disk fs2 = Some \<lparr>fi_kind = Regular, fi_private = True, fi_data = data, fi_synced = True\<rparr>"
    using Save_cases(2) [OF assms(1) st(2)] by auto
  ultimately show ?thesis
    using fresh(3) st(3) by (auto simp: first_manifest_def nextState_def)
qed

lemma startPilot_ok:
  assumes "startPilot c env cfg n = (Inr (database, handler), n')"
  shows "pool_ok database" and "NewWithTelemetry c True (cf_PilotAdminToken cfg) = Inr handler"
proof -
  obtain r1 n1 where o: "openPilotDatabase (se_parseConfig env) (se_connect env) (cf_DatabaseURL cfg) n = (r1, n1)"
    by force
  have "r1 = Inr database \<and> NewWithTelemetry c True (cf_PilotAdminToken cfg) = Inr handler"
    using assms o by (auto simp: startPilot_def split: sum.splits if_splits)
  then show "pool_ok database" "NewWithTelemetry c True (cf_PilotAdminToken cfg) = Inr handler"
    using openPilotDatabase_ok o by auto
qed

lemma startServing_Inr:
  assumes "startServing c env p = (Inr (cfg, i1, server), p')"
  obtains options i fs1 envelope admin where "Config_Load (se_environment env) = Inr cfg"
    and "loadInputs c env cfg = Inr options"
    and "NewIssuer c options (se_lock_faults env) (se_load_faults env) (se_migrate_faults env) (pr_fs p) = (Inr i, fs1)"
    and "Issuer_Issue c (se_issue_faults env) (se_catalog env (cf_CatalogPath cfg)) (se_clock env) i fs1 =
      (Inr envelope, i1, pr_fs p')"
    and "server = newServer cfg admin" and "admin = None \<longleftrightarrow> \<not> cf_PilotAccess cfg"
    and "\<forall>a. admin = Some a \<longrightarrow> (\<exists>n. startPilot c env cfg (pr_pools p) = (Inr a, n))"
proof -
  obtain options where cfg: "Config_Load (se_environment env) = Inr cfg" and options: "loadInputs c env cfg = Inr options"
    using assms by (auto simp: startServing_def split: sum.split_asm prod.split_asm if_split_asm)
  obtain r1 fs1 where new: "NewIssuer c options (se_lock_faults env) (se_load_faults env) (se_migrate_faults env)
    (pr_fs p) = (r1, fs1)" by force
  obtain i where i: "r1 = Inr i"
    using assms by (cases r1) (auto simp: startServing_def cfg options new)
  obtain r2 i2 fs2 where issue: "Issuer_Issue c (se_issue_faults env) (se_catalog env (cf_CatalogPath cfg))
    (se_clock env) i fs1 = (r2, i2, fs2)" using prod_cases3 by blast
  obtain r3 m where pilot: "startPilot c env cfg (pr_pools p) = (r3, m)" by force
  note eq = assms(1) [unfolded startServing_def cfg sum.case options new prod.case i issue pilot]
  obtain envelope where r2: "r2 = Inr envelope" using eq by (cases r2) auto
  show thesis
  proof (cases "cf_PilotAccess cfg")
    case True
    then obtain a where "r3 = Inr a" using eq r2 by (cases r3) auto
    then show thesis
      using eq r2 True issue pilot new i by (intro that [OF cfg options, of i fs1 envelope "Some a"]) auto
  next
    case False
    then show thesis
      using eq r2 issue new i by (intro that [OF cfg options, of i fs1 envelope None]) auto
  qed
qed

subsection \<open>A sample start\<close>

definition sample_environment :: environment where
  "sample_environment name =
    (case map_of
      [(''MANIFEST_SIGNING_KEY_PATH'', ''a''), (''MANIFEST_ROOT_PUBLIC_KEY_PATH'', ''b''),
       (''MANIFEST_KEY_POLICY_PATH'', ''p''), (''MANIFEST_STATE_PATH'', ''s''), (''MANIFEST_TTL'', ''10m''),
       (''MANIFEST_CACHE_TTL'', ''1s''), (''DATABASE_URL'', ''d''), (''PILOT_ADMIN_TOKEN'', sample_token)] name of
       None \<Rightarrow> '''' | Some v \<Rightarrow> v)"

definition sample_config :: Config where
  "sample_config =
    \<lparr>cf_ListenAddress = defaultListenAddress, cf_CatalogPath = defaultCatalogPath, cf_SigningKeyPath = ''a'',
     cf_RootKeyPath = ''b'', cf_KeyPolicyPath = ''p'', cf_IssuerStatePath = ''s'', cf_ManifestTTL = 10 * minute,
     cf_ManifestCache = second, cf_Shutdown = defaultShutdown, cf_MaxInFlight = defaultMaxInFlight,
     cf_DatabaseURL = ''d'', cf_PilotAdminToken = sample_token, cf_PilotAccess = True\<rparr>"

definition sample_conn :: ConnConfig where
  "sample_conn = \<lparr>cc_Host = ''localhost'', cc_TLSConfig = None, cc_Fallbacks = [], cc_RuntimeParams = Map.empty\<rparr>"

definition sample_server :: pg_server where
  "sample_server =
    \<lparr>pg_ping = True,
     pg_current_role = Some \<lparr>rolsuper = False, rolcreaterole = False, rolcreatedb = False, rolbypassrls = False\<rparr>,
     pg_privileges_query = True, pg_schema_usage = (\<lambda>_. True), pg_table_privilege = (\<lambda>_ _. True),
     pg_columns = (\<lambda>_. ''account_id'' # accessColumns @ resultColumns), pg_schema_queries = replicate 6 True\<rparr>"

definition sample_keys :: key_fs where
  "sample_keys =
    [''a'' \<mapsto> \<lparr>kf_regular = True, kf_perm = 384, kf_data = raw_url_encode (sample_key CHR ''a'') @ [CHR 0x0A]\<rparr>,
     ''b'' \<mapsto> \<lparr>kf_regular = True, kf_perm = 420, kf_data = raw_url_encode sample_root @ [CHR 0x0A]\<rparr>]"

definition sample_start_env :: start_env where
  "sample_start_env =
    \<lparr>se_environment = sample_environment, se_keys = sample_keys, se_private = load_ok, se_root = load_ok,
     se_policy = (\<lambda>_. Some (bytes_reader (print_json (enc_KeyPolicy sample_policy)))), se_policy_close = True,
     se_lock_faults = no_faults, se_load_faults = no_faults, se_migrate_faults = no_faults,
     se_issue_faults = no_faults, se_catalog = (\<lambda>_. sample_file), se_clock = 1000 * second,
     se_parseConfig = (\<lambda>_. Some sample_conn), se_connect = (\<lambda>_. sample_server)\<rparr>"

definition sample_process :: process where
  "sample_process = \<lparr>pr_fs = sample_fs, pr_pools = 0\<rparr>"

lemma sample_durations: "ParseDuration ''10m'' = Some (10 * minute)" "ParseDuration ''1s'' = Some second"
  by (simp_all add: ParseDuration_def has_prefix_def parse_terms.simps [of _ "_ # _"] parse_terms.simps [of _ "[]"]
      parse_term_def is_digit_def two63_def unit_value_def in_unit_def duration_defs Let_def)

lemma sample_listener: "isPrivateListener defaultListenAddress"
  by (simp add: defaultListenAddress_def isPrivateListener_def SplitHostPort_def has_prefix_def equal_fold_def
      fold_name_def fold_rune_def ParseIP_def ParseAddr_def parse_ipv4_def octet_def is_digit_def digits_value_def
      unspecified_def unmap_def IsLoopback_def) (simp add: numeral_eq_Suc)

lemma sample_trim: "TrimSpace (sample_environment name) = sample_environment name"
proof (rule TrimSpace_plain)
  have "sample_environment name \<in> {'''', ''a'', ''b'', ''p'', ''s'', ''10m'', ''1s'', ''d'', sample_token}"
    by (auto simp: sample_environment_def)
  then show "\<forall>c \<in> set (sample_environment name). byte c < 0x80 \<and> \<not> is_white (byte c)"
    by (auto simp: sample_token_def is_white_def in_cls_def)
qed

lemma sample_token_ok: "length sample_token = 32" "sample_token \<noteq> ''''" "\<not> lower_contains sample_token ''replace-with''"
proof -
  show "length sample_token = 32" "sample_token \<noteq> ''''" by (simp_all add: sample_token_def)
  show "\<not> lower_contains sample_token ''replace-with''"
    using sample_handler_new by (auto simp: NewWithTelemetry_def split: if_splits)
qed

lemma sample_Config_Load: "Config_Load sample_environment = Inr sample_config"
proof -
  have "durationFromEnvironment sample_environment ''MANIFEST_TTL'' d = Inr (10 * minute)"
    "durationFromEnvironment sample_environment ''MANIFEST_CACHE_TTL'' d = Inr second"
    "durationFromEnvironment sample_environment ''SHUTDOWN_TIMEOUT'' d = Inr d"
    "integerFromEnvironment sample_environment ''MAX_IN_FLIGHT'' n = Inr n" for d n
    unfolding durationFromEnvironment_def integerFromEnvironment_def sample_trim
    by (simp_all add: sample_environment_def sample_durations)
  moreover have "checkSettings (settings sample_environment (10 * minute) second defaultShutdown defaultMaxInFlight) =
      Inr sample_config"
    unfolding settings_def stringFromEnvironment_def sample_trim
    using sample_token_ok sample_listener
    by (simp add: checkSettings_def sample_environment_def sample_config_def Let_def)
  ultimately show ?thesis
    by (simp add: Config_Load_def boundedDuration_def duration_defs defaultShutdown_def defaultMaxInFlight_def)
qed

lemma sample_inputs: "loadInputs sample_crypto sample_start_env sample_config = Inr sample_options"
proof -
  have clean: "Clean ''a'' = ''a''" "Clean ''b'' = ''b''" by (simp_all add: Clean_def has_prefix_def)
  have key: "new_key_from_seed sample_crypto (replicate 32 (CHR ''a'')) = sample_key CHR ''a''"
    by (simp add: sample_crypto_def sample_key_def replicate_add [symmetric])
  have "LoadPrivate sample_crypto load_ok ''a'' sample_keys = Inr (sample_key CHR ''a'')"
    using LoadPrivate_file [OF sample_crypto_ok, of "replicate 32 (CHR ''a'')" sample_keys "''a''"]
    by (simp add: key clean sample_keys_def)
  moreover have "LoadPublic load_ok ''b'' sample_keys = Inr sample_root"
    by (rule LoadPublic_file) (simp_all add: clean sample_keys_def sample_root_def)
  moreover have "DecodeKeyPolicy (bytes_reader (print_json (enc_KeyPolicy sample_policy))) = Inr sample_policy"
    by (rule SignKeyPolicy_decodes [OF sample_crypto_ok sample_policy_signed sample_grants_new])
  ultimately show ?thesis
    by (simp add: loadInputs_def sample_start_env_def sample_config_def sample_options_def)
qed

lemma sample_pilot: "\<exists>database. startPilot sample_crypto sample_start_env sample_config 0 = (Inr (database, sample_handler), 1)"
proof -
  have "secureDatabaseEndpoint ''localhost'' None" by (simp add: secureDatabaseEndpoint_def equal_fold_def)
  then show ?thesis
    by (simp add: startPilot_def openPilotDatabase_def sample_start_env_def sample_config_def sample_handler_new
        secureDatabaseConfig_def sample_conn_def sample_server_def validateDatabaseIdentity_def hardenDatabaseConfig_def
        validateDatabasePrivileges_def requiredPrivileges_def Access_CheckSchema_def Telemetry_CheckSchema_def
        has_columns_def accessColumns_def resultColumns_def goes_through_def Let_def)
qed

lemma sample_serving:
  "\<exists>issuer server p'. startServing sample_crypto sample_start_env sample_process =
    (Inr (sample_config, issuer, server), p') \<and> hs_admin server \<noteq> None"
proof -
  have inv: "store_inv sample_fs" by (simp add: store_inv_def sample_fs_def)
  obtain i fs1 where new: "NewIssuer sample_crypto sample_options no_faults no_faults no_faults sample_fs = (Inr i, fs1)"
    and i: "st_LastVersion (i_state i) = 0 \<and> \<not> hasCached i \<and> i_retryAt i = zero_time \<and> i_path i = ''s'' \<and>
     i_privateKey i = sample_key CHR ''a'' \<and> i_rootKey i = sample_root \<and> i_keyPolicy i = sample_policy \<and>
     i_ttl i = 10 * minute \<and> i_cacheFor i = second \<and> fs_dir fs1 = Some (Directory, False) \<and> fs_file fs1 = None"
    using sample_start by blast
  have "sample_issuer i" using i NewIssuer_ok(1) [OF inv new] by (simp add: sample_issuer_def)
  then obtain env i1 fs2 where
    "Issuer_Issue sample_crypto no_faults sample_file (1000 * second) i fs1 = (Inr env, i1, fs2)"
    using sample_publish [of i "1000 * second" fs1] i by auto
  moreover obtain database where
    "startPilot sample_crypto sample_start_env sample_config 0 = (Inr (database, sample_handler), 1)"
    using sample_pilot by blast
  moreover have "se_environment sample_start_env = sample_environment" "se_lock_faults sample_start_env = no_faults"
    "se_load_faults sample_start_env = no_faults" "se_migrate_faults sample_start_env = no_faults"
    "se_issue_faults sample_start_env = no_faults" "\<And>path. se_catalog sample_start_env path = sample_file"
    "se_clock sample_start_env = 1000 * second" "cf_PilotAccess sample_config"
    by (simp_all add: sample_start_env_def sample_config_def)
  ultimately show ?thesis
    using new sample_Config_Load sample_inputs by (simp add: startServing_def sample_process_def newServer_def)
qed

text \<open>
  C38. However the control plane ends, at whatever step its start fails or its server stops, the
  process lock and the database connections are as they were before it ran: what it acquired it
  has released, and a lock that another process held is left alone.
\<close>

theorem run_releases:
  assumes "run c env calls stop p = (r, p')" and "store_inv (pr_fs p)"
  shows "store_inv (pr_fs p') \<and> fs_locked (pr_fs p') = fs_locked (pr_fs p) \<and> pr_pools p' = pr_pools p"
proof -
  obtain r1 p1 where s: "startServing c env p = (r1, p1)" by force
  note start = startServing_cases [OF s assms(2)]
  show ?thesis
  proof (cases r1)
    case (Inl e)
    then show ?thesis using assms(1) s start by (simp add: run_def)
  next
    case (Inr x)
    obtain cfg i server where x: "x = (cfg, i, server)" using prod_cases3 by blast
    obtain i' fs' where calls: "serveCalls c calls i (pr_fs p1) = (i', fs')" by force
    note start' = start [unfolded Inr x sum.case prod.case]
    have "store_inv fs'" "\<not> i_closed i'" using serveCalls_lock [OF _ calls] start' by auto
    from Issuer_Close_lock [OF this] start' show ?thesis
      using assms(1) s Inr x calls by (auto simp: run_def split: option.splits)
  qed
qed

theorem run_releases_witness:
  "\<exists>r p'. run sample_crypto sample_start_env [] (Signalled True ErrServerClosed) sample_process = (r, p') \<and>
    \<not> fs_locked (pr_fs p') \<and> pr_pools p' = 0"
proof -
  obtain r p' where run: "run sample_crypto sample_start_env [] (Signalled True ErrServerClosed) sample_process = (r, p')"
    by force
  have "store_inv (pr_fs sample_process)" by (simp add: sample_process_def store_inv_def sample_fs_def)
  from run_releases [OF run this] run show ?thesis by (simp add: sample_process_def sample_fs_def)
qed

text \<open>
  C37. The control plane serves only what was checked. When it listens, having started on a state
  directory that was durable, its configuration is within bounds, its first manifest was signed
  from the catalog file and the state of that manifest is on disk. The administration API is
  served only if it was configured, and then only on localhost, a loopback or a private address
  (127.0.0.0/8, ::1, 10.0.0.0/8, 172.16.0.0/12, 192.168.0.0/16, fc00::/7), with a token of at
  least 32 bytes, and over a database whose endpoints are on this machine or verify the
  certificate of a named server and whose role is unprivileged.
\<close>

theorem startServing_safe:
  assumes "startServing c env p = (Inr (cfg, issuer, server), p')" and "store_inv (pr_fs p)"
  shows "config_ok cfg \<and> hs_Addr server = cf_ListenAddress cfg \<and>
    first_manifest c (se_catalog env (cf_CatalogPath cfg)) (se_clock env) issuer (pr_fs p') \<and>
    (case hs_admin server of
       None \<Rightarrow> \<not> cf_PilotAccess cfg
     | Some (database, handler) \<Rightarrow>
         private_address (hs_Addr server) \<and> pool_ok database \<and> 32 \<le> length (cf_PilotAdminToken cfg) \<and>
         h_token handler = sha256_sum c (cf_PilotAdminToken cfg))"
proof -
  obtain options i fs1 envelope admin where cfg: "Config_Load (se_environment env) = Inr cfg"
    and "loadInputs c env cfg = Inr options"
    and new: "NewIssuer c options (se_lock_faults env) (se_load_faults env) (se_migrate_faults env) (pr_fs p) = (Inr i, fs1)"
    and issue: "Issuer_Issue c (se_issue_faults env) (se_catalog env (cf_CatalogPath cfg)) (se_clock env) i fs1 =
      (Inr envelope, issuer, pr_fs p')"
    and server: "server = newServer cfg admin" "admin = None \<longleftrightarrow> \<not> cf_PilotAccess cfg"
    and pilot: "\<forall>a. admin = Some a \<longrightarrow> (\<exists>n. startPilot c env cfg (pr_pools p) = (Inr a, n))"
    by (rule startServing_Inr [OF assms(1)])
  note ok = Config_Load_ok [OF cfg]
  have "first_manifest c (se_catalog env (cf_CatalogPath cfg)) (se_clock env) issuer (pr_fs p')"
    using first_issue [OF _ NewIssuer_ok(2) [OF assms(2) new] issue] NewIssuer_cases [OF assms(2) new] by simp
  moreover have "pool_ok database \<and> h_token handler = sha256_sum c (cf_PilotAdminToken cfg) \<and>
      32 \<le> length (cf_PilotAdminToken cfg)" if "admin = Some (database, handler)" for database handler
    using pilot that startPilot_ok [of c env cfg "pr_pools p" database handler]
    by (auto simp: NewWithTelemetry_def split: if_splits)
  moreover have "private_address (cf_ListenAddress cfg)" if "cf_PilotAccess cfg"
    using ok that by (simp add: config_ok_def)
  ultimately show ?thesis
    using ok server by (cases admin) (auto simp: newServer_def)
qed

theorem startServing_safe_witness:
  "\<exists>issuer server p'. startServing sample_crypto sample_start_env sample_process =
    (Inr (sample_config, issuer, server), p') \<and> private_address (hs_Addr server) \<and>
    (\<exists>database handler. hs_admin server = Some (database, handler) \<and> pool_ok database)"
proof -
  obtain issuer server p' where s: "startServing sample_crypto sample_start_env sample_process =
      (Inr (sample_config, issuer, server), p')" "hs_admin server \<noteq> None"
    using sample_serving by blast
  have "store_inv (pr_fs sample_process)" by (simp add: sample_process_def store_inv_def sample_fs_def)
  from startServing_safe [OF s(1) this] s show ?thesis by auto
qed

end
