(* ===== verification/Artifact.thy ===== *)
theory Artifact
  imports PilotAccess Policy
begin

text \<open>
  \<open>internal/artifactlock\<close> and \<open>cmd/artifact-fetch\<close>: the lock file that pins build artifacts and
  the download of one of them. The output directory is a map from names to contents; the
  network, the failing calls and a file that another process puts at the destination in the
  meantime are inputs. The lemmas show that only a file with the pinned digest is published,
  that no existing file is touched, and that a failure leaves nothing behind.
\<close>

subsection \<open>The lock\<close>

definition lockSchemaVersion :: int where "lockSchemaVersion = 1"
definition maxLockBytes :: nat where "maxLockBytes = 1048576"
definition maxArtifact :: int where "maxArtifact = 536870912"

abbreviation alnum :: "(nat \<times> nat) list" where
  "alnum \<equiv> [(0x41, 0x5A), (0x61, 0x7A), (0x30, 0x39)]"

definition namePattern :: rx where
  "namePattern = Seq (Cls [(0x61, 0x7A), (0x30, 0x39)]) (Upto (Cls [(0x61, 0x7A), (0x30, 0x39), (0x2D, 0x2D)]) 62)"

definition filePattern :: rx where
  "filePattern = Seq (Cls alnum) (Upto (Cls (alnum @ [(0x2E, 0x2E), (0x5F, 0x5F), (0x2D, 0x2D)])) 127)"

definition versionPattern :: rx where
  "versionPattern =
    Seq (Cls alnum) (Upto (Cls (alnum @ [(0x2E, 0x2E), (0x5F, 0x5F), (0x2B, 0x2B), (0x2D, 0x2D)])) 63)"

definition hexSHA256 :: rx where "hexSHA256 = Times (Cls hex_class) 64"
definition hexCommit :: rx where "hexCommit = Times (Cls hex_class) 40"

record Artifact =
  ar_Name :: string
  ar_FileName :: string
  ar_Version :: string
  ar_Commit :: string
  ar_Kind :: string
  ar_URL :: string
  ar_SHA256 :: string
  ar_MaxBytes :: int
  ar_Purpose :: string

record Lock =
  lk_SchemaVersion :: int
  lk_EvidenceCutoff :: string
  lk_Artifacts :: "Artifact list"

datatype artifact_error =
    ArtifactName
  | ArtifactFileName
  | ArtifactVersion
  | ArtifactCommit
  | ArtifactKind
  | ArtifactURL
  | ArtifactSHA256
  | ArtifactMaxBytes
  | ArtifactPurpose

datatype lock_file_error =
    LockOpenFailed
  | LockReadFailed
  | LockSize
  | LockDecode decode_error
  | LockSchema int
  | LockCutoff
  | LockCount
  | LockArtifact nat artifact_error
  | LockDuplicateName string
  | LockDuplicateFile string
  | LockNotFound string

definition AllowedHost :: "string \<Rightarrow> bool" where
  "AllowedHost host \<longleftrightarrow>
    host = ''github.com'' \<or> host = ''codeload.github.com'' \<or> host = ''release-assets.githubusercontent.com''"

definition validateArtifact :: "Artifact \<Rightarrow> artifact_error option" where
  "validateArtifact artifact =
    (if \<not> match_string namePattern (ar_Name artifact) then Some ArtifactName
     else if \<not> match_string filePattern (ar_FileName artifact) then Some ArtifactFileName
     else if \<not> match_string versionPattern (ar_Version artifact) then Some ArtifactVersion
     else if \<not> match_string hexCommit (ar_Commit artifact) then Some ArtifactCommit
     else if ar_Kind artifact \<noteq> ''source'' \<and> ar_Kind artifact \<noteq> ''binary'' then Some ArtifactKind
     else if (case ParseRequestURI (ar_URL artifact) of
         None \<Rightarrow> True
       | Some parsed \<Rightarrow> u_Scheme parsed \<noteq> ''https'' \<or> u_User parsed \<noteq> None \<or> u_RawQuery parsed \<noteq> '''' \<or>
           u_Fragment parsed \<noteq> '''' \<or> \<not> AllowedHost (Hostname parsed)) then Some ArtifactURL
     else if \<not> match_string hexSHA256 (ar_SHA256 artifact) then Some ArtifactSHA256
     else if ar_MaxBytes artifact < 1 \<or> maxArtifact < ar_MaxBytes artifact then Some ArtifactMaxBytes
     else if length (ar_Purpose artifact) < 1 \<or> 256 < length (ar_Purpose artifact) then Some ArtifactPurpose
     else None)"

text \<open>
  \<open>time.Parse\<close> with the layout \<open>2006-01-02\<close> reads fields of fixed width, so a date it accepts is
  what \<open>Format\<close> prints.
\<close>

definition valid_date :: "string \<Rightarrow> bool" where
  "valid_date z \<longleftrightarrow>
    (let y = digits_value (take 4 z); m = digits_value (take 2 (drop 5 z)); d = digits_value (drop 8 z) in
     length z = 10 \<and> z ! 4 = CHR ''-'' \<and> z ! 7 = CHR ''-'' \<and>
     list_all is_digit (take 4 z @ take 2 (drop 5 z) @ drop 8 z) \<and>
     1 \<le> m \<and> m \<le> 12 \<and> 1 \<le> d \<and> d \<le> month_lengths y ! nat (m - 1))"

fun validateArtifacts :: "nat \<Rightarrow> string list \<Rightarrow> string list \<Rightarrow> Artifact list \<Rightarrow> lock_file_error option" where
  "validateArtifacts i names files [] = None"
| "validateArtifacts i names files (artifact # rest) =
    (case validateArtifact artifact of
       Some e \<Rightarrow> Some (LockArtifact i e)
     | None \<Rightarrow>
         if ar_Name artifact \<in> set names then Some (LockDuplicateName (ar_Name artifact))
         else if ar_FileName artifact \<in> set files then Some (LockDuplicateFile (ar_FileName artifact))
         else validateArtifacts (i + 1) (ar_Name artifact # names) (ar_FileName artifact # files) rest)"

definition Lock_Validate :: "Lock \<Rightarrow> lock_file_error option" where
  "Lock_Validate lock =
    (if lk_SchemaVersion lock \<noteq> lockSchemaVersion then Some (LockSchema (lk_SchemaVersion lock))
     else if \<not> valid_date (lk_EvidenceCutoff lock) then Some LockCutoff
     else if length (lk_Artifacts lock) = 0 \<or> 32 < length (lk_Artifacts lock) then Some LockCount
     else validateArtifacts 0 [] [] (lk_Artifacts lock))"

definition zero_Artifact :: Artifact where
  "zero_Artifact = \<lparr>ar_Name = [], ar_FileName = [], ar_Version = [], ar_Commit = [], ar_Kind = [], ar_URL = [],
     ar_SHA256 = [], ar_MaxBytes = 0, ar_Purpose = []\<rparr>"

definition Artifact_fields :: "Artifact field list" where
  "Artifact_fields =
    [(''name'', field_of dec_string ar_Name (\<lambda>x. ar_Name_update (\<lambda>_. x))),
     (''file_name'', field_of dec_string ar_FileName (\<lambda>x. ar_FileName_update (\<lambda>_. x))),
     (''version'', field_of dec_string ar_Version (\<lambda>x. ar_Version_update (\<lambda>_. x))),
     (''commit'', field_of dec_string ar_Commit (\<lambda>x. ar_Commit_update (\<lambda>_. x))),
     (''kind'', field_of dec_string ar_Kind (\<lambda>x. ar_Kind_update (\<lambda>_. x))),
     (''url'', field_of dec_string ar_URL (\<lambda>x. ar_URL_update (\<lambda>_. x))),
     (''sha256'', field_of dec_string ar_SHA256 (\<lambda>x. ar_SHA256_update (\<lambda>_. x))),
     (''max_bytes'', field_of dec_int ar_MaxBytes (\<lambda>x. ar_MaxBytes_update (\<lambda>_. x))),
     (''purpose'', field_of dec_string ar_Purpose (\<lambda>x. ar_Purpose_update (\<lambda>_. x)))]"

definition Lock_fields :: "Lock field list" where
  "Lock_fields =
    [(''schema_version'', field_of dec_int lk_SchemaVersion (\<lambda>x. lk_SchemaVersion_update (\<lambda>_. x))),
     (''evidence_cutoff'', field_of dec_string lk_EvidenceCutoff (\<lambda>x. lk_EvidenceCutoff_update (\<lambda>_. x))),
     (''artifacts'', field_of (dec_list (dec_struct Artifact_fields) zero_Artifact) lk_Artifacts
        (\<lambda>x. lk_Artifacts_update (\<lambda>_. x)))]"

definition zero_Lock :: Lock where
  "zero_Lock = \<lparr>lk_SchemaVersion = 0, lk_EvidenceCutoff = [], lk_Artifacts = []\<rparr>"

definition Lock_Load :: "reader option \<Rightarrow> lock_file_error + Lock" where
  "Lock_Load lockFile =
    (case lockFile of
       None \<Rightarrow> Inl LockOpenFailed
     | Some rd \<Rightarrow>
     case read_limited rd (maxLockBytes + 1) of
       None \<Rightarrow> Inl LockReadFailed
     | Some data \<Rightarrow>
     if length data = 0 \<or> maxLockBytes < length data then Inl LockSize
     else case decodeStrict (dec_struct Lock_fields) zero_Lock data of
       Inl e \<Rightarrow> Inl (LockDecode e)
     | Inr lock \<Rightarrow> (case Lock_Validate lock of Some e \<Rightarrow> Inl e | None \<Rightarrow> Inr lock))"

definition Lock_Find :: "Lock \<Rightarrow> string \<Rightarrow> lock_file_error + Artifact" where
  "Lock_Find lock name =
    (case find (\<lambda>artifact. ar_Name artifact = name) (lk_Artifacts lock) of
       None \<Rightarrow> Inl (LockNotFound name)
     | Some artifact \<Rightarrow> Inr artifact)"

subsection \<open>The download\<close>

record reply =
  re_Status :: int
  re_ContentLength :: int
  re_Body :: reader

record fetch_env =
  fe_client :: bool
  fe_mkdir :: bool
  fe_abs :: bool
  fe_lstat :: bool
  fe_redirects :: "url list"
  fe_reply :: "reply option"
  fe_random :: "string option"
  fe_chmod :: bool
  fe_write :: bool
  fe_sync :: bool
  fe_close :: bool
  fe_appears :: "bytes option"
  fe_link :: bool
  fe_unlink :: bool
  fe_undo :: bool
  fe_cleanup :: bool

datatype fetch_error =
    FetchArtifact artifact_error
  | ClientRequired
  | CreateDirectory
  | ResolveDirectory
  | DestinationExists
  | InspectDestination
  | RequestFailed
  | UnexpectedStatus int
  | DeclaredLength
  | FinalURL
  | CreateTemporary
  | SecureTemporary
  | DownloadFailed
  | DownloadSize
  | DigestMismatch
  | SyncTemporary
  | CloseTemporary
  | PublishFailed
  | RemoveTemporary

type_synonym directory = "string \<rightharpoonup> bytes"

definition approved :: "url \<Rightarrow> bool" where
  "approved u \<longleftrightarrow> u_Scheme u = ''https'' \<and> AllowedHost (Hostname u)"

text \<open>\<open>CheckRedirect\<close> with the number of requests made so far, and the chain of redirects.\<close>

definition checkRedirect :: "nat \<Rightarrow> url \<Rightarrow> bool" where
  "checkRedirect via u \<longleftrightarrow> \<not> 5 \<le> via \<and> approved u"

fun followRedirects :: "nat \<Rightarrow> url \<Rightarrow> url list \<Rightarrow> url option" where
  "followRedirects via u [] = Some u"
| "followRedirects via u (v # vs) = (if checkRedirect via v then followRedirects (via + 1) v vs else None)"

definition publishExclusive :: "fetch_env \<Rightarrow> string \<Rightarrow> string \<Rightarrow> directory \<Rightarrow> fetch_error option \<times> directory" where
  "publishExclusive env source destination dir =
    (if dir destination \<noteq> None then (Some DestinationExists, dir)
     else if \<not> fe_link env then (Some PublishFailed, dir)
     else
       let linked = dir(destination := dir source) in
       if \<not> fe_unlink env then
         (Some RemoveTemporary, if fe_undo env then linked(destination := None) else linked)
       else (None, linked(source := None)))"

definition appear :: "fetch_env \<Rightarrow> string \<Rightarrow> directory \<Rightarrow> directory" where
  "appear env destination dir =
    (case fe_appears env of
       None \<Rightarrow> dir
     | Some d \<Rightarrow> if dir destination = None then dir(destination \<mapsto> d) else dir)"

definition temporary_name :: "string \<Rightarrow> string" where
  "temporary_name random = ''.artifact-'' @ random @ ''.tmp''"

text \<open>
  From the temporary file on. The deferred removal runs on every failure; what a failing write
  leaves in the temporary file does not matter, since the file is removed or stays temporary.
\<close>

definition download ::
  "crypto \<Rightarrow> fetch_env \<Rightarrow> Artifact \<Rightarrow> reader \<Rightarrow> string \<Rightarrow> directory \<Rightarrow> fetch_error option \<times> directory" where
  "download c env artifact body temporary dir =
    (let cleanup = (\<lambda>d. if fe_cleanup env then d(temporary := None) else d);
         created = dir(temporary \<mapsto> '''')
     in if \<not> fe_chmod env then (Some SecureTemporary, cleanup created)
        else case read_limited body (nat (ar_MaxBytes artifact) + 1) of
          None \<Rightarrow> (Some DownloadFailed, cleanup (dir(temporary \<mapsto> rd_data body)))
        | Some data \<Rightarrow>
            let written = dir(temporary \<mapsto> data) in
            if \<not> fe_write env then (Some DownloadFailed, cleanup written)
            else if length data = 0 \<or> ar_MaxBytes artifact < int (length data) then (Some DownloadSize, cleanup written)
            else if hex_text (sha256_sum c data) \<noteq> ar_SHA256 artifact then (Some DigestMismatch, cleanup written)
            else if \<not> fe_sync env then (Some SyncTemporary, cleanup written)
            else if \<not> fe_close env then (Some CloseTemporary, cleanup written)
            else case publishExclusive env temporary (ar_FileName artifact) (appear env (ar_FileName artifact) written) of
              (Some e, d) \<Rightarrow> (Some e, cleanup d)
            | (None, d) \<Rightarrow> (None, d))"

text \<open>
  \<open>NewRequest\<close> parses the URL again and splits off a fragment, which leaves the scheme and the host
  as they are.
\<close>

definition Artifact_Fetch ::
  "crypto \<Rightarrow> fetch_env \<Rightarrow> Artifact \<Rightarrow> directory \<Rightarrow> fetch_error option \<times> directory" where
  "Artifact_Fetch c env artifact dir =
    (case validateArtifact artifact of
       Some e \<Rightarrow> (Some (FetchArtifact e), dir)
     | None \<Rightarrow>
     if \<not> fe_client env then (Some ClientRequired, dir)
     else if \<not> fe_mkdir env then (Some CreateDirectory, dir)
     else if \<not> fe_abs env then (Some ResolveDirectory, dir)
     else if \<not> fe_lstat env then (Some InspectDestination, dir)
     else if dir (ar_FileName artifact) \<noteq> None then (Some DestinationExists, dir)
     else case ParseRequestURI (ar_URL artifact) of
       None \<Rightarrow> (Some RequestFailed, dir)
     | Some first \<Rightarrow>
     case (followRedirects 1 first (fe_redirects env), fe_reply env) of
       (Some finalURL, Some response) \<Rightarrow>
         if re_Status response \<noteq> 200 then (Some (UnexpectedStatus (re_Status response)), dir)
         else if ar_MaxBytes artifact < re_ContentLength response then (Some DeclaredLength, dir)
         else if \<not> approved finalURL then (Some FinalURL, dir)
         else (case fe_random env of
             None \<Rightarrow> (Some CreateTemporary, dir)
           | Some random \<Rightarrow>
               if dir (temporary_name random) \<noteq> None then (Some CreateTemporary, dir)
               else download c env artifact (re_Body response) (temporary_name random) dir)
     | _ \<Rightarrow> (Some RequestFailed, dir))"

text \<open>The command: the exit status and the directory.\<close>

definition artifact_fetch ::
  "crypto \<Rightarrow> fetch_env \<Rightarrow> reader option \<Rightarrow> string \<Rightarrow> directory \<Rightarrow> int \<times> directory" where
  "artifact_fetch c env lockFile name dir =
    (if name = '''' then (2, dir)
     else case Lock_Load lockFile of
       Inl e \<Rightarrow> (1, dir)
     | Inr lock \<Rightarrow>
     case Lock_Find lock name of
       Inl e \<Rightarrow> (1, dir)
     | Inr artifact \<Rightarrow>
     case Artifact_Fetch c env artifact dir of
       (Some e, dir') \<Rightarrow> (1, dir')
     | (None, dir') \<Rightarrow> (0, dir'))"

subsection \<open>What is published\<close>

definition pinned :: "crypto \<Rightarrow> Artifact \<Rightarrow> bytes \<Rightarrow> bool" where
  "pinned c artifact data \<longleftrightarrow> 0 < length data \<and> int (length data) \<le> ar_MaxBytes artifact \<and>
     hex_text (sha256_sum c data) = ar_SHA256 artifact"

definition removals_work :: "fetch_env \<Rightarrow> bool" where
  "removals_work env \<longleftrightarrow> fe_undo env \<and> fe_cleanup env"

definition fetch_ok :: "crypto \<Rightarrow> fetch_env \<Rightarrow> Artifact \<Rightarrow> directory \<Rightarrow> fetch_error option \<Rightarrow> directory \<Rightarrow> bool" where
  "fetch_ok c env artifact dir r dir' \<longleftrightarrow>
    (case r of
       None \<Rightarrow> dir (ar_FileName artifact) = None \<and> (\<exists>data. dir' = dir(ar_FileName artifact \<mapsto> data) \<and> pinned c artifact data)
     | Some e \<Rightarrow> removals_work env \<longrightarrow> dir' = dir \<or> dir' = appear env (ar_FileName artifact) dir) \<and>
    (\<forall>name d. dir name = Some d \<longrightarrow> dir' name = Some d) \<and>
    (\<forall>d. dir (ar_FileName artifact) = None \<and> dir' (ar_FileName artifact) = Some d \<longrightarrow>
       pinned c artifact d \<or> fe_appears env = Some d)"

lemma fetch_ok_same: "fetch_ok c env artifact dir (Some e) dir"
  by (auto simp: fetch_ok_def)

lemma publishExclusive_cases:
  assumes "publishExclusive env t f dir = (r, dir')" and "t \<noteq> f"
  obtains (published) "r = None" "dir f = None" "dir' = dir(f := dir t, t := None)"
  | (kept) e where "r = Some e" "dir' = dir"
  | (linked) e where "r = Some e" "dir f = None" "\<not> fe_undo env" "dir' = dir(f := dir t)"
  using assms by (auto simp: publishExclusive_def Let_def fun_upd_idem split: if_splits)

lemma publish_ok:
  assumes "publishExclusive env t f (appear env f (dir(t \<mapsto> data))) = (r, d)"
    and "dir t = None" "t \<noteq> f" "dir f = None" "f = ar_FileName artifact" "pinned c artifact data"
  shows "fetch_ok c env artifact dir r (if r = None then d else if fe_cleanup env then d(t := None) else d)"
proof -
  have present: "name \<noteq> t \<and> name \<noteq> f" if "dir name = Some x" for name x using that assms by auto
  have app: "appear env f (dir(t \<mapsto> data)) = (appear env f dir)(t \<mapsto> data)"
    using assms(3,4) by (simp add: appear_def fun_upd_twist split: option.splits)
  have app_f: "appear env f dir f = fe_appears env" and app_t: "appear env f dir t = None"
    and app_o: "\<And>n. n \<noteq> f \<Longrightarrow> appear env f dir n = dir n"
    using assms(2-4) by (simp_all add: appear_def split: option.splits)
  from assms(1,3) show ?thesis
  proof (cases rule: publishExclusive_cases)
    case published
    then have "fe_appears env = None" using app app_f assms(3) by simp
    then have "d = dir(f \<mapsto> data)" using published app assms(2,3) by (auto simp: appear_def)
    then show ?thesis using published(1) assms(4-6) present by (auto simp: fetch_ok_def)
  next
    case (kept e)
    then show ?thesis
      using app app_f app_t app_o assms(3,5) present
      by (auto simp: fetch_ok_def removals_work_def fun_upd_idem)
  next
    case (linked e)
    then show ?thesis
      using app app_f app_t app_o assms(3,5,6) present
      by (auto simp: fetch_ok_def removals_work_def)
  qed
qed

lemma temporary_ok:
  assumes "dir t = None" "t \<noteq> ar_FileName artifact"
  shows "fetch_ok c env artifact dir (Some e) (if fe_cleanup env then (dir(t \<mapsto> x))(t := None) else dir(t \<mapsto> x))"
  using assms by (auto simp: fetch_ok_def removals_work_def fun_upd_idem)

lemma download_ok:
  assumes d: "download c env artifact body t dir = (r, dir')" and t: "dir t = None" "t \<noteq> ar_FileName artifact"
    and f: "dir (ar_FileName artifact) = None"
  shows "fetch_ok c env artifact dir r dir'"
proof (cases "read_limited body (nat (ar_MaxBytes artifact) + 1)")
  case None
  then obtain e x where "r = Some e" "dir' = (if fe_cleanup env then (dir(t \<mapsto> x))(t := None) else dir(t \<mapsto> x))"
    using d by (auto simp: download_def Let_def split: if_split_asm)
  then show ?thesis using temporary_ok t by simp
next
  case (Some data)
  show ?thesis
  proof (cases "fe_chmod env \<and> fe_write env \<and> fe_sync env \<and> fe_close env \<and> pinned c artifact data")
    case True
    obtain r1 d1 where p: "publishExclusive env t (ar_FileName artifact)
        (appear env (ar_FileName artifact) (dir(t \<mapsto> data))) = (r1, d1)" by force
    have "(r, dir') = (r1, if r1 = None then d1 else if fe_cleanup env then d1(t := None) else d1)"
      using d Some True p by (cases r1) (auto simp: download_def Let_def pinned_def)
    then show ?thesis using publish_ok [OF p t f refl] True by simp
  next
    case False
    then obtain e x where "r = Some e" "dir' = (if fe_cleanup env then (dir(t \<mapsto> x))(t := None) else dir(t \<mapsto> x))"
      using d Some by (auto simp: download_def Let_def pinned_def not_less split: if_split_asm)
    then show ?thesis using temporary_ok t by simp
  qed
qed

lemma file_not_temporary: "match_string filePattern f \<Longrightarrow> temporary_name random \<noteq> f"
proof
  assume m: "match_string filePattern f" and "temporary_name random = f"
  then obtain s where "f = CHR ''.'' # s" by (auto simp: temporary_name_def)
  with m show False
    by (auto simp: match_string_def filePattern_def in_cls_def)
qed

lemma validateArtifact_file: "validateArtifact artifact = None \<Longrightarrow> match_string filePattern (ar_FileName artifact)"
  by (simp add: validateArtifact_def split: if_split_asm)

text \<open>
  C39. A download publishes only what the lock pins. When it succeeds, the directory has one
  new file, which is not empty, within the size limit, and has the pinned digest. Whatever
  happens, no existing file changes, and a file that appears under the artifact's name has the
  pinned digest unless another process put it there. When it fails and removals work, nothing
  of it is left.
\<close>

theorem Fetch_pinned:
  assumes "Artifact_Fetch c env artifact dir = (r, dir')"
  shows "(case r of
       None \<Rightarrow> dir (ar_FileName artifact) = None \<and> (\<exists>data. dir' = dir(ar_FileName artifact \<mapsto> data) \<and> pinned c artifact data)
     | Some e \<Rightarrow> removals_work env \<longrightarrow> dir' = dir \<or> dir' = appear env (ar_FileName artifact) dir) \<and>
    (\<forall>name d. dir name = Some d \<longrightarrow> dir' name = Some d) \<and>
    (\<forall>d. dir (ar_FileName artifact) = None \<and> dir' (ar_FileName artifact) = Some d \<longrightarrow>
       pinned c artifact d \<or> fe_appears env = Some d)"
proof (cases "\<exists>e. r = Some e \<and> dir' = dir")
  case True
  then show ?thesis using fetch_ok_same [of c env artifact dir] by (auto simp: fetch_ok_def)
next
  case False
  then obtain body random where valid: "validateArtifact artifact = None" and "dir (ar_FileName artifact) = None"
    "dir (temporary_name random) = None"
    and down: "download c env artifact body (temporary_name random) dir = (r, dir')"
    using assms by (simp add: Artifact_Fetch_def split: option.split_asm if_split_asm)
  then have "fetch_ok c env artifact dir r dir'"
    using file_not_temporary [OF validateArtifact_file [OF valid]] by (intro download_ok [OF down]) auto
  then show ?thesis by (simp add: fetch_ok_def)
qed

definition sample_artifact :: Artifact where
  "sample_artifact =
    \<lparr>ar_Name = ''a'', ar_FileName = ''f'', ar_Version = ''1'', ar_Commit = replicate 40 (CHR ''0''),
     ar_Kind = ''source'', ar_URL = ''https://github.com/m'', ar_SHA256 = hex_text (sha256_sum sample_crypto ''x''),
     ar_MaxBytes = 1, ar_Purpose = ''p''\<rparr>"

definition sample_fetch :: fetch_env where
  "sample_fetch =
    \<lparr>fe_client = True, fe_mkdir = True, fe_abs = True, fe_lstat = True, fe_redirects = [],
     fe_reply = Some \<lparr>re_Status = 200, re_ContentLength = 1, re_Body = bytes_reader ''x''\<rparr>,
     fe_random = Some ''1'', fe_chmod = True, fe_write = True, fe_sync = True, fe_close = True, fe_appears = None,
     fe_link = True, fe_unlink = True, fe_undo = True, fe_cleanup = True\<rparr>"

lemma sample_artifact_url: "ParseRequestURI ''https://github.com/m'' =
    Some \<lparr>u_Scheme = ''https'', u_Opaque = [], u_User = None, u_Host = ''github.com'', u_Path = ''/m'',
      u_RawQuery = [], u_Fragment = []\<rparr>"
  by code_simp

lemma sample_artifact_host: "AllowedHost (Hostname
    \<lparr>u_Scheme = ''https'', u_Opaque = [], u_User = None, u_Host = ''github.com'', u_Path = ''/m'',
      u_RawQuery = [], u_Fragment = []\<rparr>)"
  by code_simp

lemma hex_text_pattern: "length raw = 32 \<Longrightarrow> match_string hexSHA256 (hex_text raw)"
  using hex_text_hex [of _ raw] runes_ascii [of "hex_text raw"]
  by (auto simp: hexSHA256_def match_times_cls list_all_iff)

lemma sample_artifact_valid: "validateArtifact sample_artifact = None"
proof -
  have "match_string hexSHA256 (hex_text (sha256_sum sample_crypto ''x''))"
    by (rule hex_text_pattern) (simp add: crypto_okD(1) [OF sample_crypto_ok])
  moreover have "match_string hexCommit (replicate 40 (CHR ''0''))"
    using runes_ascii [of "replicate 40 (CHR ''0'')"]
    by (simp add: hexCommit_def match_times_cls hex_class_def in_cls_def list_all_iff)
  ultimately show ?thesis
    by (simp add: validateArtifact_def sample_artifact_def namePattern_def filePattern_def versionPattern_def
        match_head_upto in_cls_def sample_artifact_url sample_artifact_host maxArtifact_def)
qed

lemma sample_fetched: "fst (Artifact_Fetch sample_crypto sample_fetch sample_artifact Map.empty) = None"
  using sample_artifact_valid sample_artifact_host
  by (simp add: Artifact_Fetch_def) (simp add: sample_fetch_def sample_artifact_def sample_artifact_url approved_def
      download_def Let_def publishExclusive_def appear_def temporary_name_def)

theorem Fetch_pinned_witness:
  "\<exists>dir data. Artifact_Fetch sample_crypto sample_fetch sample_artifact Map.empty = (None, dir) \<and>
    dir = [''f'' \<mapsto> data] \<and> pinned sample_crypto sample_artifact data"
proof -
  obtain dir where f: "Artifact_Fetch sample_crypto sample_fetch sample_artifact Map.empty = (None, dir)"
    using sample_fetched by (metis prod.collapse)
  have "ar_FileName sample_artifact = ''f''" by (simp add: sample_artifact_def)
  with Fetch_pinned [OF f] f show ?thesis by auto
qed

end
