(* ===== verification/PilotMetrics.thy ===== *)
theory PilotMetrics
  imports VpnNode GoStrings
begin

text \<open>
  \<open>internal/pilotmetrics\<close>: the text a scraper reads. What the node observed is an argument, and
  so is \<open>strconv.FormatFloat\<close>, the shortest decimal form of a \<open>float64\<close>. The lemmas show that a
  label value stays inside its quotes whatever the node reports.
\<close>

subsection \<open>Labels\<close>

text \<open>
  \<open>strings.Map\<close> rewrites rune by rune; an invalid byte reaches the function as U+FFFD and is
  written as that rune. \<open>ReplaceAll\<close> of one byte is \<open>replace_byte\<close>.
\<close>

definition map_runes :: "(nat \<Rightarrow> string option) \<Rightarrow> string \<Rightarrow> string" where
  "map_runes f s = concat (map (\<lambda>chunk.
     case decode_rune chunk of (r, w) \<Rightarrow>
       (case f r of
          Some t \<Rightarrow> t
        | None \<Rightarrow> if r = 0xFFFD \<and> w = 1 then [CHR 0xEF, CHR 0xBF, CHR 0xBD] else chunk)) (rune_chunks s))"

definition replace_byte :: "char \<Rightarrow> string \<Rightarrow> string \<Rightarrow> string" where
  "replace_byte old new s = concat (map (\<lambda>c. if c = old then new else [c]) s)"

definition blank_controls :: "string \<Rightarrow> string" where
  "blank_controls value' = map_runes (\<lambda>r. if is_control r \<and> r \<noteq> 0x0A then Some '' '' else None) value'"

definition escapeLabel :: "string \<Rightarrow> string" where
  "escapeLabel value' =
    replace_byte (CHR 0x22) [CHR 0x5C, CHR 0x22]
      (replace_byte (CHR 0x0A) [CHR 0x5C, CHR ''n'']
        (replace_byte (CHR 0x5C) [CHR 0x5C, CHR 0x5C] (blank_controls value')))"

subsection \<open>The exposition\<close>

definition newline_char :: string where "newline_char = [CHR 0x0A]"
definition quoted :: "string \<Rightarrow> string" where "quoted s = [CHR 0x22] @ s @ [CHR 0x22]"

definition writeHelpType :: "string \<Rightarrow> string \<Rightarrow> string \<Rightarrow> string" where
  "writeHelpType name help metricType =
    ''# HELP '' @ name @ '' '' @ help @ newline_char @ ''# TYPE '' @ name @ '' '' @ metricType @ newline_char"

definition metric_line :: "string \<Rightarrow> string \<Rightarrow> string \<Rightarrow> string" where
  "metric_line name labels value' = name @ ''{'' @ labels @ ''} '' @ value' @ newline_char"

record observed_node =
  nd_ID :: string
  nd_Provider :: string
  nd_Health :: "node_error + Health"
  nd_Metrics :: "node_error + Metrics"

definition node_labels :: "observed_node \<Rightarrow> string" where
  "node_labels n = ''node_id='' @ quoted (escapeLabel (nd_ID n)) @ '',provider='' @ quoted (escapeLabel (nd_Provider n))"

definition up_text :: "bool \<Rightarrow> string" where "up_text b = (if b then ''1'' else ''0'')"

definition valid_health :: "observed_node \<Rightarrow> Health option" where
  "valid_health n = (case nd_Health n of Inl _ \<Rightarrow> None | Inr h \<Rightarrow> if ValidateHealth h = None then Some h else None)"

definition valid_metrics :: "observed_node \<Rightarrow> Metrics option" where
  "valid_metrics n = (case nd_Metrics n of Inl _ \<Rightarrow> None | Inr m \<Rightarrow> if ValidateMetrics m = None then Some m else None)"

definition resource_lines :: "(float64 \<Rightarrow> string) \<Rightarrow> string \<Rightarrow> Metrics \<Rightarrow> string" where
  "resource_lines formatFloat labels m =
    writeHelpType ''vchs_node_cpu_percent'' ''Current node CPU utilization percentage.'' ''gauge'' @
    metric_line ''vchs_node_cpu_percent'' labels (formatFloat (me_CPUPercent m)) @
    writeHelpType ''vchs_node_memory_total_bytes'' ''Total node memory in bytes.'' ''gauge'' @
    metric_line ''vchs_node_memory_total_bytes'' labels (dec_text (unat (me_MemoryTotalBytes m))) @
    writeHelpType ''vchs_node_memory_used_bytes'' ''Used node memory in bytes.'' ''gauge'' @
    metric_line ''vchs_node_memory_used_bytes'' labels (dec_text (unat (me_MemoryUsedBytes m))) @
    writeHelpType ''vchs_node_network_rx_bytes_total'' ''Node received network bytes.'' ''counter'' @
    metric_line ''vchs_node_network_rx_bytes_total'' labels (dec_text (unat (me_NetworkRXBytes m))) @
    writeHelpType ''vchs_node_network_tx_bytes_total'' ''Node transmitted network bytes.'' ''counter'' @
    metric_line ''vchs_node_network_tx_bytes_total'' labels (dec_text (unat (me_NetworkTXBytes m))) @
    (case me_ActiveConnectionCount m of
       None \<Rightarrow> ''''
     | Some k \<Rightarrow>
         writeHelpType ''vchs_node_active_connections'' ''Safely observable active VPN connection count.'' ''gauge'' @
         metric_line ''vchs_node_active_connections'' labels (dec_text (unat k))) @
    (if me_ConfigRevision m = '''' then ''''
     else
       writeHelpType ''vchs_node_config_revision_info'' ''Current sanitized node configuration revision.'' ''gauge'' @
       metric_line ''vchs_node_config_revision_info''
         (labels @ '',revision='' @ quoted (escapeLabel (me_ConfigRevision m))) ''1'')"

definition collect :: "(float64 \<Rightarrow> string) \<Rightarrow> observed_node \<Rightarrow> string" where
  "collect formatFloat n =
    (let labels = node_labels n; health = valid_health n; metrics = valid_metrics n;
         nodeUp = (case health of None \<Rightarrow> False | Some h \<Rightarrow> he_State h \<noteq> StateDown) in
     writeHelpType ''vchs_node_up'' ''Whether the node process and transports are observable.'' ''gauge'' @
     writeHelpType ''vchs_transport_up'' ''Whether an individual VPN transport is healthy.'' ''gauge'' @
     metric_line ''vchs_node_up'' labels (up_text nodeUp) @
     (case health of
        None \<Rightarrow> ''''
      | Some h \<Rightarrow> concat (map (\<lambda>t. metric_line ''vchs_transport_up''
          (labels @ '',transport='' @ quoted (escapeLabel (th_Transport t))) (up_text (th_Up t))) (he_Transports h))) @
     writeHelpType ''vchs_node_metrics_scrape_success'' ''Whether health and resource observations were valid.'' ''gauge'' @
     metric_line ''vchs_node_metrics_scrape_success'' labels (up_text (health \<noteq> None \<and> metrics \<noteq> None)) @
     (case metrics of None \<Rightarrow> '''' | Some m \<Rightarrow> resource_lines formatFloat labels m))"

subsection \<open>The handler\<close>

definition defaultObservationTimeout :: duration where "defaultObservationTimeout = 3 * second"

datatype metrics_error = MetricsNode node_error | MetricsTimeout

text \<open>\<open>New\<close> gives the timeout of the observations; a millisecond is a thousandth of a second.\<close>

definition Metrics_New :: "observed_node \<Rightarrow> duration \<Rightarrow> metrics_error + duration" where
  "Metrics_New n timeout =
    (case ValidateID (nd_ID n) of
       Some e \<Rightarrow> Inl (MetricsNode e)
     | None \<Rightarrow>
         let t = (if timeout = 0 then defaultObservationTimeout else timeout) in
         if t < second div 10 \<or> 10 * second < t then Inl MetricsTimeout else Inr t)"

record scrape_response =
  sc_Status :: int
  sc_Header :: "string \<rightharpoonup> string"
  sc_Body :: string

text \<open>\<open>http.Error\<close> sets the type of the text and ends it with a newline.\<close>

definition Metrics_ServeHTTP :: "(float64 \<Rightarrow> string) \<Rightarrow> observed_node \<Rightarrow> string \<Rightarrow> scrape_response" where
  "Metrics_ServeHTTP formatFloat n httpMethod =
    (if httpMethod \<noteq> ''GET'' \<and> httpMethod \<noteq> ''HEAD'' then
       \<lparr>sc_Status = 405,
        sc_Header = [''Allow'' \<mapsto> ''GET, HEAD'', ''Content-Type'' \<mapsto> ''text/plain; charset=utf-8'',
          ''X-Content-Type-Options'' \<mapsto> ''nosniff''],
        sc_Body = ''method not allowed'' @ newline_char\<rparr>
     else
       \<lparr>sc_Status = 200,
        sc_Header = [''Cache-Control'' \<mapsto> ''no-store'',
          ''Content-Type'' \<mapsto> ''text/plain; version=0.0.4; charset=utf-8''],
        sc_Body = (if httpMethod = ''GET'' then collect formatFloat n else '''')\<rparr>)"

subsection \<open>Reading the text back\<close>

text \<open>A scraper reads a label value up to the first quote that is not escaped.\<close>

fun scan_label :: "string \<Rightarrow> (string \<times> string) option" where
  "scan_label [] = None"
| "scan_label (c # s) =
    (if c = CHR 0x22 then Some ('''', s)
     else if c = CHR 0x5C then
       (case s of
          [] \<Rightarrow> None
        | e # t \<Rightarrow> map_option (\<lambda>(v, rest). ((if e = CHR ''n'' then CHR 0x0A else e) # v, rest)) (scan_label t))
     else map_option (\<lambda>(v, rest). (c # v, rest)) (scan_label s))"

lemma replace_byte_simps [simp]:
  "replace_byte old new [] = []"
  "replace_byte old new (c # s) = (if c = old then new else [c]) @ replace_byte old new s"
  "replace_byte old new (s @ t) = replace_byte old new s @ replace_byte old new t"
  by (simp_all add: replace_byte_def)

lemma scan_escaped:
  "scan_label (replace_byte (CHR 0x22) [CHR 0x5C, CHR 0x22] (replace_byte (CHR 0x0A) [CHR 0x5C, CHR ''n'']
     (replace_byte (CHR 0x5C) [CHR 0x5C, CHR 0x5C] v)) @ CHR 0x22 # rest) = Some (v, rest)"
  by (induction v) auto

lemma escaped_one_line:
  "CHR 0x0A \<notin> set (replace_byte (CHR 0x22) [CHR 0x5C, CHR 0x22] (replace_byte (CHR 0x0A) [CHR 0x5C, CHR ''n'']
     (replace_byte (CHR 0x5C) [CHR 0x5C, CHR 0x5C] v)))"
  by (induction v) auto

lemma blank_controls_plain:
  assumes "\<forall>c \<in> set s. 0x20 \<le> byte c \<and> byte c < 0x7F"
  shows "blank_controls s = s"
proof -
  have chunks: "rune_chunks s = map (\<lambda>c. [c]) s" using rune_chunks_ascii [of s] assms by fastforce
  let ?g = "\<lambda>chunk. case decode_rune chunk of (r, w) \<Rightarrow>
    (case (if is_control r \<and> r \<noteq> 0x0A then Some '' '' else None) of
       Some t \<Rightarrow> t
     | None \<Rightarrow> if r = 0xFFFD \<and> w = 1 then [CHR 0xEF, CHR 0xBF, CHR 0xBD] else chunk)"
  have "?g [c] = [c]" if "c \<in> set s" for c
  proof -
    have "decode_rune [c] = (byte c, 1)" "\<not> is_control (byte c)" "byte c \<noteq> 0xFFFD"
      using assms that by (auto simp: is_control_def)
    then show ?thesis by (simp del: decode_rune.simps)
  qed
  then have "map (\<lambda>c. ?g [c]) s = map (\<lambda>c. [c]) s" by (intro map_cong) auto
  then have "concat (map ?g (rune_chunks s)) = concat (map (\<lambda>c. [c]) s)" unfolding chunks map_map comp_def by (rule arg_cong)
  then show ?thesis unfolding blank_controls_def map_runes_def by (simp del: decode_rune.simps)
qed

text \<open>What the blanking leaves, rune by rune.\<close>

lemma decode_rune_width1:
  assumes "decode_rune (a # s) = (r, 1)" "0x80 \<le> byte a"
  shows "r = 0xFFFD" "decode_rune [a] = (0xFFFD, 1)"
  using assms by (auto simp: rune_error_def split: if_splits list.splits)

lemma map_runes_step:
  assumes "decode_rune (a # s) = (r, w)"
  shows "map_runes f (a # s) =
    (case f r of
       Some t \<Rightarrow> t
     | None \<Rightarrow> if r = 0xFFFD \<and> w = 1 then [CHR 0xEF, CHR 0xBF, CHR 0xBD] else a # take (w - 1) s) @
    map_runes f (drop (w - 1) s)"
proof -
  have "decode_rune (a # take (w - 1) s) = (r, w)"
  proof (cases "byte a < 0x80")
    case True
    then show ?thesis using assms decode_rune_ascii [OF True] by auto
  next
    case False
    then show ?thesis
      using decode_rune_chunk(1) [OF assms, of "[]"] decode_rune_width1 [of a s r] assms
      by (cases "w = 1") (simp_all del: decode_rune.simps)
  qed
  moreover have "rune_chunks (a # s) = (a # take (w - 1) s) # rune_chunks (drop (w - 1) s)"
    using assms by (simp add: Let_def del: decode_rune.simps)
  ultimately show ?thesis by (simp only: map_runes_def list.map concat.simps prod.case)
qed

lemma runes_blank:
  "runes (blank_controls s) =
    map (\<lambda>r. if (r < 0x20 \<or> 0x7F \<le> r \<and> r < 0xA0) \<and> r \<noteq> 0x0A then 0x20 else r) (runes s)"
    (is "_ = map ?f (runes s)")
proof (induction s rule: rune_chunks.induct)
  case 1
  show ?case by (simp add: blank_controls_def map_runes_def)
next
  case (2 a s)
  obtain r w where rw: "decode_rune (a # s) = (r, w)" by force
  let ?rest = "blank_controls (drop (w - 1) s)"
  have rest: "runes ?rest = map ?f (runes (drop (w - 1) s))" using 2 [of w] rw by (simp del: decode_rune.simps)
  note step = map_runes_step [OF rw, of "\<lambda>r. if is_control r \<and> r \<noteq> 0x0A then Some '' '' else None", folded blank_controls_def]
  have "runes (blank_controls (a # s)) = ?f r # runes ?rest"
  proof (cases "is_control r \<and> r \<noteq> 0x0A")
    case True
    then have "?f r = 0x20" by (auto simp: is_control_def)
    moreover have "blank_controls (a # s) = CHR '' '' # ?rest" using step True by simp
    ultimately show ?thesis by (simp add: decode_rune_ascii del: decode_rune.simps)
  next
    case False
    then have f: "?f r = r" by (auto simp: is_control_def)
    have "runes (blank_controls (a # s)) = r # runes ?rest"
    proof (cases "byte a < 0x80")
      case True
      then have "r = byte a" "w = 1" using rw decode_rune_ascii [OF True] by auto
      moreover have "byte a \<noteq> 0xFFFD" using True by simp
      ultimately have "blank_controls (a # s) = a # ?rest" using step False by auto
      then show ?thesis using \<open>r = byte a\<close> True by (simp add: decode_rune_ascii del: decode_rune.simps)
    next
      case high: False
      show ?thesis
      proof (cases "w = 1")
        case True
        then have "r = 0xFFFD" using decode_rune_width1(1) [of a s r] rw high by simp
        then have "blank_controls (a # s) = CHR 0xEF # CHR 0xBF # CHR 0xBD # ?rest"
          using step False True by (simp add: is_control_def)
        then show ?thesis using \<open>r = 0xFFFD\<close> by (simp add: cont_def)
      next
        case w: False
        then have "blank_controls (a # s) = a # take (w - 1) s @ ?rest" using step False by simp
        then show ?thesis
          using decode_rune_chunk(1,3) [OF rw _ w, of ?rest] high by (simp del: decode_rune.simps)
      qed
    qed
    then show ?thesis using f by simp
  qed
  then show ?case using rest rw by (simp del: decode_rune.simps)
qed

text \<open>
  C40. A label value cannot break out of its quotes: whatever bytes a node reports, the text adds
  no line, a scraper continues right after the closing quote, and what it reads has the runes of
  the value, invalid bytes being U+FFFD, except that control characters other than the newline
  (below U+0020 and from U+007F to U+009F) are spaces. Printable ASCII is read back unchanged.
\<close>

theorem escapeLabel_reads_back:
  "\<exists>v. scan_label (escapeLabel value' @ CHR 0x22 # rest) = Some (v, rest) \<and>
   runes v = map (\<lambda>r. if (r < 0x20 \<or> 0x7F \<le> r \<and> r < 0xA0) \<and> r \<noteq> 0x0A then 0x20 else r) (runes value') \<and>
   (list_all (\<lambda>c. 0x20 \<le> byte c \<and> byte c < 0x7F) value' \<longrightarrow> v = value') \<and>
   CHR 0x0A \<notin> set (escapeLabel value')"
  unfolding escapeLabel_def
  using scan_escaped escaped_one_line blank_controls_plain runes_blank
  by (intro exI [of _ "blank_controls value'"]) (simp add: list_all_iff)

theorem escapeLabel_reads_back_witness:
  "scan_label (escapeLabel ''a'' @ CHR 0x22 # ''x'') = Some (''a'', ''x'')"
  using escapeLabel_reads_back [of "''a''" "''x''"] by (elim exE conjE) simp

end
