(* ===== verification/PolicyTool.thy ===== *)
theory PolicyTool
  imports SigningKey Policy
begin

text \<open>
  \<open>cmd/manifest-key-policy\<close> after its flags: it reads the root key and the grants, signs the
  policy and writes it to a new file, as indented JSON. The lemmas show that indented JSON
  parses like compact JSON, and that the file the tool leaves is a policy clients accept.
\<close>

subsection \<open>Indented JSON\<close>

text \<open>\<open>SetIndent\<close> with an empty prefix and two blanks: an empty array or object stays on its line.\<close>

definition indent :: "nat \<Rightarrow> string" where
  "indent d = CHR 0x0A # replicate (2 * d) (CHR '' '')"

fun indent_json :: "nat \<Rightarrow> json \<Rightarrow> string"
  and indent_elems :: "nat \<Rightarrow> json list \<Rightarrow> string"
  and indent_members :: "nat \<Rightarrow> (string \<times> json) list \<Rightarrow> string"
where
  "indent_json d JNull = ''null''"
| "indent_json d (JBool b) = (if b then ''true'' else ''false'')"
| "indent_json d (JNum l) = l"
| "indent_json d (JStr r) = quote_char # r @ [quote_char]"
| "indent_json d (JArr vs) = CHR ''['' # (if vs = [] then '']'' else indent_elems d vs)"
| "indent_json d (JObj ms) = CHR ''{'' # (if ms = [] then ''}'' else indent_members d ms)"
| "indent_elems d [] = ''''"
| "indent_elems d (v # vs) = indent (Suc d) @ indent_json (Suc d) v @
    (if vs = [] then indent d @ '']'' else CHR '','' # indent_elems d vs)"
| "indent_members d [] = ''''"
| "indent_members d ((k, v) # ms) = indent (Suc d) @ quote_char # k @ quote_char # CHR '':'' # CHR '' '' #
    indent_json (Suc d) v @ (if ms = [] then indent d @ ''}'' else CHR '','' # indent_members d ms)"

lemma indent_space: "c \<in> set (indent d) \<Longrightarrow> is_space c"
  by (auto simp: indent_def is_space_def)

lemma skip_space_spaces: "\<forall>c \<in> set ws. is_space c \<Longrightarrow> skip_space (ws @ s) = skip_space s"
  by (induction ws) (simp_all add: skip_space_def)

lemma skip_indent [simp]: "skip_space (indent d @ s) = skip_space s"
  by (rule skip_space_spaces) (simp add: indent_space)

lemma skip_blank [simp]: "skip_space (CHR '' '' # s) = skip_space s"
  by (simp add: skip_space_def is_space_def)

lemma delimited_indent [simp]: "delimited (indent d @ s)"
  by (simp add: delimited_def indent_def)

lemma parse_value_skip: "skip_space s = skip_space t \<Longrightarrow> parse_value n s = parse_value n t"
  by (cases n) simp_all

lemma parse_members_skip: "skip_space s = skip_space t \<Longrightarrow> parse_members n s = parse_members n t"
  by (cases n) simp_all

lemma indent_json_head:
  assumes "json_ok v"
  obtains c t where "indent_json d v = c # t" and "\<not> is_space c" and "c \<notin> {CHR '']'', CHR ''}''}"
proof (cases v)
  case (JNum l)
  then obtain c t where "l = c # t" "is_digit c" using assms by (cases l) (auto simp: num_ok_def)
  then show ?thesis using that JNum digit_not_punct by simp
next
  case (JBool b)
  then show ?thesis using that by (cases b) (auto simp: is_space_def)
qed (use that in \<open>auto simp: is_space_def\<close>)

lemma indent_elems_head:
  assumes "json_ok v"
  shows "\<not> has_prefix (skip_space (indent_elems d (v # vs) @ s)) '']''"
  by (rule indent_json_head [OF assms, of "Suc d"]) (simp add: has_prefix_def)

lemma parse_indent_aux:
  "json_ok v \<Longrightarrow> delimited rest \<Longrightarrow> length (indent_json d v) \<le> n \<Longrightarrow>
     parse_value n (indent_json d v @ rest) = Some (v, rest)"
  "\<forall>v \<in> set vs. json_ok v \<Longrightarrow> vs \<noteq> [] \<Longrightarrow> length (indent_elems d vs) \<le> n \<Longrightarrow>
     parse_elems n (indent_elems d vs @ rest) = Some (vs, rest)"
  "\<forall>(k, v) \<in> set ms. raw_ok k \<and> json_ok v \<Longrightarrow> ms \<noteq> [] \<Longrightarrow> length (indent_members d ms) \<le> n \<Longrightarrow>
     parse_members n (indent_members d ms @ rest) = Some (ms, rest)"
proof (induction d v and d vs and d ms arbitrary: n rest and n rest and n rest
    rule: indent_json_indent_elems_indent_members.induct)
  case (1 d)
  then show ?case by (cases n) (simp_all add: has_prefix_def is_space_def)
next
  case (2 d b)
  then show ?case by (cases n; cases b) (simp_all add: has_prefix_def is_space_def)
next
  case (3 d l)
  moreover from this have "l \<noteq> []" by (simp add: num_ok_def)
  ultimately show ?case by (cases n) (simp_all add: parse_value_number del: parse_value.simps)
next
  case (4 d r)
  then show ?case by (cases n) (simp_all add: scan_string_raw)
next
  case (5 d vs)
  show ?case
  proof (cases vs)
    case Nil
    then show ?thesis using 5 by (cases n) (simp_all add: has_prefix_def)
  next
    case (Cons v ws)
    obtain m where n: "n = Suc m" using 5(4) by (cases n) simp_all
    have "parse_elems m (indent_elems d vs @ rest) = Some (vs, rest)"
      using 5 n Cons by simp
    moreover have "\<not> has_prefix (skip_space (indent_elems d vs @ rest)) '']''"
      using indent_elems_head [of v d ws rest] 5(2) Cons by (simp del: indent_elems.simps)
    ultimately show ?thesis using Cons by (simp add: n del: indent_elems.simps)
  qed
next
  case (6 d ms)
  show ?case
  proof (cases ms)
    case Nil
    then show ?thesis using 6 by (cases n) (simp_all add: has_prefix_def)
  next
    case (Cons m ws)
    obtain k where n: "n = Suc k" using 6(4) by (cases n) simp_all
    have "parse_members k (indent_members d ms @ rest) = Some (ms, rest)"
      using 6 n Cons by simp
    moreover have "\<not> has_prefix (skip_space (indent_members d ms @ rest)) ''}''"
      using Cons by (cases m) (simp add: has_prefix_def)
    ultimately show ?thesis using n Cons by (simp del: indent_members.simps)
  qed
next
  case (7 d)
  then show ?case by simp
next
  case (8 d v vs)
  let ?r = "(if vs = [] then indent d @ '']'' else CHR '','' # indent_elems d vs) @ rest"
  obtain m where n: "n = Suc m" using 8(5) by (cases n) (auto simp: indent_def)
  have "delimited ?r" by (simp add: delimited_def indent_def)
  then have "parse_value m (indent_json (Suc d) v @ ?r) = Some (v, ?r)"
    using 8(1) [of ?r m] 8(3,5) n by (simp add: indent_def)
  then have v: "parse_value m (indent (Suc d) @ indent_json (Suc d) v @ ?r) = Some (v, ?r)"
    using parse_value_skip [OF skip_indent] by simp
  have vs: "parse_elems m (indent_elems d vs @ rest) = Some (vs, rest)" if "vs \<noteq> []"
    using 8(2) [of m rest] 8(3,5) that n by (simp add: indent_def)
  show ?case using v vs by (cases "vs = []") (simp_all add: n)
next
  case (9 d)
  then show ?case by simp
next
  case (10 d k v ms)
  let ?r = "(if ms = [] then indent d @ ''}'' else CHR '','' # indent_members d ms) @ rest"
  obtain m where n: "n = Suc m" using 10(5) by (cases n) (auto simp: indent_def)
  have k: "scan_string (k @ quote_char # t) = Some (k, t)" for t
    using 10(3) by (simp add: scan_string_raw)
  have "delimited ?r" by (simp add: delimited_def indent_def)
  then have "parse_value m (indent_json (Suc d) v @ ?r) = Some (v, ?r)"
    using 10(1) [of ?r m] 10(3,5) n by (simp add: indent_def)
  then have v: "parse_value m (CHR '' '' # indent_json (Suc d) v @ ?r) = Some (v, ?r)"
    using parse_value_skip [OF skip_blank] by simp
  have ms: "parse_members m (indent_members d ms @ rest) = Some (ms, rest)" if "ms \<noteq> []"
    using 10(2) [of m rest] 10(3,5) that n by (simp add: indent_def)
  show ?case using v ms by (cases "ms = []") (simp_all add: n k has_prefix_def)
qed

lemma parse_indent:
  assumes "json_ok v"
  shows "parse_json (indent_json 0 v @ [CHR 0x0A]) = Some (v, [CHR 0x0A])"
  using parse_indent_aux(1) [OF assms, of "[CHR 0x0A]" 0 "Suc (length (indent_json 0 v))"]
  by (simp add: parse_json_def delimited_def)

context json_codec
begin

lemma decodeStrict_indent: "wf x \<Longrightarrow> decodeStrict dec zero (indent_json 0 (enc x) @ [CHR 0x0A]) = Inr x"
  by (simp add: decodeStrict_def parse_indent [OF enc_ok] dec_enc skip_space_def is_space_def)

end

subsection \<open>The tool\<close>

definition maxGrantFileBytes :: nat where "maxGrantFileBytes = 32768"

record grantInput =
  gi_PublicKeyPath :: string
  gi_Epoch :: uint64
  gi_NotBeforeVersion :: uint64
  gi_NotAfterVersion :: uint64

definition zero_grantInput :: grantInput where
  "zero_grantInput = \<lparr>gi_PublicKeyPath = [], gi_Epoch = 0, gi_NotBeforeVersion = 0, gi_NotAfterVersion = 0\<rparr>"

definition grantInput_fields :: "grantInput field list" where
  "grantInput_fields =
    [(''public_key_path'', field_of dec_string gi_PublicKeyPath (\<lambda>x. gi_PublicKeyPath_update (\<lambda>_. x))),
     (''epoch'', field_of dec_uint gi_Epoch (\<lambda>x. gi_Epoch_update (\<lambda>_. x))),
     (''not_before_version'', field_of dec_uint gi_NotBeforeVersion (\<lambda>x. gi_NotBeforeVersion_update (\<lambda>_. x))),
     (''not_after_version'', field_of dec_uint gi_NotAfterVersion (\<lambda>x. gi_NotAfterVersion_update (\<lambda>_. x)))]"

datatype tool_error =
    UnexpectedArguments
  | ArgumentsRequired
  | ToolRootKey key_error
  | GrantsOpen
  | GrantsRead
  | GrantsSize
  | GrantsDecode decode_error
  | GrantsCount
  | ToolPublicKey key_error
  | ToolGrant policy_error
  | ToolSign policy_error
  | PolicyCreate
  | PolicyEncode
  | PolicySync
  | PolicyClose

definition loadGrantInputs :: "reader option \<Rightarrow> tool_error + grantInput list" where
  "loadGrantInputs grantsFile =
    (case grantsFile of
       None \<Rightarrow> Inl GrantsOpen
     | Some rd \<Rightarrow>
     case read_limited rd (maxGrantFileBytes + 1) of
       None \<Rightarrow> Inl GrantsRead
     | Some data \<Rightarrow>
     if length data = 0 \<or> maxGrantFileBytes < length data then Inl GrantsSize
     else case decodeStrict (dec_list (dec_struct grantInput_fields) zero_grantInput) [] data of
       Inl e \<Rightarrow> Inl (GrantsDecode e)
     | Inr inputs \<Rightarrow> if length inputs = 0 \<or> 64 < length inputs then Inl GrantsCount else Inr inputs)"

fun newGrants :: "crypto \<Rightarrow> (string \<Rightarrow> load_env) \<Rightarrow> key_fs \<Rightarrow> grantInput list \<Rightarrow> tool_error + KeyGrant list" where
  "newGrants c env fs [] = Inr []"
| "newGrants c env fs (input # inputs) =
    (case LoadPublic (env (gi_PublicKeyPath input)) (gi_PublicKeyPath input) fs of
       Inl e \<Rightarrow> Inl (ToolPublicKey e)
     | Inr publicKey \<Rightarrow>
     case NewKeyGrant c publicKey (gi_Epoch input) (gi_NotBeforeVersion input) (gi_NotAfterVersion input) of
       Inl e \<Rightarrow> Inl (ToolGrant e)
     | Inr grant \<Rightarrow> (case newGrants c env fs inputs of Inl e \<Rightarrow> Inl e | Inr grants \<Rightarrow> Inr (grant # grants)))"

definition policy_text :: "KeyPolicy \<Rightarrow> string" where
  "policy_text policy = indent_json 0 (enc_KeyPolicy policy) @ [CHR 0x0A]"

definition writePolicy :: "write_env \<Rightarrow> string \<Rightarrow> KeyPolicy \<Rightarrow> key_fs \<Rightarrow> tool_error option \<times> key_fs" where
  "writePolicy env path policy fs =
    (if fs (Clean path) \<noteq> None \<or> \<not> we_open env then (Some PolicyCreate, fs)
     else
       let put = (\<lambda>d. fs(Clean path \<mapsto> \<lparr>kf_regular = True, kf_perm = 420, kf_data = d\<rparr>));
           whole = put (policy_text policy) in
       case we_partial env of
         Some n \<Rightarrow> (Some PolicyEncode, remove (we_remove env) path (put (take n (policy_text policy))))
       | None \<Rightarrow>
           if \<not> we_sync env then (Some PolicySync, remove (we_remove env) path whole)
           else if \<not> we_close env then (Some PolicyClose, remove (we_remove env) path whole)
           else (None, whole))"

record tool_env =
  te_narg :: nat
  te_root :: load_env
  te_grants :: "string \<Rightarrow> reader option"
  te_public :: "string \<Rightarrow> load_env"
  te_write :: write_env

definition keyPolicyTool ::
  "crypto \<Rightarrow> tool_env \<Rightarrow> string \<Rightarrow> string \<Rightarrow> string \<Rightarrow> uint64 \<Rightarrow> key_fs \<Rightarrow> (tool_error + KeyPolicy) \<times> key_fs" where
  "keyPolicyTool c env rootPrivatePath grantsPath outputPath policyVersion fs =
    (if te_narg env \<noteq> 0 then (Inl UnexpectedArguments, fs)
     else if rootPrivatePath = '''' \<or> grantsPath = '''' \<or> outputPath = '''' \<or> policyVersion = 0
     then (Inl ArgumentsRequired, fs)
     else case LoadPrivate c (te_root env) rootPrivatePath fs of
       Inl e \<Rightarrow> (Inl (ToolRootKey e), fs)
     | Inr rootPrivateKey \<Rightarrow>
     case loadGrantInputs (te_grants env grantsPath) of
       Inl e \<Rightarrow> (Inl e, fs)
     | Inr inputs \<Rightarrow>
     case newGrants c (te_public env) fs inputs of
       Inl e \<Rightarrow> (Inl e, fs)
     | Inr grants \<Rightarrow>
     case SignKeyPolicy c rootPrivateKey policyVersion grants of
       Inl e \<Rightarrow> (Inl (ToolSign e), fs)
     | Inr policy \<Rightarrow>
     case writePolicy (te_write env) outputPath policy fs of
       (Some e, fs') \<Rightarrow> (Inl e, fs')
     | (None, fs') \<Rightarrow> (Inr policy, fs'))"

text \<open>\<open>cmd/manifest-keygen\<close> after its flags: the identifier it prints.\<close>

definition keygenTool ::
  "crypto \<Rightarrow> nat \<Rightarrow> generate_env \<Rightarrow> string \<Rightarrow> string \<Rightarrow> key_fs \<Rightarrow> string option \<times> key_fs" where
  "keygenTool c narg env privatePath publicPath fs =
    (if narg \<noteq> 0 then (None, fs)
     else case GenerateFiles c env privatePath publicPath fs of
       (Inl e, fs') \<Rightarrow> (None, fs')
     | (Inr publicKey, fs') \<Rightarrow> (Some (KeyID c publicKey), fs'))"

subsection \<open>The file it leaves\<close>

lemma length_indent_elems:
  assumes "\<forall>x \<in> set xs. length (indent_json (Suc d) (f x)) \<le> n"
  shows "length (indent_json d (enc_list f xs)) \<le> length xs * (n + 2 * d + 4) + 2 * d + 6"
proof -
  have "xs \<noteq> [] \<Longrightarrow> length (indent_elems d (map f xs)) \<le> length xs * (n + 2 * d + 4) + 2 * d + 2"
    using assms by (induction xs) (auto simp: indent_def)
  then show ?thesis by (auto simp: enc_list_def)
qed

lemma length_indent_KeyGrant: "length (indent_json (Suc (Suc 0)) (enc_KeyGrant g)) = length (print_json (enc_KeyGrant g)) + 45"
  by (simp add: enc_KeyGrant_def enc_string_def enc_uint_def indent_def)

lemma length_policy_text:
  assumes "crypto_ok c" and "SignKeyPolicy c sk v gs = Inr p"
    and "\<forall>g \<in> set gs. \<exists>pk e nb na. NewKeyGrant c pk e nb na = Inr g"
  shows "length (policy_text p) \<le> maxKeyPolicyBytes"
proof -
  from SignKeyPolicy_ok [OF assms(2)] obtain q
    where q: "q = \<lparr>kp_Version = v, kp_RootKeyID = KeyID c (public_of sk),
        kp_Keys = canonicalKeyGrants gs, kp_Signature = []\<rparr>"
      and shape: "validateKeyPolicyShape c q = None"
      and p: "p = q\<lparr>kp_Signature := raw_url_encode (ed25519_sign c sk (keyPolicySigningBytes q))\<rparr>"
    by blast
  have n: "length gs \<le> 64"
    using shape by (simp add: validateKeyPolicyShape_def q maxPolicyKeys_def split: if_splits)
  have "\<forall>g \<in> set (canonicalKeyGrants gs). length (indent_json (Suc (Suc 0)) (enc_KeyGrant g)) \<le> 275"
    using assms(3) length_KeyGrant [OF assms(1)] unfolding length_indent_KeyGrant by fastforce
  from length_indent_elems [OF this] n
  have "length (indent_json (Suc 0) (enc_list enc_KeyGrant (canonicalKeyGrants gs))) \<le> 64 * 281 + 8" by simp
  then show ?thesis
    using length_dec_text_uint64 [of v] crypto_okD(1,4) [OF assms(1)]
    by (simp add: policy_text_def p q enc_KeyPolicy_def enc_string_def enc_uint_def KeyID_def encoded_len_def
        maxKeyPolicyBytes_def indent_def)
qed

lemma policy_text_decodes:
  assumes "crypto_ok c" and "SignKeyPolicy c sk v gs = Inr p"
    and "\<forall>g \<in> set gs. \<exists>pk e nb na. NewKeyGrant c pk e nb na = Inr g"
  shows "DecodeKeyPolicy (bytes_reader (policy_text p)) = Inr p"
proof -
  obtain d where d: "ValidateKeyPolicy c p (public_of sk) = Inr d" using Sign_Validate [OF assms(1,2)] by blast
  have "decodeStrict dec_KeyPolicy zero_KeyPolicy (policy_text p) = Inr p"
    unfolding policy_text_def by (rule policy_codec.decodeStrict_indent) (rule ValidateKeyPolicy_wf [OF d])
  moreover have "policy_text p \<noteq> []" by (simp add: policy_text_def)
  ultimately show ?thesis using length_policy_text [OF assms] by (auto simp: DecodeKeyPolicy_def)
qed

lemma newGrants_new:
  "newGrants c env fs inputs = Inr grants \<Longrightarrow> \<forall>g \<in> set grants. \<exists>pk e nb na. NewKeyGrant c pk e nb na = Inr g"
  by (induction inputs arbitrary: grants) (fastforce split: sum.splits)+

lemma writePolicy_cases:
  assumes "writePolicy env path policy fs = (r, fs')"
  shows "case r of
      None \<Rightarrow> fs (Clean path) = None \<and> fs' = fs(Clean path \<mapsto> \<lparr>kf_regular = True, kf_perm = 420, kf_data = policy_text policy\<rparr>)
    | Some e \<Rightarrow> we_remove env \<longrightarrow> fs' = fs"
  using assms by (auto simp: writePolicy_def Let_def remove_def fun_upd_idem_iff split: if_splits option.splits)

subsection \<open>A sample policy file\<close>

definition sample_grant_json :: "string \<Rightarrow> uint64 \<Rightarrow> uint64 \<Rightarrow> uint64 \<Rightarrow> json" where
  "sample_grant_json path e nb na = JObj
    [(''public_key_path'', enc_string path), (''epoch'', enc_uint e), (''not_before_version'', enc_uint nb),
     (''not_after_version'', enc_uint na)]"

definition sample_grants_json :: json where
  "sample_grants_json = JArr [sample_grant_json ''b'' 2 11 0, sample_grant_json ''a'' 1 1 10]"

definition sample_tool_keys :: key_fs where
  "sample_tool_keys =
    [''r'' \<mapsto> \<lparr>kf_regular = True, kf_perm = 384, kf_data = raw_url_encode (sample_key CHR ''r'') @ [CHR 0x0A]\<rparr>,
     ''a'' \<mapsto> \<lparr>kf_regular = True, kf_perm = 420, kf_data = raw_url_encode (replicate 32 (CHR ''a'')) @ [CHR 0x0A]\<rparr>,
     ''b'' \<mapsto> \<lparr>kf_regular = True, kf_perm = 420, kf_data = raw_url_encode (replicate 32 (CHR ''b'')) @ [CHR 0x0A]\<rparr>]"

definition sample_tool_env :: tool_env where
  "sample_tool_env =
    \<lparr>te_narg = 0, te_root = load_ok, te_grants = (\<lambda>_. Some (bytes_reader (print_json sample_grants_json))),
     te_public = (\<lambda>_. load_ok),
     te_write = \<lparr>we_open = True, we_partial = None, we_sync = True, we_close = True, we_remove = True\<rparr>\<rparr>"

lemma sample_inputs_load: "loadGrantInputs (Some (bytes_reader (print_json sample_grants_json))) =
    Inr [\<lparr>gi_PublicKeyPath = ''b'', gi_Epoch = 2, gi_NotBeforeVersion = 11, gi_NotAfterVersion = 0\<rparr>,
      \<lparr>gi_PublicKeyPath = ''a'', gi_Epoch = 1, gi_NotBeforeVersion = 1, gi_NotAfterVersion = 10\<rparr>]"
proof -
  let ?inputs = "[\<lparr>gi_PublicKeyPath = ''b'', gi_Epoch = 2, gi_NotBeforeVersion = 11, gi_NotAfterVersion = 0\<rparr>,
      \<lparr>gi_PublicKeyPath = ''a'', gi_Epoch = 1, gi_NotBeforeVersion = 1, gi_NotAfterVersion = 10\<rparr>]"
  have "json_ok sample_grants_json"
    by (simp add: sample_grants_json_def sample_grant_json_def codec_simps)
  note parsed = parse_print [OF this]
  have "dec_list (dec_struct grantInput_fields) zero_grantInput sample_grants_json [] = Some ?inputs"
    by (simp add: sample_grants_json_def sample_grant_json_def grantInput_fields_def zero_grantInput_def codec_simps)
  then have "decodeStrict (dec_list (dec_struct grantInput_fields) zero_grantInput) [] (print_json sample_grants_json) =
    Inr ?inputs"
    by (simp add: decodeStrict_def parsed skip_space_def)
  moreover have "0 < length (print_json sample_grants_json)" "length (print_json sample_grants_json) \<le> maxGrantFileBytes"
    by (simp_all add: sample_grants_json_def sample_grant_json_def enc_string_def enc_uint_def dec_text.simps
        escape_ascii_def maxGrantFileBytes_def)
  ultimately show ?thesis by (simp add: loadGrantInputs_def)
qed

lemma sample_tool_run:
  "\<exists>fs. keyPolicyTool sample_crypto sample_tool_env ''r'' ''g'' ''o'' 1 sample_tool_keys = (Inr sample_policy, fs)"
proof -
  have clean: "Clean ''r'' = ''r''" "Clean ''a'' = ''a''" "Clean ''b'' = ''b''" "Clean ''o'' = ''o''"
    by (simp_all add: Clean_def has_prefix_def)
  have key: "new_key_from_seed sample_crypto (replicate 32 (CHR ''r'')) = sample_key CHR ''r''"
    by (simp add: sample_crypto_def sample_key_def replicate_add [symmetric])
  have root: "LoadPrivate sample_crypto load_ok ''r'' sample_tool_keys = Inr (sample_key CHR ''r'')"
    using LoadPrivate_file [OF sample_crypto_ok, of "replicate 32 (CHR ''r'')" sample_tool_keys "''r''"]
    by (simp add: key clean sample_tool_keys_def)
  have public: "LoadPublic load_ok ''a'' sample_tool_keys = Inr (replicate 32 (CHR ''a''))"
    "LoadPublic load_ok ''b'' sample_tool_keys = Inr (replicate 32 (CHR ''b''))"
    by (rule LoadPublic_file; simp add: clean sample_tool_keys_def)+
  have "NewKeyGrant sample_crypto (replicate 32 ch) e nb na = Inr (sample_grant ch e nb na)" for ch e nb na
    by (simp add: NewKeyGrant_def sample_grant_def)
  then show ?thesis
    using root public sample_inputs_load sample_policy_signed
    by (simp add: keyPolicyTool_def sample_tool_env_def sample_grants_def writePolicy_def clean Let_def)
      (simp add: sample_tool_keys_def)
qed

text \<open>
  C5. The policy tool leaves a policy that works, or nothing. When it succeeds, it has created
  one new file; the policy that a control plane decodes from it is the one that was signed, and
  it is accepted under the public half of the root key. When it fails, the files are as they
  were, unless the removal of a partly written file failed too.
\<close>

theorem keyPolicyTool_accepted:
  assumes "crypto_ok c" and "keyPolicyTool c env rootPath grantsPath out version fs = (r, fs')"
  shows "case r of
      Inr policy \<Rightarrow> \<exists>root contents. LoadPrivate c (te_root env) rootPath fs = Inr root \<and> fs (Clean out) = None \<and>
        fs' = fs(Clean out \<mapsto> \<lparr>kf_regular = True, kf_perm = 420, kf_data = contents\<rparr>) \<and>
        DecodeKeyPolicy (bytes_reader contents) = Inr policy \<and> kp_Version policy = version \<and>
        (\<exists>digest. ValidateKeyPolicy c policy (public_of root) = Inr digest)
    | Inl e \<Rightarrow> we_remove (te_write env) \<longrightarrow> fs' = fs"
proof (cases "\<exists>e. r = Inl e \<and> fs' = fs")
  case True
  then show ?thesis by auto
next
  case False
  then obtain root inputs grants policy r1 where root: "LoadPrivate c (te_root env) rootPath fs = Inr root"
    and grants: "newGrants c (te_public env) fs inputs = Inr grants"
    and signed: "SignKeyPolicy c root version grants = Inr policy"
    and w: "writePolicy (te_write env) out policy fs = (r1, fs')"
    and r: "r = (case r1 of None \<Rightarrow> Inr policy | Some e \<Rightarrow> Inl e)"
    using assms(2)
    by (auto simp: keyPolicyTool_def split: if_split_asm sum.split_asm prod.split_asm option.split_asm)
  note decoded = policy_text_decodes [OF assms(1) signed newGrants_new [OF grants]]
  have "kp_Version policy = version" using signed by (auto simp: SignKeyPolicy_def Let_def split: if_splits option.splits)
  then show ?thesis
    using root writePolicy_cases [OF w] r decoded Sign_Validate [OF assms(1) signed] by (cases r1) auto
qed

theorem keyPolicyTool_accepted_witness:
  "\<exists>fs contents. keyPolicyTool sample_crypto sample_tool_env ''r'' ''g'' ''o'' 1 sample_tool_keys = (Inr sample_policy, fs) \<and>
    fs (Clean ''o'') = Some \<lparr>kf_regular = True, kf_perm = 420, kf_data = contents\<rparr> \<and>
    DecodeKeyPolicy (bytes_reader contents) = Inr sample_policy"
proof -
  obtain fs where f: "keyPolicyTool sample_crypto sample_tool_env ''r'' ''g'' ''o'' 1 sample_tool_keys = (Inr sample_policy, fs)"
    using sample_tool_run by blast
  from keyPolicyTool_accepted [OF sample_crypto_ok f] f show ?thesis by auto
qed

end
