(* ===== verification/TimewebClient.thy ===== *)
theory TimewebClient
  imports VpnNode GoStrings Policy
begin

text \<open>
  \<open>internal/providers/timeweb/client.go\<close> and \<open>cmd/pilot-check\<close>: one request for a server and what
  is made of the answer. The answer is an input. The lemmas show that only the decoded fields of
  an answer matter, and that a server that passes the check has a public address.
\<close>

subsection \<open>Decoding what is known\<close>

text \<open>
  \<open>json.Unmarshal\<close> checks the syntax of the whole input first and then ignores members that the
  target does not name.
\<close>

fun dec_known :: "'r field list \<Rightarrow> (string \<times> json) list \<Rightarrow> 'r \<Rightarrow> 'r option" where
  "dec_known fs [] r = Some r"
| "dec_known fs ((k, v) # ms) r =
    (case find_field fs (unquote k) of
       None \<Rightarrow> dec_known fs ms r
     | Some d \<Rightarrow> (case d v r of None \<Rightarrow> None | Some r' \<Rightarrow> dec_known fs ms r'))"

fun dec_open :: "'r field list \<Rightarrow> json \<Rightarrow> 'r \<Rightarrow> 'r option" where
  "dec_open fs JNull r = Some r"
| "dec_open fs (JObj ms) r = dec_known fs ms r"
| "dec_open fs _ r = None"

definition unmarshal :: "(json \<Rightarrow> 'a \<Rightarrow> 'a option) \<Rightarrow> 'a \<Rightarrow> bytes \<Rightarrow> 'a option" where
  "unmarshal dec target data =
    (case parse_json data of
       None \<Rightarrow> None
     | Some (v, rest) \<Rightarrow> if skip_space rest = [] then dec v target else None)"

subsection \<open>Addresses\<close>

text \<open>\<open>netip.Addr.IsGlobalUnicast\<close>, with a mapped address classified as the IPv4 address it holds.\<close>

definition IsMulticast :: "nat list \<times> string \<Rightarrow> bool" where
  "IsMulticast a \<longleftrightarrow>
    (let ip = unmap (fst a) in
     if length ip = 4 then 0xE0 \<le> ip ! 0 \<and> ip ! 0 < 0xF0 else length ip = 16 \<and> ip ! 0 = 0xFF)"

definition IsGlobalUnicast :: "nat list \<times> string \<Rightarrow> bool" where
  "IsGlobalUnicast a \<longleftrightarrow>
    (let ip = unmap (fst a) in
     \<not> (length ip = 4 \<and> (ip = replicate 4 0 \<or> ip = replicate 4 255)) \<and> a \<noteq> (replicate 16 0, '''') \<and>
     \<not> IsLoopback a \<and> \<not> IsMulticast a \<and> \<not> IsLinkLocalUnicast a)"

text \<open>
  \<open>netip.Addr.String\<close>: dotted decimals, or groups in hexadecimal with the first longest run of
  at least two zero groups shortened, and the zone.
\<close>

fun join_with :: "string \<Rightarrow> string list \<Rightarrow> string" where
  "join_with sep [] = ''''"
| "join_with sep [x] = x"
| "join_with sep (x # xs) = x @ sep @ join_with sep xs"

fun hex_nat :: "nat \<Rightarrow> string" where
  "hex_nat n = (if n < 16 then [hex_char n] else hex_nat (n div 16) @ [hex_char (n mod 16)])"

declare hex_nat.simps [simp del]

definition dotted :: "nat list \<Rightarrow> string" where
  "dotted ip = join_with ''.'' (map dec_text ip)"

definition groups_of :: "nat list \<Rightarrow> nat list" where
  "groups_of ip = map (\<lambda>i. ip ! (2 * i) * 256 + ip ! (2 * i + 1)) [0..<8]"

definition zero_run :: "nat list \<Rightarrow> nat \<Rightarrow> nat" where
  "zero_run gs i = length (takeWhile (\<lambda>g. g = 0) (drop i gs))"

definition longest_run :: "nat list \<Rightarrow> nat \<times> nat" where
  "longest_run gs =
    foldl (\<lambda>(start, n) i. if 2 \<le> zero_run gs i \<and> n < zero_run gs i then (i, zero_run gs i) else (start, n)) (0, 0) [0..<8]"

definition zone_text :: "string \<Rightarrow> string" where
  "zone_text zone = (if zone = '''' then '''' else ''%'' @ zone)"

definition AddrString :: "nat list \<times> string \<Rightarrow> string" where
  "AddrString a =
    (let ip = fst a in
     if length ip = 4 then dotted ip
     else if length (unmap ip) = 4 then ''::ffff:'' @ dotted (unmap ip) @ zone_text (snd a)
     else
       let gs = groups_of ip; (start, n) = longest_run gs in
       (if n = 0 then join_with '':'' (map hex_nat gs)
        else join_with '':'' (map hex_nat (take start gs)) @ ''::'' @ join_with '':'' (map hex_nat (drop (start + n) gs))) @
       zone_text (snd a))"

subsection \<open>The client\<close>

definition maxServerBytes :: nat where "maxServerBytes = 1048576"

record Server =
  sv_ID :: int
  sv_Name :: string
  sv_Status :: string
  sv_Location :: string
  sv_AvailabilityZone :: string
  sv_PublicIPs :: "string list"

record Client =
  cl_token :: string
  cl_baseURL :: string

definition NewClient :: "string \<Rightarrow> Client option" where
  "NewClient token =
    (if token = '''' \<or> 8192 < length token \<or> list_ex (\<lambda>r. r \<le> 32 \<or> r = 127) (runes token) then None
     else Some \<lparr>cl_token = token, cl_baseURL = ''https://api.timeweb.cloud''\<rparr>)"

type_synonym network_json = "string \<times> string list"

record server_json =
  sj_ID :: int
  sj_Name :: string
  sj_Status :: string
  sj_Location :: string
  sj_Zone :: string
  sj_Networks :: "network_json list"

definition ip_fields :: "string field list" where
  "ip_fields = [(''ip'', dec_string)]"

definition network_fields :: "network_json field list" where
  "network_fields =
    [(''type'', field_of dec_string fst (\<lambda>x n. (x, snd n))),
     (''ips'', field_of (dec_list (dec_open ip_fields) '''') snd (\<lambda>x n. (fst n, x)))]"

definition server_fields :: "server_json field list" where
  "server_fields =
    [(''id'', field_of dec_int sj_ID (\<lambda>x. sj_ID_update (\<lambda>_. x))),
     (''name'', field_of dec_string sj_Name (\<lambda>x. sj_Name_update (\<lambda>_. x))),
     (''status'', field_of dec_string sj_Status (\<lambda>x. sj_Status_update (\<lambda>_. x))),
     (''location'', field_of dec_string sj_Location (\<lambda>x. sj_Location_update (\<lambda>_. x))),
     (''availability_zone'', field_of dec_string sj_Zone (\<lambda>x. sj_Zone_update (\<lambda>_. x))),
     (''networks'', field_of (dec_list (dec_open network_fields) ('''', [])) sj_Networks (\<lambda>x. sj_Networks_update (\<lambda>_. x)))]"

definition envelope_fields :: "server_json field list" where
  "envelope_fields = [(''server'', dec_open server_fields)]"

definition zero_server :: server_json where
  "zero_server = \<lparr>sj_ID = 0, sj_Name = '''', sj_Status = '''', sj_Location = '''', sj_Zone = '''', sj_Networks = []\<rparr>"

definition routable :: "nat list \<times> string \<Rightarrow> bool" where
  "routable a \<longleftrightarrow> IsGlobalUnicast a \<and> \<not> IsPrivate a \<and> \<not> IsLoopback a \<and> \<not> IsLinkLocalUnicast a"

definition public_ip :: "string \<Rightarrow> string option" where
  "public_ip address =
    (case ParseAddr address of
       None \<Rightarrow> None
     | Some a \<Rightarrow> if \<not> routable a then None else Some (AddrString a))"

definition public_ips :: "network_json list \<Rightarrow> string list" where
  "public_ips networks =
    concat (map (\<lambda>(type, ips). if type \<noteq> ''public'' then [] else List.map_filter public_ip ips) networks)"

datatype client_error = ServerIDNotPositive | APIRequestFailed | APIStatus int | ResponseUnreadable | ResponseMismatch

record api_answer =
  an_Status :: int
  an_Body :: reader

definition serverURL :: "Client \<Rightarrow> int \<Rightarrow> string" where
  "serverURL client i = cl_baseURL client @ ''/api/v1/servers/'' @ dec_text (nat i)"

text \<open>The network answers a URL and a bearer token; redirects are not followed.\<close>

definition GetServer :: "Client \<Rightarrow> (string \<Rightarrow> string \<Rightarrow> api_answer option) \<Rightarrow> int \<Rightarrow> client_error + Server" where
  "GetServer client network i =
    (if i \<le> 0 then Inl ServerIDNotPositive
     else case network (serverURL client i) (''Bearer '' @ cl_token client) of
       None \<Rightarrow> Inl APIRequestFailed
     | Some response \<Rightarrow>
     if an_Status response \<noteq> 200 then Inl (APIStatus (an_Status response))
     else case read_limited (an_Body response) (maxServerBytes + 1) of
       None \<Rightarrow> Inl ResponseUnreadable
     | Some body \<Rightarrow>
     if maxServerBytes < length body then Inl ResponseUnreadable
     else case unmarshal (dec_open envelope_fields) zero_server body of
       None \<Rightarrow> Inl ResponseMismatch
     | Some raw \<Rightarrow>
         if sj_ID raw \<noteq> i then Inl ResponseMismatch
         else Inr \<lparr>sv_ID = sj_ID raw, sv_Name = sj_Name raw, sv_Status = sj_Status raw, sv_Location = sj_Location raw,
           sv_AvailabilityZone = sj_Zone raw, sv_PublicIPs = public_ips (sj_Networks raw)\<rparr>)"

datatype check_error =
    CheckUsage
  | CheckToken
  | CheckClient client_error
  | CheckOutput
  | CheckNotRunning
  | CheckZone
  | CheckNoPublicIP

text \<open>\<open>pilot-check\<close> after its flags; \<open>output\<close> says whether the report could be printed.\<close>

definition pilotCheck ::
  "nat \<Rightarrow> int \<Rightarrow> string \<Rightarrow> string \<Rightarrow> (string \<Rightarrow> string \<Rightarrow> api_answer option) \<Rightarrow> bool \<Rightarrow> check_error option" where
  "pilotCheck narg i zone token network output =
    (if narg \<noteq> 0 \<or> i \<le> 0 \<or> zone = '''' then Some CheckUsage
     else case NewClient token of
       None \<Rightarrow> Some CheckToken
     | Some client \<Rightarrow>
     case GetServer client network i of
       Inl e \<Rightarrow> Some (CheckClient e)
     | Inr server \<Rightarrow>
         if \<not> output then Some CheckOutput
         else if sv_Status server \<noteq> ''on'' then Some CheckNotRunning
         else if sv_AvailabilityZone server \<noteq> zone then Some CheckZone
         else if sv_PublicIPs server = [] then Some CheckNoPublicIP
         else None)"

subsection \<open>What the check shows\<close>

text \<open>A member that the target does not name, a password for example, changes nothing.\<close>

lemma dec_known_ignores:
  "find_field fs (unquote k) = None \<Longrightarrow> dec_known fs (ms @ (k, v) # ns) r = dec_known fs (ms @ ns) r"
  by (induction fs ms r rule: dec_known.induct) (auto split: option.splits)

lemma fold_name_plain: "plain_name k \<Longrightarrow> fold_name k = map of_char k"
proof -
  assume k: "plain_name k"
  then have "\<forall>c \<in> set k. byte c < 0x80 \<and> fold_rune (byte c) = byte c"
    by (auto simp: plain_name_def list_all_iff is_digit_def fold_rune_def)
  then show ?thesis using runes_ascii [of k] by (simp add: fold_name_def)
qed

lemma unquote_plain: "plain_name k \<Longrightarrow> unquote k = k"
proof (induction k)
  case (Cons c k)
  then have "c \<noteq> backslash" "byte c < 0x80" by (auto simp: plain_name_def is_digit_def)
  with Cons show ?case by (simp add: plain_name_def)
qed simp

lemma find_field_unknown:
  assumes "plain_name k" "\<forall>f \<in> set fs. plain_name (fst f)" "k \<notin> fst ` set fs"
  shows "find_field fs k = None"
proof -
  have "fold_name (fst f) \<noteq> fold_name k" if "f \<in> set fs" for f
    using assms that by (auto simp: fold_name_plain inj_map_eq_map [OF inj_of_char])
  moreover have "map_of fs k = None" using assms(3) by (simp add: map_of_eq_None_iff)
  ultimately show ?thesis by (fastforce simp: find_field_def find_None_iff)
qed

definition secret_names :: "string list" where
  "secret_names = [''root_pass'', ''vnc_pass'', ''cloud_init'']"

lemma secrets_unread:
  assumes "k \<in> set secret_names"
  shows "dec_open server_fields (JObj (ms @ (k, v) # ns)) r = dec_open server_fields (JObj (ms @ ns)) r"
proof -
  have k: "plain_name k" using assms by (auto simp: secret_names_def plain_name_def)
  then have "unquote k = k" by (rule unquote_plain)
  moreover have "find_field server_fields k = None"
    using k assms by (intro find_field_unknown) (auto simp: server_fields_def plain_name_def secret_names_def)
  ultimately show ?thesis by (simp add: dec_known_ignores)
qed

lemma public_ips_routable:
  assumes "ip \<in> set (public_ips networks)"
  shows "\<exists>a s. ParseAddr s = Some a \<and> routable a \<and> ip = AddrString a"
proof -
  obtain s where "public_ip s = Some ip"
    using assms by (auto simp: public_ips_def List.map_filter_def split: if_splits)
  then obtain a where "ParseAddr s = Some a" "routable a" "ip = AddrString a"
    unfolding public_ip_def by (cases "ParseAddr s") (auto split: if_splits)
  then show ?thesis by blast
qed

lemma GetServer_ok:
  assumes "GetServer client network i = Inr server"
  shows "sv_ID server = i" and "0 < i" and "\<forall>ip \<in> set (sv_PublicIPs server). \<exists>a s. ParseAddr s = Some a \<and> routable a \<and> ip = AddrString a"
  using assms public_ips_routable by (auto simp: GetServer_def split: if_splits option.splits)

lemma pilotCheck_passes:
  assumes "pilotCheck narg i zone token network output = None"
  shows "\<exists>client server. NewClient token = Some client \<and> GetServer client network i = Inr server \<and> sv_ID server = i \<and>
    sv_Status server = ''on'' \<and> sv_AvailabilityZone server = zone \<and>
    (\<exists>a. AddrString a \<in> set (sv_PublicIPs server) \<and> routable a)"
proof -
  obtain client server where s: "NewClient token = Some client" "GetServer client network i = Inr server"
    "sv_Status server = ''on''" "sv_AvailabilityZone server = zone" "sv_PublicIPs server \<noteq> []"
    using assms by (auto simp: pilotCheck_def split: if_splits option.splits sum.splits)
  then have "hd (sv_PublicIPs server) \<in> set (sv_PublicIPs server)" by simp
  with GetServer_ok [OF s(2)] s show ?thesis by metis
qed

end
