(* ===== verification/Routes.thy ===== *)
theory Routes
  imports Api SigningKey
begin

text \<open>
  The handler that \<open>internal/api\<close> builds: its routes on \<open>http.ServeMux\<close>. A request is answered by
  its route only if its path is clean; other paths are redirected. The lemmas show when a
  request reaches the administration API, and that none does unless it was configured.
\<close>

definition has_last_slash :: "string \<Rightarrow> bool" where
  "has_last_slash p \<longleftrightarrow> has_suffix p ''/''"

text \<open>\<open>cleanPath\<close> of \<open>net/http\<close>: \<open>path.Clean\<close> on a rooted path, keeping a last slash.\<close>

definition cleanPath :: "string \<Rightarrow> string" where
  "cleanPath path =
    (if path = '''' then ''/''
     else
       let p = (if has_prefix path ''/'' then path else ''/'' @ path); np = Clean p in
       if has_last_slash p \<and> np \<noteq> ''/'' then np @ ''/'' else np)"

datatype target =
    HealthTarget
  | ReadyTarget
  | ManifestTarget
  | AdminTarget
  | RedirectTarget string
  | NotFoundTarget

definition match_route :: "bool \<Rightarrow> string \<Rightarrow> target option" where
  "match_route pilotAdmin path =
    (if path = ''/healthz'' then Some HealthTarget
     else if path = ''/readyz'' then Some ReadyTarget
     else if path = ''/v1/manifest'' then Some ManifestTarget
     else if pilotAdmin \<and> has_prefix path ''/admin/pilot/'' then Some AdminTarget
     else None)"

definition route_request :: "bool \<Rightarrow> string \<Rightarrow> target" where
  "route_request pilotAdmin path =
    (let p = cleanPath path in
     case match_route pilotAdmin p of
       None \<Rightarrow>
         if pilotAdmin \<and> p = ''/admin/pilot'' then RedirectTarget (p @ ''/'')
         else if p \<noteq> path then RedirectTarget p
         else NotFoundTarget
     | Some t \<Rightarrow> if p \<noteq> path then RedirectTarget p else t)"

record 'x api_handler =
  ah_limit :: nat
  ah_checks :: "'x list"
  ah_pilotAdmin :: bool

text \<open>Missing checks are dropped and the limit is at least one.\<close>

definition newHandler :: "int \<Rightarrow> bool \<Rightarrow> 'x option list \<Rightarrow> 'x api_handler" where
  "newHandler maxInFlight pilotAdmin checks =
    \<lparr>ah_limit = capacity maxInFlight, ah_checks = List.map_filter (\<lambda>check. check) checks, ah_pilotAdmin = pilotAdmin\<rparr>"

lemma newHandler_limit: "0 < ah_limit (newHandler maxInFlight pilotAdmin checks)"
  by (simp add: newHandler_def capacity_def)

lemma match_route_target:
  "match_route pilotAdmin p = Some t \<Longrightarrow> t = AdminTarget \<longleftrightarrow> pilotAdmin \<and> has_prefix p ''/admin/pilot/''"
  by (auto simp: match_route_def has_prefix_def split: if_splits)

lemma route_admin:
  "route_request pilotAdmin path = AdminTarget \<longleftrightarrow>
    pilotAdmin \<and> has_prefix path ''/admin/pilot/'' \<and> cleanPath path = path"
proof (cases "match_route pilotAdmin (cleanPath path)")
  case None
  then show ?thesis by (auto simp: route_request_def Let_def match_route_def split: if_splits)
next
  case (Some t)
  then show ?thesis
    using match_route_target [OF Some] by (auto simp: route_request_def Let_def)
qed

end
