(* ===== verification/Spec2Isabelle.thy ===== *)
theory Spec2Isabelle
  imports Delivery Selector ControlPlane Artifact PilotMetrics PolicyTool TimewebClient
    Routes
begin

text \<open>
  Verification of a control plane for a small VPN service, written in Go. This theory imports
  the whole development; file names below are those of the repository.

  \<^bold>\<open>The program.\<close> An offline root key signs a key policy that grants each online signing key
  an epoch and a range of manifest versions (\<open>internal/manifest/keypolicy.go\<close>). The control
  plane turns an operator's catalog of nodes (\<open>internal/catalog\<close>) into signed manifests
  (\<open>internal/manifest/manifest.go\<close>, \<open>internal/service/issuer.go\<close>), remembering the last
  version it published in a file it replaces atomically and guards with a process lock
  (\<open>internal/issuance\<close>). Clients fetch a manifest from untrusted mirrors
  (\<open>internal/discovery\<close>), verify it against the pinned root and against the state of the last
  manifest they accepted, and rank its endpoints into connection attempts
  (\<open>internal/selector\<close>). Beside it, a pilot administration service registers and revokes access
  and records test results in Postgres (\<open>internal/pilotaccess\<close>, \<open>internal/pilottelemetry\<close>)
  and observes nodes through validated reports (\<open>internal/vpnnode\<close>,
  \<open>internal/providers/timeweb\<close>).

  \<^bold>\<open>Foundations.\<close> \<open>Prelude\<close> fixes the vocabulary: strings and byte slices are HOL strings,
  \<open>uintN\<close> is an N-bit word, a fallible function returns \<open>'e + 'a\<close> or \<open>'e option\<close>; it also holds
  \<open>sort.Slice\<close> with the locale \<open>slice_order\<close> of its contract, the locale \<open>ratchet\<close> of states that
  only move forward, and the locale of a durable store. \<open>GoText\<close>, \<open>GoBase64\<close>, \<open>GoTime\<close>,
  \<open>GoJson\<close>, \<open>GoJsonText\<close>, \<open>GoJsonDecode\<close> and \<open>GoNet\<close> model what the sources use of Go's
  library: runes and regular expressions, base64, times as nanoseconds since 1970 with their
  RFC 3339 text, the JSON parser, printer and struct decoder with the round trips that the
  locale \<open>json_codec\<close> lifts to every type, IP addresses and request URIs. \<open>GoStrings\<close> adds white
  space, case folding and hexadecimal text, \<open>GoFloat\<close> the rounding of \<open>float64\<close>, and \<open>GoDuration\<close>
  the parser of durations, whose results fit 64 bits. \<open>GoCrypto\<close> makes
  SHA-256 and Ed25519 a parameter, a record of functions; the named hypothesis \<open>crypto_ok\<close>
  states their documented sizes and that what was signed verifies, and a concrete instance
  shows that it can hold.

  \<^bold>\<open>Key policy and manifest.\<close> \<open>Policy\<close> models \<open>keypolicy.go\<close>: its shape check is equivalent to
  a declarative specification of consecutive grants, at most one key is granted a version, a
  signed policy is accepted and survives its JSON form, and the order of its grants does not
  matter. \<open>Manifest\<close> holds the data and the operations of \<open>manifest.go\<close>; \<open>ManifestCatalog\<close> shows
  that the validators refine a specification and that the catalog digest identifies the
  contents up to order; \<open>ManifestVerify\<close> shows that \<open>Verify\<close> accepts what \<open>Issue\<close> produced,
  returns only documents signed by the one granted key, never moves the trusted state back,
  and over any run never accepts two different payloads under one version.

  \<^bold>\<open>Issuance.\<close> \<open>Issuance\<close> models \<open>state.go\<close> and \<open>lock_linux.go\<close> over a file system that keeps what
  is visible and what is on disk apart, for directory entries and for the data of files, so a
  power loss can undo or damage what was not synced. In a directory that is itself on disk a
  saved state is durable and a save is atomic under the failure of any call; the exception, a
  save that had to create its directory, is stated as a theorem. \<open>Issuer\<close> models \<open>issuer.go\<close> and
  \<open>catalog/file.go\<close>; \<open>IssuerRun\<close> is an inductive step relation over starts, calls, failures,
  kills and power losses, whose invariant gives: published versions strictly increase, at most
  one issuer runs, what is served was published, is on disk and has not expired, failures are
  cached for at most five seconds, and the issuer recovers. The issuer's mutex makes a call one step.

  \<^bold>\<open>Clients.\<close> \<open>Discovery\<close> models \<open>client.go\<close> with the network as an input: what \<open>Fetch\<close> returns is
  authentic and from the host of the source it names, sources are tried one by one in order, each attempt leaves a fair share of the time
  to the rest, and a good mirror is reached. \<open>Selector\<close> models \<open>planner.go\<close> and \<open>health.go\<close>: the
  contents, order and diversity of a plan, its retry time, and the doubling cooldown.

  \<^bold>\<open>Pilot services.\<close> \<open>VpnNode\<close> holds the observations of a node, their validators and the
  Timeweb node; a health report is accepted exactly when its state is the one its transports
  imply. \<open>PilotAccess\<close> and \<open>PilotTelemetry\<close> model the two services and their Postgres stores:
  tables with the constraints of \<open>migrations/\<close>, statements as functions that may raise the
  constraint's error, transactions as single steps whose every failure is an input. Every row
  has its audit events and no event lacks its row, a revocation is final, generated identifiers
  are canonical, retention loses nothing recent and deletes a bounded
  number of the oldest results, and the report counts right. The service is
  proved once against the locale \<open>access_store\<close>, which the Postgres store interprets.

  \<^bold>\<open>The whole system.\<close> \<open>Delivery\<close> joins the two ends: a client that accepted one publication
  accepts a later one that a mirror relays to it from the public handler while it is valid,
  unless a key was listed again under another epoch, which is the property stated at the end
  of this theory.

  \<^bold>\<open>Bounds.\<close> No operation needs fuel that could run out: loops are structural recursions or have
  a termination proof, and a repetition \<open>r*\<close> of a pattern is tried as many times as there are
  runes, which is enough since a useful round consumes one. Words keep their width throughout.

  \<^bold>\<open>HTTP.\<close> \<open>Api\<close> models the public handler (\<open>internal/api\<close>) and its limit on requests in progress
  as an interleaving of arrivals, answers and returns, which never exceeds the limit and loses no slot.
  \<open>Routes\<close> models its routes: the administration API is reached only by a clean path, and only if
  it was configured.
  \<open>PilotApi\<close> models the administration handler (\<open>internal/pilotapi\<close>) over the two services and
  their stores: requests that do not present the token leave no trace, and over any run of requests the
  tables stay audited.

  \<^bold>\<open>The process.\<close> \<open>SigningKey\<close> models the key files (\<open>internal/signingkey\<close>) over a map from
  cleaned paths to files with permission bits: a generated pair loads back and a failed
  generation leaves nothing. \<open>Config\<close> models \<open>internal/config\<close> over the environment as a function.
  \<open>ControlPlane\<close> models \<open>cmd/control-plane\<close>: it composes the configuration, the key files, the
  policy, the issuer and the pilot database, from the first check to the last deferred close. It
  listens only after a manifest was issued and saved, serves the administration API only on an
  address of the loopback or private ranges over a database it has checked, and releases what it acquired.

  \<^bold>\<open>Tools and metrics.\<close> \<open>Artifact\<close> models the lock of build artifacts and their download
  (\<open>internal/artifactlock\<close>, \<open>cmd/artifact-fetch\<close>): only a file with the pinned digest is
  published and no file is overwritten. \<open>PilotMetrics\<close> models the page for a scraper
  (\<open>internal/pilotmetrics\<close>): a label value stays inside its quotes and is read back rune by rune. \<open>PolicyTool\<close> models
  \<open>cmd/manifest-key-policy\<close> and \<open>cmd/manifest-keygen\<close>: the indented JSON file the tool leaves decodes
  to a policy that is accepted. \<open>TimewebClient\<close> models the client of the provider's API and
  \<open>cmd/pilot-check\<close>: secrets in an answer are not read, and a server that passes has a public
  address.

  \<^bold>\<open>Not modelled.\<close> The commands parse their flags with Go's \<open>flag\<close> and print; their models start
  after the flags. DNS, TLS and the transports of Go's \<open>net/http\<close> are library behaviour: a response is
  an input, and so is what \<open>pgx\<close> makes of a database URL. Symbolic links and the umask of key
  files, error texts (they are constructors) and logging are left out.
\<close>

section \<open>The whole system\<close>

text \<open>
  C1. From the catalog to the client. Take any two manifests, \<open>p\<close> and a later \<open>q\<close>, that the control
  plane published over a run of starts, failures, kills and power losses on a state directory
  that was durable at the beginning. A client that accepted
  \<open>p\<close>, and asks a mirror that relays the answer of the control plane to a request for \<open>q\<close> while \<open>q\<close>
  is valid, accepts it, gets the document that was published and moves its trusted state to \<open>q\<close>,
  whatever it missed in between. This needs that the URLs of the catalogs are UTF-8, as those
  of a decoded catalog file are, that SHA-256 does not map the signing key and the key the policy
  grants under its identifier to one value, and that a key that signed both has one epoch in
  both: a client refuses a key that is listed again under another epoch.
\<close>
theorem mirror_follows_issuer:
  assumes "crypto_ok c" "store_inv fs" "reachable c fs w" "w_log w = ps @ p # qs @ q # rs"
    and "deliverable c p" "deliverable c q" "valid_at q now"
    and "st_KeyID (pub_state p) = st_KeyID (pub_state q) \<longrightarrow> st_KeyEpoch (pub_state p) = st_KeyEpoch (pub_state q)"
    and "validateSource source = Inr parsed" "reads_json lib"
    and "relays lib parsed (manifest_answer (Inr (pub_envelope q) :: string + Envelope) ''GET'') response"
  shows "fetchOne c lib (i_rootKey (pub_by q)) source (Responded response) now (client_state c p) =
      Inr (pub_document q, client_state c q) \<and>
    doc_Version (pub_document q) = st_LastVersion (pub_state q) \<and>
    st_LastVersion (pub_state p) < st_LastVersion (pub_state q)"
proof -
  have inv: "sorted_wrt (\<lambda>p q. istate_lt (pub_state p) (pub_state q)) (w_log w)" "\<forall>p \<in> set (w_log w). published c p"
    using reachable_inv [OF assms(1-3)] unfolding world_inv_def by blast+
  have lt: "istate_lt (pub_state p) (pub_state q)" using inv(1) by (simp add: assms(4) sorted_wrt_append)
  have pub: "published c p" "published c q" using inv(2) by (simp_all add: assms(4))
  obtain sk where issue: "Issue c (pub_catalog q) (st_LastVersion (pub_state q)) (i_keyPolicy (pub_by q))
      (i_rootKey (pub_by q)) (st_LastIssuedAt (pub_state q)) (i_ttl (pub_by q)) sk = Inr (pub_envelope q)"
    using pub(2) unfolding published_def by blast
  have "fetchOne c lib (i_rootKey (pub_by q)) source (Responded response) now (client_state c p) =
      Inr (pub_document q, client_state c q)"
    by (rule fetchOne_issued [OF assms(1) issue assms(9) relays_serves [OF assms(10,11)]
          Verify_newer [OF assms(1) pub(1) assms(5) pub(2) assms(6,7) lt assms(8)]])
  then show ?thesis using lt by (simp add: pub_document_def issuedDocument_def istate_lt_def)
qed

theorem mirror_follows_issuer_witness:
  "\<exists>p q now response. fetchOne sample_crypto sample_lib sample_root (hd sample_sources) (Responded response) now
     (client_state sample_crypto p) = Inr (pub_document q, client_state sample_crypto q)"
proof -
  obtain w p q where w: "reachable sample_crypto sample_fs w" "w_log w = [] @ p # [] @ q # []"
    and del: "deliverable sample_crypto p" "deliverable sample_crypto q"
    and i: "sample_issuer (pub_by p)" "sample_issuer (pub_by q)"
    using sample_delivery by blast
  have inv: "store_inv sample_fs" by (simp add: store_inv_def sample_fs_def)
  have pub: "published sample_crypto p" "published sample_crypto q"
    using reachable_inv [OF sample_crypto_ok inv w(1)] by (simp_all add: world_inv_def w(2))
  have key: "st_KeyID (pub_state p) = st_KeyID (pub_state q) \<longrightarrow> st_KeyEpoch (pub_state p) = st_KeyEpoch (pub_state q)"
    using pub i grant_epoch_unique [of sample_crypto sample_policy]
    unfolding published_def issuer_ok_def sample_issuer_def by (metis ValidateKeyPolicy_ok(2))
  have "issuer_ok sample_crypto (pub_by q)" using i(2) by (simp add: sample_issuer_def)
  note valid = issued_valid_at [OF this]
  let ?a = "manifest_answer (Inr (pub_envelope q) :: string + Envelope) ''GET''"
  let ?u = "\<lparr>u_Scheme = ''https'', u_Opaque = [], u_User = None, u_Host = ''h'', u_Path = ''/m'', u_RawQuery = [],
      u_Fragment = []\<rparr>"
  have src: "validateSource (hd sample_sources) = Inr ?u"
    by (simp add: validateSource_def sample_sources_def sample_catalog_def sample_url)
  have lib: "reads_json sample_lib" by (simp add: reads_json_def sample_lib_def)
  have relay: "relays sample_lib ?u ?a \<lparr>rsp_URL = Some (''https'', ''h''), rsp_StatusCode = 200,
      rsp_ContentType = ''application/json'', rsp_Body = bytes_reader (tx_Body ?a)\<rparr>"
    by (simp add: relays_def sample_lib_def manifest_answer_def)
  have "i_rootKey (pub_by q) = sample_root" using i(2) by (simp add: sample_issuer_def)
  with mirror_follows_issuer [OF sample_crypto_ok inv w del valid key src lib relay] show ?thesis by metis
qed

end
